(* ===== verification/Go_Prelude.thy ===== *)
theory Go_Prelude
  imports Main "HOL-Library.Sublist"
begin

text \<open>
  What every component of the development shares: Go errors and controller results as
  values, the two functions of package strings the operator calls, Go map literals and
  maps.Copy, and the control flow of a Go function body (fall through, return, panic) as
  a small state-and-exit monad. A reconcile function of the operator mutates the Horizon
  object it was given and leaves early at many points; a body is therefore a
  \<^emph>\<open>procedure\<close> from a state to an outcome and the new state. The locale
  \<open>frame_rel\<close> collects the closure rules by which a relation between the states before
  and after is lifted from the single calls of a body to the whole body.
\<close>

named_theorems flow_simps \<open>evaluation of procedure bodies\<close>

section \<open>Errors and results\<close>

text \<open>
  An error value. \<open>NotFound\<close> is an error built by NewNotFound of the Kubernetes API
  machinery, \<open>ApiError\<close> any other error of a call, \<open>StaticErr\<close> an error created by
  errors.New in the operator, \<open>Errorf\<close> the result of fmt.Errorf (the format and its string
  arguments), \<open>Wrapped\<close> the same with a \<open>%w\<close> verb and the wrapped error, and
  \<open>InvalidObject\<close> what apierrors.NewInvalid builds from a kind, a name and field errors.
\<close>

datatype gerr =
    NotFound string
  | ApiError string
  | StaticErr string
  | Errorf string "string list"
  | InvalidObject string string "string list"
  | Wrapped string "string list" gerr

text \<open>IsNotFound of the API machinery: it looks through wrapped errors.\<close>

fun is_not_found :: "gerr \<Rightarrow> bool" where
  "is_not_found (NotFound _) = True"
| "is_not_found (Wrapped _ _ e) = is_not_found e"
| "is_not_found (ApiError _) = False"
| "is_not_found (StaticErr _) = False"
| "is_not_found (Errorf _ _) = False"
| "is_not_found (InvalidObject _ _ _) = False"

text \<open>errors.Is against a static error: equal, or wrapping it.\<close>

fun errors_is :: "gerr \<Rightarrow> gerr \<Rightarrow> bool" where
  "errors_is (Wrapped f as e) t = (Wrapped f as e = t \<or> errors_is e t)"
| "errors_is e t = (e = t)"

lemma errors_is_refl [simp]: "errors_is e e"
  by (cases e) auto

text \<open>ctrl.Result: the zero value asks for nothing; RequeueAfter is in seconds.\<close>

record ctrl_result =
  requeue :: bool
  requeue_after :: int

definition res0 :: ctrl_result where
  "res0 = \<lparr>requeue = False, requeue_after = 0\<rparr>"

definition requeue_in :: "int \<Rightarrow> ctrl_result" where
  "requeue_in n = \<lparr>requeue = False, requeue_after = n\<rparr>"

lemma requeue_in_eq_res0 [simp]: "requeue_in n = res0 \<longleftrightarrow> n = 0"
  by (simp add: requeue_in_def res0_def)

lemma res0_eq_requeue_in [simp]: "res0 = requeue_in n \<longleftrightarrow> n = 0"
  by (auto simp: requeue_in_def res0_def)

lemma requeue_in_inject [simp]: "requeue_in m = requeue_in n \<longleftrightarrow> m = n"
  by (simp add: requeue_in_def)

text \<open>The result of a function that returns a value, returns an error, or panics.\<close>

datatype 'a outcome = Value 'a | Error gerr | Crash string

type_synonym ret = "ctrl_result \<times> gerr option"

section \<open>Strings and maps\<close>

text \<open>strings.Contains(s, sub).\<close>

fun go_contains :: "string \<Rightarrow> string \<Rightarrow> bool" where
  "go_contains [] sub = (sub = [])"
| "go_contains (c # s) sub = (take (length sub) (c # s) = sub \<or> go_contains s sub)"

text \<open>
  strings.ToLower on the bytes of a string: letters A to Z move up by 32. (A code point
  beyond ASCII never lowers to one of the letters the operator searches for.)
\<close>

definition lower_char :: "char \<Rightarrow> char" where
  "lower_char c = (let n = of_char c :: nat in
     if 65 \<le> n \<and> n \<le> 90 then char_of (n + 32) else c)"

definition to_lower :: "string \<Rightarrow> string" where
  "to_lower s = map lower_char s"

type_synonym smap = "string \<Rightarrow> string option"

text \<open>maps.Copy(dst, src): the entries of src win.\<close>

definition maps_copy :: "smap \<Rightarrow> smap \<Rightarrow> smap" where
  "maps_copy dst src = dst ++ src"

lemma take_length_prefix: "take (length p) s = p \<longleftrightarrow> prefix p s"
  by (metis append_eq_conv_conj prefix_def take_is_prefix)

text \<open>go_contains is the library's contiguous-sublist relation.\<close>

lemma go_contains_sublist: "go_contains s sub \<longleftrightarrow> sublist sub s"
  by (induction s) (auto simp: take_length_prefix sublist_Cons_right)

lemma go_contains_append [intro]: "go_contains s sub \<Longrightarrow> go_contains (p @ s @ q) sub"
  unfolding go_contains_sublist sublist_def by (metis append.assoc)

lemma lower_char_idem: "lower_char (lower_char c) = lower_char c"
  by (auto simp: lower_char_def Let_def)

lemma to_lower_idem [simp]: "to_lower (to_lower s) = to_lower s"
  by (simp add: to_lower_def lower_char_idem)

lemma maps_copy_apply: "maps_copy d s k = (case s k of None \<Rightarrow> d k | Some v \<Rightarrow> Some v)"
  by (simp add: maps_copy_def map_add_def)

section \<open>Procedure bodies\<close>

text \<open>
  The outcome of running (part of) a body: control falls through with a value, the
  enclosing function returns, or a run-time panic unwinds.
\<close>

datatype ('a, 'r) flow = Next 'a | Return 'r | Panic string

type_synonym ('s, 'a, 'r) proc = "'s \<Rightarrow> ('a, 'r) flow \<times> 's"

definition next_with :: "'a \<Rightarrow> ('s, 'a, 'r) proc" where
  "next_with x = (\<lambda>s. (Next x, s))"

definition return_with :: "'r \<Rightarrow> ('s, 'a, 'r) proc" where
  "return_with r = (\<lambda>s. (Return r, s))"

definition panic_with :: "string \<Rightarrow> ('s, 'a, 'r) proc" where
  "panic_with m = (\<lambda>s. (Panic m, s))"

definition get_state :: "('s \<Rightarrow> 'a) \<Rightarrow> ('s, 'a, 'r) proc" where
  "get_state f = (\<lambda>s. (Next (f s), s))"

definition modify :: "('s \<Rightarrow> 's) \<Rightarrow> ('s, unit, 'r) proc" where
  "modify f = (\<lambda>s. (Next (), f s))"

definition and_then :: "('s, 'a, 'r) proc \<Rightarrow> ('a \<Rightarrow> ('s, 'b, 'r) proc) \<Rightarrow> ('s, 'b, 'r) proc" where
  "and_then m f = (\<lambda>s. case m s of
     (Next x, s') \<Rightarrow> f x s'
   | (Return r, s') \<Rightarrow> (Return r, s')
   | (Panic p, s') \<Rightarrow> (Panic p, s'))"

text \<open>Calling another function: its return value becomes a value of the caller.\<close>

definition call_proc :: "('s, 'b, 'b) proc \<Rightarrow> ('s, 'b, 'r) proc" where
  "call_proc m = (\<lambda>s. case m s of
     (Next r, s') \<Rightarrow> (Next r, s')
   | (Return r, s') \<Rightarrow> (Next r, s')
   | (Panic p, s') \<Rightarrow> (Panic p, s'))"

text \<open>The loop "for _, x := range xs" with a body that may return or panic.\<close>

fun for_each :: "'x list \<Rightarrow> ('x \<Rightarrow> ('s, unit, 'r) proc) \<Rightarrow> ('s, unit, 'r) proc" where
  "for_each [] body = next_with ()"
| "for_each (x # xs) body = and_then (body x) (\<lambda>_. for_each xs body)"

lemma next_with_apply [flow_simps]: "next_with x s = (Next x, s)"
  by (simp add: next_with_def)

lemma return_with_apply [flow_simps]: "return_with r s = (Return r, s)"
  by (simp add: return_with_def)

lemma panic_with_apply [flow_simps]: "panic_with p s = (Panic p, s)"
  by (simp add: panic_with_def)

lemma get_state_apply [flow_simps]: "get_state f s = (Next (f s), s)"
  by (simp add: get_state_def)

lemma modify_apply [flow_simps]: "modify f s = (Next (), f s)"
  by (simp add: modify_def)

lemma and_then_apply [flow_simps]:
  "and_then m f s = (case m s of
     (Next x, s') \<Rightarrow> f x s'
   | (Return r, s') \<Rightarrow> (Return r, s')
   | (Panic p, s') \<Rightarrow> (Panic p, s'))"
  by (simp add: and_then_def)

lemma call_proc_apply [flow_simps]:
  "call_proc m s = (case m s of
     (Next r, s') \<Rightarrow> (Next r, s')
   | (Return r, s') \<Rightarrow> (Next r, s')
   | (Panic p, s') \<Rightarrow> (Panic p, s'))"
  by (simp add: call_proc_def)

lemma and_then_assoc: "and_then (and_then m f) g = and_then m (\<lambda>x. and_then (f x) g)"
  by (rule ext) (auto simp: and_then_apply split: prod.splits flow.splits)

text \<open>
  What holds of a state before a body and of the states it can leave: \<open>Q\<close> where control
  falls through, \<open>E\<close> where the function returned or panicked.
\<close>

definition triple ::
  "('s \<Rightarrow> bool) \<Rightarrow> ('s, 'a, 'r) proc \<Rightarrow> ('a \<Rightarrow> 's \<Rightarrow> bool) \<Rightarrow> ('s \<Rightarrow> bool) \<Rightarrow> bool" where
  "triple P m Q E \<longleftrightarrow> (\<forall>s. P s \<longrightarrow> (case m s of
     (Next x, s') \<Rightarrow> Q x s' | (Return r, s') \<Rightarrow> E s' | (Panic p, s') \<Rightarrow> E s'))"

lemma triple_and_then:
  assumes "triple P m Q E" and "\<And>x. triple (Q x) (f x) R E"
  shows "triple P (and_then m f) R E"
  using assms unfolding triple_def
  by (fastforce simp: and_then_apply split: prod.splits flow.splits)

lemma triple_weaken:
  assumes "triple P m Q E" and "\<And>s. P' s \<Longrightarrow> P s"
    and "\<And>x s. Q x s \<Longrightarrow> Q' x s" and "\<And>s. E s \<Longrightarrow> E' s"
  shows "triple P' m Q' E'"
  using assms unfolding triple_def
  by (fastforce split: prod.splits flow.splits)

lemma triple_final:
  assumes "triple P m (\<lambda>_. E) E" and "P s"
  shows "E (snd (m s))"
  using assms unfolding triple_def
  by (cases "m s"; cases "fst (m s)") fastforce+

lemma triple_conj:
  assumes "triple P m (\<lambda>_. Q) Q" and "triple P m (\<lambda>_. R) R"
  shows "triple P m (\<lambda>_ s. Q s \<and> R s) (\<lambda>s. Q s \<and> R s)"
  using assms unfolding triple_def by (fastforce split: prod.splits flow.splits)

section \<open>Frame relations\<close>

definition keeps :: "('s \<Rightarrow> 's \<Rightarrow> bool) \<Rightarrow> ('s, 'a, 'r) proc \<Rightarrow> bool" where
  "keeps R m \<longleftrightarrow> (\<forall>s. R s (snd (m s)))"

lemma keepsD: "keeps R m \<Longrightarrow> m s = (x, s') \<Longrightarrow> R s s'"
  unfolding keeps_def by (metis snd_conv)

lemma keepsI: "(\<And>s x s'. m s = (x, s') \<Longrightarrow> R s s') \<Longrightarrow> keeps R m"
  unfolding keeps_def by (simp add: prod_eq_iff)

locale frame_rel =
  fixes R :: "'s \<Rightarrow> 's \<Rightarrow> bool"
  assumes refl: "R s s"
    and trans: "R s t \<Longrightarrow> R t u \<Longrightarrow> R s u"
begin

lemma keeps_next: "keeps R (next_with x)"
  by (simp add: keeps_def next_with_def refl)

lemma keeps_return: "keeps R (return_with r)"
  by (simp add: keeps_def return_with_def refl)

lemma keeps_panic: "keeps R (panic_with p)"
  by (simp add: keeps_def panic_with_def refl)

lemma keeps_get: "keeps R (get_state f)"
  by (simp add: keeps_def get_state_def refl)

lemma keeps_modify: "(\<And>s. R s (f s)) \<Longrightarrow> keeps R (modify f)"
  by (simp add: keeps_def modify_def)

lemma keeps_and_then:
  assumes "keeps R m" and "\<And>x. keeps R (f x)"
  shows "keeps R (and_then m f)"
proof (rule keepsI)
  fix s x s'
  assume run: "and_then m f s = (x, s')"
  show "R s s'"
  proof (cases "m s")
    case (Pair y t)
    have st: "R s t" using assms(1) Pair by (rule keepsD)
    show ?thesis
    proof (cases y)
      case (Next v)
      with run Pair have "f v t = (x, s')" by (simp add: and_then_apply)
      with assms(2) have "R t s'" by (rule keepsD)
      with st show ?thesis by (rule trans)
    qed (use run Pair st in \<open>auto simp: and_then_apply\<close>)
  qed
qed

lemma keeps_call: "keeps R m \<Longrightarrow> keeps R (call_proc m)"
  unfolding keeps_def call_proc_def
  by (metis (mono_tags, lifting) case_prod_beta flow.exhaust flow.simps(10) flow.simps(11) flow.simps(12) snd_conv)

lemma keeps_for_each: "(\<And>x. keeps R (body x)) \<Longrightarrow> keeps R (for_each xs body)"
  by (induction xs) (auto intro: keeps_next keeps_and_then)

lemmas keeps_rules = keeps_next keeps_return keeps_panic keeps_get keeps_modify
  keeps_and_then keeps_call keeps_for_each

end

end
