(* ===== verification/Conditions.thy ===== *)
theory Conditions
  imports Go_Prelude "HOL-Library.Char_ord" "HOL-Library.List_Lexorder" "HOL-Library.Product_Lexorder"
begin

text \<open>
  The conditions of a Horizon status. The condition package of lib-common is not part of
  the repository: its types are taken from the generated CRD (type, status, severity,
  reason, message) and the nil checks and slice copies of the API package, its functions
  are the fields of the record \<open>cond_lib\<close>, and what the controller relies on is the
  predicate \<open>cond_laws\<close>, stated over the observation \<open>cond_view\<close>. Condition types are
  ordered by the point of a reconcile pass at which they are decided.
\<close>

named_theorems cond_simps \<open>what the condition operations do to the observed conditions\<close>

section \<open>Condition values\<close>

text \<open>The condition types the operator names, and any other type found in a status.\<close>

datatype ctype =
    ServiceAccountReady | RoleReady | RoleBindingReady
  | InputReady | MemcachedReady | TLSInputReady | ServiceConfigReady
  | CreateServiceReady | NetworkAttachmentsReady | TopologyReady | DeploymentReady
  | Ready | OtherType string

datatype cstatus = CTrue | CFalse | CUnknown

datatype reason = InitReason | ErrorReason | RequestedReason | ReadyReason | OtherReason string

datatype severity = SeverityNone | SeverityError | SeverityWarning | SeverityInfo

text \<open>
  The arguments a message is formatted from: the name of the format constant, and strings
  or errors.
\<close>

datatype marg = MStr string | MErr gerr

datatype message = Msg (msg_format: string) (msg_args: "marg list")

record condition =
  c_type :: ctype
  c_status :: cstatus
  c_severity :: severity
  c_reason :: reason
  c_message :: string
  c_time :: int

type_synonym conditions = "condition list"

section \<open>The order of a pass\<close>

fun ctype_pos :: "ctype \<Rightarrow> nat" where
  "ctype_pos ServiceAccountReady = 0"
| "ctype_pos RoleReady = 1"
| "ctype_pos RoleBindingReady = 2"
| "ctype_pos InputReady = 3"
| "ctype_pos MemcachedReady = 4"
| "ctype_pos TLSInputReady = 5"
| "ctype_pos ServiceConfigReady = 6"
| "ctype_pos CreateServiceReady = 7"
| "ctype_pos NetworkAttachmentsReady = 8"
| "ctype_pos TopologyReady = 9"
| "ctype_pos DeploymentReady = 10"
| "ctype_pos Ready = 11"
| "ctype_pos (OtherType _) = 12"

fun ctype_name :: "ctype \<Rightarrow> string" where
  "ctype_name (OtherType s) = s"
| "ctype_name _ = []"

definition ctype_key :: "ctype \<Rightarrow> nat \<times> string" where
  "ctype_key t = (ctype_pos t, ctype_name t)"

lemma ctype_key_inj: "ctype_key t = ctype_key u \<Longrightarrow> t = u"
  by (cases t; cases u) (auto simp: ctype_key_def)

instantiation ctype :: linorder
begin

definition less_eq_ctype :: "ctype \<Rightarrow> ctype \<Rightarrow> bool" where
  "less_eq_ctype t u \<longleftrightarrow> ctype_key t \<le> ctype_key u"

definition less_ctype :: "ctype \<Rightarrow> ctype \<Rightarrow> bool" where
  "less_ctype t u \<longleftrightarrow> ctype_key t < ctype_key u"

instance
  by standard (auto simp: less_eq_ctype_def less_ctype_def intro: ctype_key_inj)

end

lemma ctype_less_pos: "ctype_pos t < ctype_pos u \<Longrightarrow> t < u"
  by (simp add: less_ctype_def ctype_key_def less_prod_def)

section \<open>Observing a condition list\<close>

text \<open>
  What a reader of the status sees for a type: status, reason and severity of the first
  entry of that type (the times are left out).
\<close>

type_synonym cview = "cstatus \<times> reason \<times> severity"

definition view_of :: "condition \<Rightarrow> cview" where
  "view_of c = (c_status c, c_reason c, c_severity c)"

definition cond_view :: "conditions \<Rightarrow> ctype \<Rightarrow> cview option" where
  "cond_view cs t = map_option view_of (find (\<lambda>c. c_type c = t) cs)"

definition status_of :: "conditions \<Rightarrow> ctype \<Rightarrow> cstatus option" where
  "status_of cs t = map_option fst (cond_view cs t)"

lemma cond_view_Nil [simp]: "cond_view [] t = None"
  by (simp add: cond_view_def)

lemma cond_view_Cons [simp]:
  "cond_view (c # cs) t = (if c_type c = t then Some (view_of c) else cond_view cs t)"
  by (simp add: cond_view_def)

lemma status_of_view: "cond_view cs t = Some v \<Longrightarrow> status_of cs t = Some (fst v)"
  by (simp add: status_of_def)

section \<open>The functions of the condition package\<close>

text \<open>
  \<open>cl_set_shared cs c\<close> is what the owner of the slice \<open>cs\<close> sees after Set was called with
  \<open>c\<close> on a \<^emph>\<open>copy\<close> of the slice header, as happens when a method with a value receiver
  calls Set: the entries are shared, the length is not.
\<close>

record cond_lib =
  cl_unknown :: "ctype \<Rightarrow> reason \<Rightarrow> message \<Rightarrow> condition"
  cl_false :: "ctype \<Rightarrow> reason \<Rightarrow> severity \<Rightarrow> message \<Rightarrow> condition"
  cl_true :: "ctype \<Rightarrow> message \<Rightarrow> condition"
  cl_create_list :: "condition list \<Rightarrow> conditions"
  cl_init :: "conditions \<Rightarrow> conditions \<Rightarrow> conditions"
  cl_set :: "conditions \<Rightarrow> condition \<Rightarrow> conditions"
  cl_set_shared :: "conditions \<Rightarrow> condition \<Rightarrow> conditions"
  cl_mark_true :: "conditions \<Rightarrow> ctype \<Rightarrow> message \<Rightarrow> conditions"
  cl_mark_false :: "conditions \<Rightarrow> ctype \<Rightarrow> reason \<Rightarrow> severity \<Rightarrow> message \<Rightarrow> conditions"
  cl_mirror :: "conditions \<Rightarrow> ctype \<Rightarrow> condition"
  cl_is_true :: "conditions \<Rightarrow> ctype \<Rightarrow> bool"
  cl_is_unknown :: "conditions \<Rightarrow> ctype \<Rightarrow> bool"
  cl_all_sub_true :: "conditions \<Rightarrow> bool"
  cl_restore :: "conditions \<Rightarrow> conditions \<Rightarrow> conditions"

definition others_true :: "conditions \<Rightarrow> ctype \<Rightarrow> bool" where
  "others_true cs t \<longleftrightarrow> (\<forall>c \<in> set cs. c_type c \<noteq> t \<longrightarrow> status_of cs (c_type c) = Some CTrue)"

text \<open>
  The documented behaviour: a constructor builds a condition of its type, status, reason and
  severity; CreateList keeps what it is given; Init installs every condition of the list and
  makes Ready Unknown when the list does not mention it; Set replaces the entry of that type
  and leaves the others; MarkTrue and MarkFalse are Set of the constructed condition; the
  predicates read the observed status; Mirror builds a condition of the requested type that
  is True only when all others are; RestoreLastTransitionTimes changes times only.
\<close>

definition cond_laws :: "cond_lib \<Rightarrow> bool" where
  "cond_laws C \<longleftrightarrow>
     (\<forall>t r m. c_type (cl_unknown C t r m) = t \<and> c_status (cl_unknown C t r m) = CUnknown) \<and>
     (\<forall>t r v m. c_type (cl_false C t r v m) = t \<and> view_of (cl_false C t r v m) = (CFalse, r, v)) \<and>
     (\<forall>t m. c_type (cl_true C t m) = t \<and> c_status (cl_true C t m) = CTrue) \<and>
     (\<forall>cs. cl_create_list C cs = cs) \<and>
     (\<forall>cs is t. distinct (map c_type is) \<longrightarrow>
        (cond_view is t \<noteq> None \<longrightarrow> cond_view (cl_init C cs is) t = cond_view is t) \<and>
        (cond_view is Ready = None \<longrightarrow> status_of (cl_init C cs is) Ready = Some CUnknown)) \<and>
     (\<forall>cs c t. cond_view (cl_set C cs c) t =
        (if t = c_type c then Some (view_of c) else cond_view cs t)) \<and>
     (\<forall>cs c t. cond_view cs (c_type c) \<noteq> None \<longrightarrow>
        cond_view (cl_set_shared C cs c) t = cond_view (cl_set C cs c) t) \<and>
     (\<forall>cs t m. cl_mark_true C cs t m = cl_set C cs (cl_true C t m)) \<and>
     (\<forall>cs t r v m. cl_mark_false C cs t r v m = cl_set C cs (cl_false C t r v m)) \<and>
     (\<forall>cs t. c_type (cl_mirror C cs t) = t \<and>
        (c_status (cl_mirror C cs t) = CTrue \<longrightarrow> others_true cs t)) \<and>
     (\<forall>cs t. cl_is_true C cs t \<longleftrightarrow> status_of cs t = Some CTrue) \<and>
     (\<forall>cs t. cl_is_unknown C cs t \<longleftrightarrow> status_of cs t \<in> {None, Some CUnknown}) \<and>
     (\<forall>cs. cl_all_sub_true C cs \<longleftrightarrow> others_true cs Ready) \<and>
     (\<forall>cs sv t. cond_view (cl_restore C cs sv) t = cond_view cs t)"

lemma cond_type_laws [cond_simps]:
  assumes "cond_laws C"
  shows "c_type (cl_unknown C t r m) = t" and "c_type (cl_false C t r v m) = t"
    and "c_type (cl_true C t m) = t" and "c_type (cl_mirror C cs t) = t"
  using assms by (simp_all add: cond_laws_def)

lemma cond_status_laws [cond_simps]:
  assumes "cond_laws C"
  shows "c_status (cl_unknown C t r m) = CUnknown" and "c_status (cl_true C t m) = CTrue"
    and "view_of (cl_false C t r v m) = (CFalse, r, v)"
  using assms by (simp_all add: cond_laws_def)

lemma cond_list_laws [cond_simps]:
  assumes "cond_laws C"
  shows "cl_create_list C cs = cs"
    and "cond_view (cl_set C cs c) t = (if t = c_type c then Some (view_of c) else cond_view cs t)"
    and "cl_mark_true C cs t m = cl_set C cs (cl_true C t m)"
    and "cl_mark_false C cs t r v m = cl_set C cs (cl_false C t r v m)"
    and "cond_view (cl_restore C cs sv) t = cond_view cs t"
    and "cl_is_true C cs t \<longleftrightarrow> status_of cs t = Some CTrue"
    and "cl_is_unknown C cs t \<longleftrightarrow> status_of cs t \<in> {None, Some CUnknown}"
    and "cl_all_sub_true C cs \<longleftrightarrow> others_true cs Ready"
  using assms by (simp_all add: cond_laws_def)

lemma cond_init:
  assumes "cond_laws C" and "distinct (map c_type is)"
  shows "cond_view is t \<noteq> None \<Longrightarrow> cond_view (cl_init C cs is) t = cond_view is t"
    and "cond_view is Ready = None \<Longrightarrow> status_of (cl_init C cs is) Ready = Some CUnknown"
  using assms by (simp_all add: cond_laws_def)

lemma cond_set_shared:
  assumes "cond_laws C" and "cond_view cs (c_type c) \<noteq> None"
  shows "cond_view (cl_set_shared C cs c) t =
    (if t = c_type c then Some (view_of c) else cond_view cs t)"
  using assms by (simp add: cond_laws_def)

lemma cond_mirror_true:
  assumes "cond_laws C" and "c_status (cl_mirror C cs t) = CTrue"
  shows "others_true cs t"
  using assms by (simp add: cond_laws_def)

lemma fst_view_of [cond_simps]: "fst (view_of c) = c_status c"
  by (simp add: view_of_def)

lemma status_set [cond_simps]:
  assumes "cond_laws C"
  shows "status_of (cl_set C cs c) t = (if t = c_type c then Some (c_status c) else status_of cs t)"
  using assms by (simp add: status_of_def cond_simps)

lemma c_status_false [cond_simps]:
  assumes "cond_laws C"
  shows "c_status (cl_false C t r v m) = CFalse"
  using cond_status_laws(3)[OF assms] by (simp add: view_of_def)

lemma status_restore [cond_simps]:
  assumes "cond_laws C"
  shows "status_of (cl_restore C cs sv) t = status_of cs t"
  using assms by (simp add: status_of_def cond_simps)

lemma find_type_in: "find (\<lambda>c. c_type c = t) cs = Some c \<Longrightarrow> c \<in> set cs \<and> c_type c = t"
  by (induction cs) (auto split: if_splits)

text \<open>A type that is observed to be other than True contradicts \<open>others_true\<close>.\<close>

lemma others_true_status:
  assumes "others_true cs t" and "u \<noteq> t" and "status_of cs u = Some s"
  shows "s = CTrue"
proof -
  from assms(3) obtain c where "find (\<lambda>c. c_type c = u) cs = Some c"
    by (auto simp: status_of_def cond_view_def)
  then have "c \<in> set cs" and "c_type c = u" using find_type_in by blast+
  with assms show ?thesis by (auto simp: others_true_def)
qed

section \<open>The laws can hold\<close>

text \<open>
  A concrete implementation by plain lists, used to show that the laws are satisfiable and
  to evaluate the model on concrete inputs.
\<close>

fun list_set :: "conditions \<Rightarrow> condition \<Rightarrow> conditions" where
  "list_set [] c = [c]"
| "list_set (d # ds) c = (if c_type d = c_type c then c # ds else d # list_set ds c)"

definition list_init :: "conditions \<Rightarrow> conditions \<Rightarrow> conditions" where
  "list_init cs is = fold (\<lambda>c ds. list_set ds c) is
     (list_set cs \<lparr>c_type = Ready, c_status = CUnknown, c_severity = SeverityNone,
        c_reason = RequestedReason, c_message = ''Setup started'', c_time = 0\<rparr>)"

definition list_others_true :: "conditions \<Rightarrow> ctype \<Rightarrow> bool" where
  "list_others_true cs t =
     list_all (\<lambda>c. c_type c = t \<or> status_of cs (c_type c) = Some CTrue) cs"

definition list_cond :: "ctype \<Rightarrow> cstatus \<Rightarrow> reason \<Rightarrow> severity \<Rightarrow> message \<Rightarrow> condition" where
  "list_cond t s r v m = \<lparr>c_type = t, c_status = s, c_severity = v, c_reason = r,
     c_message = msg_format m, c_time = 0\<rparr>"

definition list_cond_lib :: cond_lib where
  "list_cond_lib =
     \<lparr>cl_unknown = (\<lambda>t r m. list_cond t CUnknown r SeverityNone m),
      cl_false = (\<lambda>t r v m. list_cond t CFalse r v m),
      cl_true = (\<lambda>t m. list_cond t CTrue ReadyReason SeverityNone m),
      cl_create_list = (\<lambda>cs. cs),
      cl_init = list_init,
      cl_set = list_set,
      cl_set_shared = list_set,
      cl_mark_true = (\<lambda>cs t m. list_set cs (list_cond t CTrue ReadyReason SeverityNone m)),
      cl_mark_false = (\<lambda>cs t r v m. list_set cs (list_cond t CFalse r v m)),
      cl_mirror = (\<lambda>cs t. list_cond t (if list_others_true cs t then CTrue else CFalse)
         RequestedReason SeverityInfo (Msg ''mirror'' [])),
      cl_is_true = (\<lambda>cs t. status_of cs t = Some CTrue),
      cl_is_unknown = (\<lambda>cs t. status_of cs t = None \<or> status_of cs t = Some CUnknown),
      cl_all_sub_true = (\<lambda>cs. list_others_true cs Ready),
      cl_restore = (\<lambda>cs saved. cs)\<rparr>"

lemma list_set_view:
  "cond_view (list_set cs c) t = (if t = c_type c then Some (view_of c) else cond_view cs t)"
  by (induction cs) auto

lemma list_fold_view:
  assumes "distinct (map c_type is)"
  shows "cond_view (fold (\<lambda>c ds. list_set ds c) is cs) t =
    (case cond_view is t of None \<Rightarrow> cond_view cs t | Some v \<Rightarrow> Some v)"
  using assms
proof (induction "is" arbitrary: cs)
  case Nil
  then show ?case by simp
next
  case (Cons c ds)
  have "c_type c \<notin> set (map c_type ds)" using Cons.prems by simp
  then have "cond_view ds (c_type c) = None"
    by (induction ds) auto
  with Cons show ?case by (auto simp: list_set_view split: option.splits)
qed

lemma list_others_true_iff: "list_others_true cs t \<longleftrightarrow> others_true cs t"
  by (auto simp: list_others_true_def others_true_def list_all_iff)

lemma list_cond_laws: "cond_laws list_cond_lib"
  unfolding cond_laws_def list_cond_lib_def
  by (simp add: list_cond_def view_of_def list_set_view list_init_def list_fold_view
      list_others_true_iff status_of_def split: option.splits)

end
