(* ===== verification/Horizon_Types.thy ===== *)
theory Horizon_Types
  imports Conditions
begin

text \<open>
  The API types of the Horizon custom resource (api/v1beta1/horizon_types.go) and the methods
  declared with them. A pointer field is an option, a Go map a partial map (an option of one
  where the code tells nil from empty), a slice a list. Structs of other packages carry the
  fields this code reads or the CRD declares; their methods are fields of \<open>api_lib\<close>.
\<close>

section \<open>Types of other packages\<close>

text \<open>topologyv1.TopoRef and tls.SimpleService, by the fields the operator uses.\<close>

record topo_ref =
  tr_name :: string
  tr_namespace :: string

record tls_spec =
  tls_secretName :: "string option"
  tls_caBundleSecretName :: string

text \<open>corev1.VolumeMount and corev1.Volume; access modes are int32 values.\<close>

record volume_mount =
  vm_name :: string
  vm_mountPath :: string
  vm_readOnly :: bool
  vm_subPath :: string

datatype volume_source =
    ConfigMapSource int string
  | SecretSource int string
  | EmptyDirSource string
  | OtherSource string

record volume =
  vol_name :: string
  vol_source :: volume_source

text \<open>
  storage.VolMounts: the kind of the extra volume, the services it propagates to, the mounts,
  and the volumes, each with its name and the pointer ToCoreVolumeSource returns for it.
\<close>

record storage_volume =
  sv_name :: string
  sv_core_source :: "volume_source option"

record vol_mounts =
  vs_extraVolType :: string
  vs_propagation :: "string list"
  vs_volumes :: "storage_volume list"
  vs_mounts :: "volume_mount list"

text \<open>corev1.ResourceRequirements and service.RoutedOverrideSpec.\<close>

record resources =
  rq_limits :: smap
  rq_requests :: smap

record embedded_meta =
  em_labels :: smap
  em_annotations :: smap

record routed_override =
  ro_embedded :: "embedded_meta option"
  ro_spec :: "string option"
  ro_endpointURL :: "string option"

section \<open>Horizon\<close>

record extra_vol_mounts =
  ev_name :: string
  ev_region :: string
  ev_volMounts :: "vol_mounts list"

record override_spec =
  os_service :: "routed_override option"

record horizon_spec_core =
  sp_nodeSelector :: "smap option"
  sp_defaultConfigOverwrite :: smap
  sp_resources :: resources
  sp_override :: override_spec
  sp_tls :: tls_spec
  sp_replicas :: "int option"
  sp_secret :: string
  sp_customServiceConfig :: string
  sp_memcachedInstance :: string
  sp_preserveJobs :: bool
  sp_extraMounts :: "extra_vol_mounts list"
  sp_networkAttachments :: "string list"
  sp_topologyRef :: "topo_ref option"

record horizon_spec = horizon_spec_core +
  sp_containerImage :: string

record horizon_status =
  st_hash :: "smap option"
  st_endpoint :: string
  st_conditions :: "conditions option"
  st_readyCount :: int
  st_observedGeneration :: int
  st_networkAttachments :: "(string \<Rightarrow> string list option) option"
  st_lastAppliedTopology :: "topo_ref option"

record horizon =
  hz_kind :: string
  hz_name :: string
  hz_namespace :: string
  hz_generation :: int
  hz_deletionTimestamp :: "int option"
  hz_finalizers :: "string list"
  hz_spec :: horizon_spec
  hz_status :: horizon_status

text \<open>
  A value of an interface type (client.Object, runtime.Object): a Horizon, or an object of
  another type, with its name. \<open>as_horizon\<close> is the type assertion to a Horizon.
\<close>

datatype api_object = HorizonObj horizon | OtherObj string

fun as_horizon :: "api_object \<Rightarrow> horizon option" where
  "as_horizon (HorizonObj h) = Some h"
| "as_horizon (OtherObj _) = None"

definition is_zero_time :: "int option \<Rightarrow> bool" where
  "is_zero_time t = (t = None)"

text \<open>A nil slice of conditions reads as an empty one.\<close>

definition conds_of :: "horizon_status \<Rightarrow> conditions" where
  "conds_of st = (case st_conditions st of None \<Rightarrow> [] | Some cs \<Rightarrow> cs)"

section \<open>Constants\<close>

definition ContainerImage :: string where
  "ContainerImage = ''quay.io/podified-antelope-centos9/openstack-horizon:current-podified''"

definition HorizonCustomThemeMountPath :: string where
  "HorizonCustomThemeMountPath = ''/etc/openstack-dashboard/theme''"

definition HorizonCustomThemeSetting :: string where
  "HorizonCustomThemeSetting = ''/etc/openstack-dashboard/local_settings.d''"

definition HorizonThemeExtraVolType :: string where
  "HorizonThemeExtraVolType = ''theme''"

section \<open>Methods\<close>

definition GetEndpoint :: "horizon \<Rightarrow> gerr + string" where
  "GetEndpoint h = (let url = st_endpoint (hz_status h)
     in if url = '''' then Inl (Errorf ''dashboard url not found'' []) else Inr url)"

definition IsReady :: "cond_lib \<Rightarrow> horizon \<Rightarrow> bool" where
  "IsReady C h = cl_is_true C (conds_of (hz_status h)) Ready"

text \<open>
  The receiver of RbacConditionsSet is a value: Set runs on a copy of the slice header, and
  what the caller's object shows afterwards is \<open>cl_set_shared\<close>.
\<close>

definition RbacConditionsSet :: "cond_lib \<Rightarrow> horizon \<Rightarrow> condition \<Rightarrow> horizon" where
  "RbacConditionsSet C h c = h\<lparr>hz_status := (hz_status h)\<lparr>st_conditions :=
     (case st_conditions (hz_status h) of
        None \<Rightarrow> None
      | Some cs \<Rightarrow> Some (cl_set_shared C cs c))\<rparr>\<rparr>"

definition RbacNamespace :: "horizon \<Rightarrow> string" where
  "RbacNamespace h = hz_namespace h"

definition RbacResourceName :: "horizon \<Rightarrow> string" where
  "RbacResourceName h = ''horizon-'' @ hz_name h"

text \<open>
  ValidateThemeExtraMountPath: the loop stops at the first mount whose path holds neither the
  theme directory nor the settings directory.
\<close>

fun ValidateThemeExtraMountPath :: "volume_mount list \<Rightarrow> bool" where
  "ValidateThemeExtraMountPath [] = True"
| "ValidateThemeExtraMountPath (m # ms) =
     (if \<not> go_contains (vm_mountPath m) HorizonCustomThemeMountPath
         \<and> \<not> go_contains (vm_mountPath m) HorizonCustomThemeSetting
      then False else ValidateThemeExtraMountPath ms)"

text \<open>
  Propagate: \<open>prop\<close> is the Propagate method of a storage.VolMounts (its propagation filter).
\<close>

fun Propagate_loop ::
  "(vol_mounts \<Rightarrow> string list \<Rightarrow> vol_mounts list) \<Rightarrow> string list \<Rightarrow> vol_mounts list
   \<Rightarrow> vol_mounts list \<Rightarrow> vol_mounts list" where
  "Propagate_loop prop svc [] vl = vl"
| "Propagate_loop prop svc (gv # gvs) vl =
     (if go_contains (to_lower (vs_extraVolType gv)) HorizonThemeExtraVolType
      then (if ValidateThemeExtraMountPath (vs_mounts gv)
            then Propagate_loop prop svc gvs (vl @ prop gv svc)
            else Propagate_loop prop svc gvs vl)
      else Propagate_loop prop svc gvs (vl @ prop gv svc))"

definition Propagate ::
  "(vol_mounts \<Rightarrow> string list \<Rightarrow> vol_mounts list) \<Rightarrow> extra_vol_mounts \<Rightarrow> string list
   \<Rightarrow> vol_mounts list" where
  "Propagate prop c svc = Propagate_loop prop svc (ev_volMounts c) []"

text \<open>
  ValidateTopology: \<open>vref\<close> is topologyv1.ValidateTopologyRef, from the reference, the path of
  the field and the namespace to the field errors.
\<close>

definition ValidateTopology ::
  "(topo_ref option \<Rightarrow> string \<Rightarrow> string \<Rightarrow> string list) \<Rightarrow> horizon_spec \<Rightarrow> string \<Rightarrow> string
   \<Rightarrow> string list" where
  "ValidateTopology vref sp basePath ns =
     [] @ vref (sp_topologyRef sp) (basePath @ ''.topologyRef'') ns"

section \<open>Which extra mounts propagate\<close>

definition theme_type :: "vol_mounts \<Rightarrow> bool" where
  "theme_type gv \<longleftrightarrow> go_contains (to_lower (vs_extraVolType gv)) HorizonThemeExtraVolType"

definition theme_path :: "string \<Rightarrow> bool" where
  "theme_path p \<longleftrightarrow> sublist HorizonCustomThemeMountPath p \<or> sublist HorizonCustomThemeSetting p"

definition mounts_accepted :: "vol_mounts \<Rightarrow> bool" where
  "mounts_accepted gv \<longleftrightarrow> (theme_type gv \<longrightarrow> (\<forall>m \<in> set (vs_mounts gv). theme_path (vm_mountPath m)))"

lemma ValidateThemeExtraMountPath_iff:
  "ValidateThemeExtraMountPath ms \<longleftrightarrow> (\<forall>m \<in> set ms. theme_path (vm_mountPath m))"
  by (induction ms) (auto simp: theme_path_def go_contains_sublist)

lemma Propagate_loop_spec:
  "Propagate_loop prop svc gvs vl =
     vl @ concat (map (\<lambda>gv. prop gv svc) (filter mounts_accepted gvs))"
  by (induction gvs arbitrary: vl)
    (auto simp: mounts_accepted_def theme_type_def ValidateThemeExtraMountPath_iff)

lemma Propagate_spec:
  "Propagate prop c svc = concat (map (\<lambda>gv. prop gv svc) (filter mounts_accepted (ev_volMounts c)))"
  by (simp add: Propagate_def Propagate_loop_spec)

section \<open>Reading the conditions of an object\<close>

lemma RbacConditionsSet_frame [simp]:
  "hz_name (RbacConditionsSet C h c) = hz_name h"
  "hz_namespace (RbacConditionsSet C h c) = hz_namespace h"
  "hz_spec (RbacConditionsSet C h c) = hz_spec h"
  "hz_finalizers (RbacConditionsSet C h c) = hz_finalizers h"
  "hz_deletionTimestamp (RbacConditionsSet C h c) = hz_deletionTimestamp h"
  by (simp_all add: RbacConditionsSet_def)

lemma conds_of_RbacConditionsSet:
  "st_conditions (hz_status h) = Some cs \<Longrightarrow>
     conds_of (hz_status (RbacConditionsSet C h c)) = cl_set_shared C cs c"
  by (simp add: RbacConditionsSet_def conds_of_def)

end
