(* ===== verification/Horizon_Webhook.thy ===== *)
theory Horizon_Webhook
  imports Horizon_Types
begin

text \<open>
  Admission of a Horizon object: the defaults and validations of
  api/v1beta1/horizon_webhook.go and the handlers of internal/webhook/v1beta1 that dispatch
  to them. The package variable with the defaults is an explicit argument; reading the
  process environment and validating a topology reference are parameters.
\<close>

section \<open>Defaults\<close>

record horizon_defaults =
  hd_containerImageURL :: string

text \<open>The value of the package variable before SetupHorizonDefaults has run.\<close>

definition horizonDefaults0 :: horizon_defaults where
  "horizonDefaults0 = \<lparr>hd_containerImageURL = ''''\<rparr>"

definition SetupHorizonDefaults :: "horizon_defaults \<Rightarrow> horizon_defaults \<Rightarrow> horizon_defaults" where
  "SetupHorizonDefaults old defaults = defaults"

text \<open>\<open>env name dflt\<close> is util.GetEnvVar: the variable's value, or the default.\<close>

definition SetupDefaults ::
  "(string \<Rightarrow> string \<Rightarrow> string) \<Rightarrow> horizon_defaults \<Rightarrow> horizon_defaults" where
  "SetupDefaults env old =
     SetupHorizonDefaults old
       \<lparr>hd_containerImageURL = env ''RELATED_IMAGE_HORIZON_IMAGE_URL_DEFAULT'' ContainerImage\<rparr>"

definition core_Default :: "horizon_spec \<Rightarrow> horizon_spec" where
  "core_Default spec = spec"

definition spec_Default :: "horizon_defaults \<Rightarrow> horizon_spec \<Rightarrow> horizon_spec" where
  "spec_Default d spec =
     core_Default
       (if sp_containerImage spec = ''''
        then spec\<lparr>sp_containerImage := hd_containerImageURL d\<rparr> else spec)"

definition Default :: "horizon_defaults \<Rightarrow> horizon \<Rightarrow> horizon" where
  "Default d r = r\<lparr>hz_spec := spec_Default d (hz_spec r)\<rparr>"

section \<open>Validation\<close>

type_synonym topo_check = "topo_ref option \<Rightarrow> string \<Rightarrow> string \<Rightarrow> string list"

definition horizon_kind :: string where
  "horizon_kind = ''Horizon.horizon.openstack.org''"

definition ValidateCreate :: "topo_check \<Rightarrow> horizon \<Rightarrow> gerr option" where
  "ValidateCreate vref r =
     (let allErrs = [] @ ValidateTopology vref (hz_spec r) ''spec'' (hz_namespace r)
      in if length allErrs \<noteq> 0 then Some (InvalidObject horizon_kind (hz_name r) allErrs) else None)"

definition ValidateUpdate :: "topo_check \<Rightarrow> horizon \<Rightarrow> api_object \<Rightarrow> gerr option" where
  "ValidateUpdate vref r old =
     (let allErrs = [] @ ValidateTopology vref (hz_spec r) ''spec'' (hz_namespace r)
      in if length allErrs \<noteq> 0 then Some (InvalidObject horizon_kind (hz_name r) allErrs) else None)"

definition ValidateDelete :: "horizon \<Rightarrow> gerr option" where
  "ValidateDelete r = None"

section \<open>The handlers\<close>

definition ErrInvalidObjectType :: gerr where
  "ErrInvalidObjectType = StaticErr ''invalid object type''"

text \<open>The name \<open>%T\<close> prints for an object that is not a Horizon.\<close>

fun type_name :: "api_object \<Rightarrow> string" where
  "type_name (HorizonObj _) = ''*v1beta1.Horizon''"
| "type_name (OtherObj n) = n"

definition custom_Default :: "horizon_defaults \<Rightarrow> api_object \<Rightarrow> gerr + api_object" where
  "custom_Default d obj = (case as_horizon obj of
     None \<Rightarrow> Inl (Wrapped ''expected an Horizon object but got %T: %w'' [type_name obj] ErrInvalidObjectType)
   | Some h \<Rightarrow> Inr (HorizonObj (Default d h)))"

definition custom_ValidateCreate :: "topo_check \<Rightarrow> api_object \<Rightarrow> gerr option" where
  "custom_ValidateCreate vref obj = (case as_horizon obj of
     None \<Rightarrow> Some (Wrapped ''expected a Horizon object but got %T: %w'' [type_name obj] ErrInvalidObjectType)
   | Some h \<Rightarrow> ValidateCreate vref h)"

definition custom_ValidateUpdate :: "topo_check \<Rightarrow> api_object \<Rightarrow> api_object \<Rightarrow> gerr option" where
  "custom_ValidateUpdate vref oldObj newObj = (case as_horizon newObj of
     None \<Rightarrow> Some (Wrapped ''expected a Horizon object for the newObj but got %T: %w''
       [type_name newObj] ErrInvalidObjectType)
   | Some h \<Rightarrow> ValidateUpdate vref h oldObj)"

definition custom_ValidateDelete :: "api_object \<Rightarrow> gerr option" where
  "custom_ValidateDelete obj = (case as_horizon obj of
     None \<Rightarrow> Some (Wrapped ''expected a Horizon object but got %T: %w'' [type_name obj] ErrInvalidObjectType)
   | Some h \<Rightarrow> ValidateDelete h)"

section \<open>What a validating handler guarantees\<close>

text \<open>
  The contract both validating operations give the API server: on a Horizon they object
  exactly when the topology reference of its spec is invalid in its namespace, and on
  anything else with the invalid-type error.
\<close>

locale topology_guard =
  fixes validate :: "topo_check \<Rightarrow> api_object \<Rightarrow> gerr option"
  assumes on_horizon: "validate v (HorizonObj h) =
      (case v (sp_topologyRef (hz_spec h)) ''spec.topologyRef'' (hz_namespace h) of
         [] \<Rightarrow> None
       | e # es \<Rightarrow> Some (InvalidObject horizon_kind (hz_name h) (e # es)))"
    and on_other: "\<exists>e. validate v (OtherObj n) = Some e \<and> errors_is e ErrInvalidObjectType"
begin

lemma accepts_iff:
  "validate v obj = None \<longleftrightarrow>
     (\<exists>h. obj = HorizonObj h \<and> v (sp_topologyRef (hz_spec h)) ''spec.topologyRef'' (hz_namespace h) = [])"
  using on_other by (cases obj) (auto simp: on_horizon split: list.splits)

lemma after_default:
  assumes "custom_Default d obj = Inr obj'"
  shows "validate v obj' = validate v obj"
  using assms
  by (cases obj)
    (auto simp: custom_Default_def on_horizon Default_def spec_Default_def core_Default_def
      split: list.split)

lemma rejects_foreign:
  assumes "\<And>x y. v (Some r) x y \<noteq> []" and "sp_topologyRef (hz_spec h) = Some r"
  shows "\<exists>es. es \<noteq> [] \<and> validate v (HorizonObj h) = Some (InvalidObject horizon_kind (hz_name h) es)"
  using assms by (auto simp: on_horizon split: list.splits)

end

interpretation create: topology_guard "custom_ValidateCreate"
  by unfold_locales
    (auto simp: custom_ValidateCreate_def ValidateCreate_def ValidateTopology_def Let_def split: list.splits)

interpretation update: topology_guard "\<lambda>v obj. custom_ValidateUpdate v oldObj obj" for oldObj
  by unfold_locales
    (auto simp: custom_ValidateUpdate_def ValidateUpdate_def ValidateTopology_def Let_def split: list.splits)

section \<open>Defaulting\<close>

lemma spec_Default_idem: "spec_Default d (spec_Default d sp) = spec_Default d sp"
  by (auto simp: spec_Default_def core_Default_def)

lemma Default_idem: "Default d (Default d h) = Default d h"
  by (simp add: Default_def spec_Default_idem)

lemma Default_only_image: "hz_spec (Default d h) = (hz_spec h)\<lparr>sp_containerImage := sp_containerImage (hz_spec (Default d h))\<rparr>"
  by (simp add: Default_def spec_Default_def core_Default_def)

lemma Default_image:
  "sp_containerImage (hz_spec (Default d h)) =
     (if sp_containerImage (hz_spec h) = '''' then hd_containerImageURL d else sp_containerImage (hz_spec h))"
  by (simp add: Default_def spec_Default_def core_Default_def)

end
