(* ===== verification/Api_Registration.thy ===== *)
theory Api_Registration
  imports Horizon_Webhook
begin

text \<open>
  What the packages of the API register: the group and its types with the scheme
  (groupversion_info.go, init of horizon_types.go), and the admission handlers with the manager
  (SetupHorizonWebhookWithManager of internal/webhook/v1beta1). The two builders of
  controller-runtime are parameters; what a manager does with the handlers is stated as a law.
\<close>

section \<open>The API group\<close>

record group_version =
  gv_Group :: string
  gv_Version :: string

definition GroupVersion :: group_version where
  "GroupVersion = \<lparr>gv_Group = ''horizon.openstack.org'', gv_Version = ''v1beta1''\<rparr>"

text \<open>The types of the package that implement runtime.Object.\<close>

datatype api_type = HorizonType | HorizonListType

record ('b, 's) builder_lib =
  bl_Builder :: "group_version \<Rightarrow> 'b"
  bl_Register :: "api_type list \<Rightarrow> 'b \<Rightarrow> 'b"
  bl_AddToScheme :: "'b \<Rightarrow> 's \<Rightarrow> gerr option \<times> 's"

definition SchemeBuilder :: "('b, 's) builder_lib \<Rightarrow> 'b" where
  "SchemeBuilder B = bl_Builder B GroupVersion"

definition init_types_of_group :: "('b, 's) builder_lib \<Rightarrow> 'b \<Rightarrow> 'b" where
  "init_types_of_group B b = bl_Register B [HorizonType, HorizonListType] b"

text \<open>
  AddToScheme is the method of the shared builder, taken before init registers the types; the
  builder is a pointer, so a call after init adds them.
\<close>

definition AddToScheme :: "('b, 's) builder_lib \<Rightarrow> 's \<Rightarrow> gerr option \<times> 's" where
  "AddToScheme B s = bl_AddToScheme B (init_types_of_group B (SchemeBuilder B)) s"

section \<open>The webhooks\<close>

record validator =
  va_ValidateCreate :: "topo_check \<Rightarrow> api_object \<Rightarrow> gerr option"
  va_ValidateUpdate :: "topo_check \<Rightarrow> api_object \<Rightarrow> api_object \<Rightarrow> gerr option"
  va_ValidateDelete :: "api_object \<Rightarrow> gerr option"

definition HorizonCustomValidator :: validator where
  "HorizonCustomValidator = \<lparr>va_ValidateCreate = custom_ValidateCreate,
     va_ValidateUpdate = custom_ValidateUpdate, va_ValidateDelete = custom_ValidateDelete\<rparr>"

definition HorizonCustomDefaulter :: "horizon_defaults \<Rightarrow> api_object \<Rightarrow> gerr + api_object" where
  "HorizonCustomDefaulter = custom_Default"

record ('m, 'b) webhook_lib =
  wl_NewWebhookManagedBy :: "'m \<Rightarrow> 'b"
  wl_For :: "api_type \<Rightarrow> 'b \<Rightarrow> 'b"
  wl_WithValidator :: "validator \<Rightarrow> 'b \<Rightarrow> 'b"
  wl_WithDefaulter :: "(horizon_defaults \<Rightarrow> api_object \<Rightarrow> gerr + api_object) \<Rightarrow> 'b \<Rightarrow> 'b"
  wl_Complete :: "'b \<Rightarrow> gerr option \<times> 'm"

definition SetupHorizonWebhookWithManager :: "('m, 'b) webhook_lib \<Rightarrow> 'm \<Rightarrow> gerr option \<times> 'm" where
  "SetupHorizonWebhookWithManager W mgr =
     wl_Complete W (wl_WithDefaulter W HorizonCustomDefaulter (wl_WithValidator W HorizonCustomValidator
       (wl_For W HorizonType (wl_NewWebhookManagedBy W mgr))))"

section \<open>What the API server stores\<close>

text \<open>
  A request to create or update an object is first defaulted and then validated by the handlers
  the manager serves; what passes both is stored.
\<close>

datatype request = Create api_object | Update api_object api_object

record handlers =
  hd_type :: "api_type option"
  hd_defaulter :: "(horizon_defaults \<Rightarrow> api_object \<Rightarrow> gerr + api_object) option"
  hd_validator :: "validator option"

fun validate_request :: "validator \<Rightarrow> topo_check \<Rightarrow> request \<Rightarrow> api_object \<Rightarrow> gerr option" where
  "validate_request V v (Create obj) obj' = va_ValidateCreate V v obj'"
| "validate_request V v (Update old obj) obj' = va_ValidateUpdate V v old obj'"

fun requested :: "request \<Rightarrow> api_object" where
  "requested (Create obj) = obj"
| "requested (Update old obj) = obj"

definition admit :: "handlers \<Rightarrow> horizon_defaults \<Rightarrow> topo_check \<Rightarrow> request \<Rightarrow> gerr + api_object" where
  "admit H d v r =
     (case (case hd_defaulter H of None \<Rightarrow> Inr (requested r) | Some f \<Rightarrow> f d (requested r)) of
        Inl err \<Rightarrow> Inl err
      | Inr obj \<Rightarrow> (case hd_validator H of None \<Rightarrow> Inr obj
         | Some V \<Rightarrow> (case validate_request V v r obj of None \<Rightarrow> Inr obj | Some err \<Rightarrow> Inl err)))"

text \<open>A completed builder makes the manager serve what it was given; \<open>served\<close> reads it off.\<close>

definition webhook_law :: "('m, 'b) webhook_lib \<Rightarrow> ('m \<Rightarrow> handlers) \<Rightarrow> bool" where
  "webhook_law W served \<longleftrightarrow> (\<forall>mgr t V f mgr'.
     wl_Complete W (wl_WithDefaulter W f (wl_WithValidator W V (wl_For W t (wl_NewWebhookManagedBy W mgr)))) = (None, mgr') \<longrightarrow>
     served mgr' = \<lparr>hd_type = Some t, hd_defaulter = Some f, hd_validator = Some V\<rparr>)"

text \<open>
  Once the webhooks are set up, a request is admitted exactly when it carries a Horizon with a
  valid topology reference, and what is stored has a container image, if there is a default one.
\<close>

lemma webhooks_admit:
  assumes "SetupHorizonWebhookWithManager W mgr = (None, mgr')" and "webhook_law W served"
  shows "admit (served mgr') d v r = Inr obj \<longleftrightarrow>
    (\<exists>h. requested r = HorizonObj h \<and> obj = HorizonObj (Default d h) \<and>
       v (sp_topologyRef (hz_spec h)) ''spec.topologyRef'' (hz_namespace h) = [])"
proof -
  have served: "served mgr' = \<lparr>hd_type = Some HorizonType, hd_defaulter = Some custom_Default,
      hd_validator = Some HorizonCustomValidator\<rparr>"
    using assms unfolding webhook_law_def SetupHorizonWebhookWithManager_def HorizonCustomDefaulter_def by blast
  have keeps: "sp_topologyRef (hz_spec (Default d h)) = sp_topologyRef (hz_spec h)" "hz_namespace (Default d h) = hz_namespace h" for h
    by (simp_all add: Default_def spec_Default_def core_Default_def)
  have verdict: "custom_ValidateCreate v (HorizonObj (Default d h)) = None \<longleftrightarrow>
      v (sp_topologyRef (hz_spec h)) ''spec.topologyRef'' (hz_namespace h) = []"
    "custom_ValidateUpdate v old (HorizonObj (Default d h)) = None \<longleftrightarrow>
      v (sp_topologyRef (hz_spec h)) ''spec.topologyRef'' (hz_namespace h) = []" for h old
    by (simp_all add: create.accepts_iff update.accepts_iff keeps)
  have "admit (served mgr') d v r = Inr obj \<longleftrightarrow> (\<exists>h. requested r = HorizonObj h \<and> obj = HorizonObj (Default d h) \<and>
      validate_request HorizonCustomValidator v r obj = None)"
    by (cases "requested r") (auto simp: admit_def served custom_Default_def split: option.splits)
  also have "\<dots> \<longleftrightarrow> (\<exists>h. requested r = HorizonObj h \<and> obj = HorizonObj (Default d h) \<and>
      v (sp_topologyRef (hz_spec h)) ''spec.topologyRef'' (hz_namespace h) = [])"
    by (cases r) (auto simp: HorizonCustomValidator_def verdict)
  finally show ?thesis .
qed

lemma admitted_image:
  assumes "SetupHorizonWebhookWithManager W mgr = (None, mgr')" and "webhook_law W served"
    and "admit (served mgr') d v r = Inr obj" and "hd_containerImageURL d \<noteq> ''''"
  shows "\<exists>h. obj = HorizonObj h \<and> sp_containerImage (hz_spec h) \<noteq> ''''"
  using assms(3,4) unfolding webhooks_admit[OF assms(1,2)] by (auto simp: Default_image)

text \<open>A manager that keeps the handlers it is given.\<close>

definition plain_webhooks :: "(handlers, handlers) webhook_lib" where
  "plain_webhooks =
     \<lparr>wl_NewWebhookManagedBy = (\<lambda>mgr. mgr\<lparr>hd_type := None, hd_defaulter := None, hd_validator := None\<rparr>),
      wl_For = (\<lambda>t b. b\<lparr>hd_type := Some t\<rparr>), wl_WithValidator = (\<lambda>V b. b\<lparr>hd_validator := Some V\<rparr>),
      wl_WithDefaulter = (\<lambda>f b. b\<lparr>hd_defaulter := Some f\<rparr>), wl_Complete = (\<lambda>b. (None, b))\<rparr>"

lemma plain_webhook_law: "webhook_law plain_webhooks id"
  by (simp add: webhook_law_def plain_webhooks_def)

end
