(* ===== verification/Horizon_Client.thy ===== *)
theory Horizon_Client
  imports Horizon_Types
begin

text \<open>
  What other operators use of this one (api/v1beta1/horizon.go): the watch predicate that
  lets a change of the dashboard endpoint through, and the lookup of the only Horizon of a
  namespace. The List call of the Kubernetes client is a parameter.
\<close>

section \<open>HorizonEndpointChangedPredicate\<close>

record update_event =
  ue_old :: "api_object option"
  ue_new :: "api_object option"

definition endpoint_UpdateFunc :: "update_event \<Rightarrow> bool" where
  "endpoint_UpdateFunc e =
     (if ue_old e = None \<or> ue_new e = None then False
      else case (as_horizon (the (ue_old e)), as_horizon (the (ue_new e))) of
        (Some oldPod, Some newPod) \<Rightarrow>
          \<not> (st_endpoint (hz_status oldPod) = st_endpoint (hz_status newPod))
      | _ \<Rightarrow> False)"

definition endpoint_DeleteFunc :: "api_object option \<Rightarrow> bool" where
  "endpoint_DeleteFunc e = True"

section \<open>GetHorizon\<close>

type_synonym 'w lister = "string \<Rightarrow> 'w \<Rightarrow> (gerr + horizon list) \<times> 'w"

definition GetHorizon :: "'w lister \<Rightarrow> string \<Rightarrow> 'w \<Rightarrow> (gerr + horizon) \<times> 'w" where
  "GetHorizon lst namespace w = (case lst namespace w of
     (Inl err, w') \<Rightarrow> (Inl err, w')
   | (Inr items, w') \<Rightarrow>
       if length items > 1
       then (Inl (Errorf ''More then one Horizon object found in namespace %s'' [namespace]), w')
       else (case items of
               [] \<Rightarrow> (Inl (NotFound (''No Horizon object found in namespace '' @ namespace)), w')
             | h # _ \<Rightarrow> (Inr h, w')))"

text \<open>The three outcomes of a lookup, by what the namespace holds.\<close>

lemma GetHorizon_cases:
  assumes "lst ns w = (Inr items, w')"
  shows "items = [] \<Longrightarrow> \<exists>m. GetHorizon lst ns w = (Inl (NotFound m), w')"
    and "items = [h] \<Longrightarrow> GetHorizon lst ns w = (Inr h, w')"
    and "length items > 1 \<Longrightarrow> \<exists>e. GetHorizon lst ns w = (Inl e, w') \<and> \<not> is_not_found e"
  using assms by (auto simp: GetHorizon_def)

lemma GetHorizon_world: "snd (GetHorizon lst ns w) = snd (lst ns w)"
  by (auto simp: GetHorizon_def split: prod.splits sum.splits list.splits)

lemma endpoint_UpdateFunc_horizon:
  "endpoint_UpdateFunc \<lparr>ue_old = Some (HorizonObj a), ue_new = Some (HorizonObj b)\<rparr> \<longleftrightarrow>
     st_endpoint (hz_status a) \<noteq> st_endpoint (hz_status b)"
  by (simp add: endpoint_UpdateFunc_def)

lemma endpoint_UpdateFunc_other:
  assumes "\<And>h. ue_old e \<noteq> Some (HorizonObj h)"
  shows "\<not> endpoint_UpdateFunc e"
proof (cases "ue_old e")
  case None
  then show ?thesis by (simp add: endpoint_UpdateFunc_def)
next
  case (Some x)
  with assms show ?thesis by (cases x) (auto simp: endpoint_UpdateFunc_def)
qed

end
