(* ===== verification/Horizon_Volumes.thy ===== *)
theory Horizon_Volumes
  imports Horizon_Types
begin

text \<open>
  The constants of internal/horizon/const.go, the security context of funcs.go, and the
  volumes and mounts of the Horizon pod (volumes.go). An extra volume whose
  ToCoreVolumeSource returns a nil pointer is dereferenced by getVolumes; the model's
  result is then None, which the caller turns into a panic.
\<close>

section \<open>Constants\<close>

definition ServiceName :: string where "ServiceName = ''horizon''"
definition HorizonSvcPort :: int where "HorizonSvcPort = 80"
definition HorizonPort :: int where "HorizonPort = 8080"
definition HorizonSvcPortTLS :: int where "HorizonSvcPortTLS = 443"
definition HorizonPortTLS :: int where "HorizonPortTLS = 8443"
definition ApacheUID :: int where "ApacheUID = 48"
definition KollaUID :: int where "KollaUID = 42400"
definition LogFile :: string where "LogFile = ''/var/log/horizon/horizon.log''"
definition logVolume :: string where "logVolume = ''logs''"
definition HorizonPropagation :: "string list" where "HorizonPropagation = [''Horizon'']"

record security_context =
  sc_drop :: "string list"
  sc_runAsUser :: int
  sc_runAsGroup :: int
  sc_allowPrivilegeEscalation :: bool

definition HttpdSecurityContext :: security_context where
  "HttpdSecurityContext = \<lparr>sc_drop = [''MKNOD''], sc_runAsUser = ApacheUID,
     sc_runAsGroup = KollaUID, sc_allowPrivilegeEscalation = True\<rparr>"

section \<open>Volumes\<close>

text \<open>The octal access modes 0640, 0600 and 0755.\<close>

definition config0640AccessMode :: int where "config0640AccessMode = 6 * 64 + 4 * 8"
definition config0600AccessMode :: int where "config0600AccessMode = 6 * 64"
definition scriptsVolumeDefaultMode :: int where "scriptsVolumeDefaultMode = 7 * 64 + 5 * 8 + 5"

definition getScriptVolume :: volume where
  "getScriptVolume = \<lparr>vol_name = ''scripts'',
     vol_source = ConfigMapSource scriptsVolumeDefaultMode (ServiceName @ ''-scripts'')\<rparr>"

definition GetLogVolume :: volume where
  "GetLogVolume = \<lparr>vol_name = logVolume, vol_source = EmptyDirSource ''''\<rparr>"

text \<open>The innermost loop of getVolumes, then the two loops around it.\<close>

fun add_volumes :: "storage_volume list \<Rightarrow> volume list \<Rightarrow> volume list option" where
  "add_volumes [] res = Some res"
| "add_volumes (v # vs) res = (case sv_core_source v of
     None \<Rightarrow> None
   | Some src \<Rightarrow> add_volumes vs (res @ [\<lparr>vol_name = sv_name v, vol_source = src\<rparr>]))"

fun add_mounts_volumes :: "vol_mounts list \<Rightarrow> volume list \<Rightarrow> volume list option" where
  "add_mounts_volumes [] res = Some res"
| "add_mounts_volumes (vol # vols) res = (case add_volumes (vs_volumes vol) res of
     None \<Rightarrow> None
   | Some res' \<Rightarrow> add_mounts_volumes vols res')"

type_synonym propagation = "vol_mounts \<Rightarrow> string list \<Rightarrow> vol_mounts list"

fun add_extra_volumes ::
  "propagation \<Rightarrow> string list \<Rightarrow> extra_vol_mounts list \<Rightarrow> volume list \<Rightarrow> volume list option" where
  "add_extra_volumes prop svc [] res = Some res"
| "add_extra_volumes prop svc (exv # exvs) res =
     (case add_mounts_volumes (Propagate prop exv svc) res of
        None \<Rightarrow> None
      | Some res' \<Rightarrow> add_extra_volumes prop svc exvs res')"

definition base_volumes :: "string \<Rightarrow> volume list" where
  "base_volumes nm =
     [\<lparr>vol_name = ''config-data'',
       vol_source = ConfigMapSource config0640AccessMode (nm @ ''-config-data'')\<rparr>,
      \<lparr>vol_name = ''horizon-secret-key'',
       vol_source = SecretSource config0600AccessMode ServiceName\<rparr>]"

definition getVolumes ::
  "propagation \<Rightarrow> string \<Rightarrow> extra_vol_mounts list \<Rightarrow> string list \<Rightarrow> volume list option" where
  "getVolumes prop nm extraVol svc =
     (let res = base_volumes nm @ [getScriptVolume]
      in add_extra_volumes prop svc extraVol res)"

section \<open>Mounts\<close>

definition getScriptVolumeMount :: "volume_mount list" where
  "getScriptVolumeMount =
     [\<lparr>vm_name = ''scripts'', vm_mountPath = ''/usr/local/bin/container-scripts'',
       vm_readOnly = True, vm_subPath = ''''\<rparr>,
      \<lparr>vm_name = ''scripts'', vm_mountPath = ''/usr/local/bin/kolla_theme_setup'',
       vm_readOnly = True, vm_subPath = ''kolla_theme_setup''\<rparr>]"

definition GetLogVolumeMount :: volume_mount where
  "GetLogVolumeMount = \<lparr>vm_name = logVolume, vm_mountPath = ''/var/log/horizon'',
     vm_readOnly = False, vm_subPath = ''''\<rparr>"

definition base_mounts :: "volume_mount list" where
  "base_mounts =
     [\<lparr>vm_name = ''config-data'', vm_mountPath = ''/var/lib/config-data/default/'',
       vm_readOnly = False, vm_subPath = ''''\<rparr>,
      \<lparr>vm_name = ''config-data'', vm_mountPath = ''/var/lib/kolla/config_files/config.json'',
       vm_readOnly = True, vm_subPath = ''horizon.json''\<rparr>,
      \<lparr>vm_name = ''horizon-secret-key'', vm_mountPath = ''/run/openstack-dashboard/.secrets'',
       vm_readOnly = True, vm_subPath = ''''\<rparr>]"

fun add_mounts :: "vol_mounts list \<Rightarrow> volume_mount list \<Rightarrow> volume_mount list" where
  "add_mounts [] vm = vm"
| "add_mounts (vol # vols) vm = add_mounts vols (vm @ vs_mounts vol)"

fun add_extra_mounts ::
  "propagation \<Rightarrow> string list \<Rightarrow> extra_vol_mounts list \<Rightarrow> volume_mount list \<Rightarrow> volume_mount list" where
  "add_extra_mounts prop svc [] vm = vm"
| "add_extra_mounts prop svc (exv # exvs) vm =
     add_extra_mounts prop svc exvs (add_mounts (Propagate prop exv svc) vm)"

definition getVolumeMounts ::
  "propagation \<Rightarrow> extra_vol_mounts list \<Rightarrow> string list \<Rightarrow> volume_mount list" where
  "getVolumeMounts prop extraVol svc =
     (let vm = base_mounts @ getScriptVolumeMount in add_extra_mounts prop svc extraVol vm)"

section \<open>What the loops compute\<close>

text \<open>The VolMounts that reach the pod, in order.\<close>

definition propagated :: "propagation \<Rightarrow> extra_vol_mounts list \<Rightarrow> string list \<Rightarrow> vol_mounts list" where
  "propagated prop exvs svc = concat (map (\<lambda>exv. Propagate prop exv svc) exvs)"

definition extra_volumes :: "vol_mounts list \<Rightarrow> storage_volume list" where
  "extra_volumes vms = concat (map vs_volumes vms)"

definition core_volume :: "storage_volume \<Rightarrow> volume" where
  "core_volume v = \<lparr>vol_name = sv_name v, vol_source = the (sv_core_source v)\<rparr>"

definition sources_present :: "storage_volume list \<Rightarrow> bool" where
  "sources_present vs \<longleftrightarrow> (\<forall>v \<in> set vs. sv_core_source v \<noteq> None)"

lemma add_volumes_spec:
  "add_volumes vs res = (if sources_present vs then Some (res @ map core_volume vs) else None)"
  by (induction vs arbitrary: res)
    (auto simp: sources_present_def core_volume_def split: option.splits)

lemma add_mounts_volumes_spec:
  "add_mounts_volumes vms res =
     (if sources_present (extra_volumes vms)
      then Some (res @ map core_volume (extra_volumes vms)) else None)"
  by (induction vms arbitrary: res)
    (auto simp: add_volumes_spec extra_volumes_def sources_present_def split: option.splits)

lemma propagated_Cons [simp]:
  "propagated prop (exv # exvs) svc = Propagate prop exv svc @ propagated prop exvs svc"
  by (simp add: propagated_def)

lemma propagated_Nil [simp]: "propagated prop [] svc = []"
  by (simp add: propagated_def)

lemma extra_volumes_append [simp]: "extra_volumes (a @ b) = extra_volumes a @ extra_volumes b"
  by (simp add: extra_volumes_def)

lemma extra_volumes_Nil [simp]: "extra_volumes [] = []"
  by (simp add: extra_volumes_def)

lemma sources_present_append [simp]:
  "sources_present (a @ b) \<longleftrightarrow> sources_present a \<and> sources_present b"
  by (auto simp: sources_present_def)

lemma sources_present_Nil [simp]: "sources_present []"
  by (simp add: sources_present_def)

lemma add_extra_volumes_spec:
  "add_extra_volumes prop svc exvs res =
     (if sources_present (extra_volumes (propagated prop exvs svc))
      then Some (res @ map core_volume (extra_volumes (propagated prop exvs svc))) else None)"
  by (induction exvs arbitrary: res) (auto simp: add_mounts_volumes_spec)

lemma getVolumes_spec:
  "getVolumes prop nm exvs svc =
     (if sources_present (extra_volumes (propagated prop exvs svc))
      then Some (base_volumes nm @ [getScriptVolume]
             @ map core_volume (extra_volumes (propagated prop exvs svc)))
      else None)"
  by (simp add: getVolumes_def add_extra_volumes_spec)

lemma add_mounts_spec: "add_mounts vms vm = vm @ concat (map vs_mounts vms)"
  by (induction vms arbitrary: vm) auto

lemma getVolumeMounts_spec:
  "getVolumeMounts prop exvs svc =
     base_mounts @ getScriptVolumeMount @ concat (map vs_mounts (propagated prop exvs svc))"
proof -
  have "add_extra_mounts prop svc exvs vm = vm @ concat (map vs_mounts (propagated prop exvs svc))"
    for vm
    by (induction exvs arbitrary: vm) (auto simp: add_mounts_spec)
  then show ?thesis by (simp add: getVolumeMounts_def)
qed

section \<open>Every mount has its volume\<close>

text \<open>
  Kubernetes refuses a pod with a mount that names no volume. \<open>closed_mounts vols ms\<close> is
  that requirement; an extra VolMounts meets it by itself when \<open>closed_vol_mounts\<close> holds.
\<close>

definition closed_mounts :: "volume list \<Rightarrow> volume_mount list \<Rightarrow> bool" where
  "closed_mounts vols ms \<longleftrightarrow> (\<forall>m \<in> set ms. vm_name m \<in> vol_name ` set vols)"

definition closed_vol_mounts :: "vol_mounts \<Rightarrow> bool" where
  "closed_vol_mounts vm \<longleftrightarrow>
     (\<forall>m \<in> set (vs_mounts vm). vm_name m \<in> sv_name ` set (vs_volumes vm))"

lemma closed_mounts_append:
  "closed_mounts v1 m1 \<Longrightarrow> closed_mounts v2 m2 \<Longrightarrow> closed_mounts (v1 @ v2) (m1 @ m2)"
  by (auto simp: closed_mounts_def)

lemma closed_mounts_more: "closed_mounts vols ms \<Longrightarrow> set vols \<subseteq> set vols' \<Longrightarrow> closed_mounts vols' ms"
  unfolding closed_mounts_def by blast

lemma vol_name_core_volume [simp]: "vol_name (core_volume v) = sv_name v"
  by (simp add: core_volume_def)

lemma closed_extra:
  assumes "\<forall>vm \<in> set vms. closed_vol_mounts vm"
  shows "closed_mounts (map core_volume (extra_volumes vms)) (concat (map vs_mounts vms))"
  using assms
proof (induction vms)
  case Nil
  then show ?case by (simp add: closed_mounts_def)
next
  case (Cons vm vms)
  have "closed_mounts (map core_volume (vs_volumes vm)) (vs_mounts vm)"
    using Cons.prems by (auto simp: closed_mounts_def closed_vol_mounts_def image_image)
  moreover have "closed_mounts (map core_volume (extra_volumes vms)) (concat (map vs_mounts vms))"
    using Cons by simp
  ultimately show ?case
    by (auto simp: extra_volumes_def dest: closed_mounts_append)
qed

lemma closed_base: "closed_mounts (base_volumes nm @ [getScriptVolume]) (base_mounts @ getScriptVolumeMount)"
  by (simp add: closed_mounts_def base_volumes_def getScriptVolume_def base_mounts_def getScriptVolumeMount_def)

lemma closed_getVolumes:
  assumes "getVolumes prop nm exvs svc = Some vols"
    and "\<forall>vm \<in> set (propagated prop exvs svc). closed_vol_mounts vm"
  shows "closed_mounts vols (getVolumeMounts prop exvs svc)"
  using closed_mounts_append[OF closed_base closed_extra[OF assms(2)]] assms(1)
  by (auto simp: getVolumes_spec getVolumeMounts_spec split: if_splits)

end
