(* ===== verification/Horizon_Deployment.thy ===== *)
theory Horizon_Deployment
  imports Horizon_Volumes
begin

text \<open>
  The Deployment the operator creates (internal/horizon/deployment.go): probes, environment,
  TLS options, and the assembly of the pod template. What other packages contribute (the TLS
  structs, the Memcached object, the environment merge, affinity) is the record \<open>pod_lib\<close> and
  the method results carried by \<open>memcached\<close> and \<open>tls_service\<close>; a Topology object is what its
  ApplyTo does to a pod template.
\<close>

section \<open>Pod data\<close>

datatype uri_scheme = SchemeUnset | SchemeHTTPS

record http_get =
  hg_path :: string
  hg_port :: string
  hg_scheme :: uri_scheme

record probe =
  pr_timeoutSeconds :: int
  pr_periodSeconds :: int
  pr_initialDelaySeconds :: int
  pr_failureThreshold :: int
  pr_httpGet :: http_get

record container_port =
  cp_name :: string
  cp_containerPort :: int

record container =
  ct_name :: string
  ct_command :: "string list"
  ct_args :: "string list"
  ct_image :: string
  ct_securityContext :: security_context
  ct_env :: "(string \<times> string) list"
  ct_volumeMounts :: "volume_mount list"
  ct_resources :: resources
  ct_readinessProbe :: "probe option"
  ct_livenessProbe :: "probe option"
  ct_startupProbe :: "probe option"
  ct_ports :: "container_port list"

text \<open>Affinity and topology spread constraints are opaque to the operator.\<close>

record pod_template =
  pt_annotations :: smap
  pt_labels :: smap
  pt_serviceAccountName :: string
  pt_containers :: "container list"
  pt_volumes :: "volume list"
  pt_nodeSelector :: "smap option"
  pt_affinity :: "string option"
  pt_topologySpreadConstraints :: "string list"

record deployment =
  dp_name :: string
  dp_namespace :: string
  dp_matchLabels :: smap
  dp_replicas :: "int option"
  dp_template :: pod_template

section \<open>Other packages\<close>

text \<open>A tls.Service, by its CreateVolume and CreateVolumeMounts methods.\<close>

record tls_service =
  ts_CreateVolume :: "string \<Rightarrow> volume"
  ts_CreateVolumeMounts :: "string \<Rightarrow> volume_mount list"

text \<open>A Memcached object, by the results of the methods the operator calls.\<close>

record memcached =
  mc_name :: string
  mc_IsReady :: bool
  mc_serverListQuoted :: string
  mc_TLSSupport :: bool
  mc_MTLSSecret :: string
  mc_MTLSVolume :: volume
  mc_MTLSVolumeMounts :: "volume_mount list"

type_synonym topology = "pod_template \<Rightarrow> pod_template"

record pod_lib =
  pl_Propagate :: propagation
  pl_tlsEnabled :: "tls_spec \<Rightarrow> bool"
  pl_tlsToService :: "tls_spec \<Rightarrow> gerr + tls_service"
  pl_caCreateVolume :: "tls_spec \<Rightarrow> volume"
  pl_caCreateVolumeMounts :: "tls_spec \<Rightarrow> volume_mount list"
  pl_MergeEnvs :: "smap \<Rightarrow> (string \<times> string) list"
  pl_DistributePods :: "string \<Rightarrow> string list \<Rightarrow> string \<Rightarrow> string"
  pl_AppSelector :: string
  pl_LabelHostname :: string

section \<open>Constants and small builders\<close>

definition ServiceCommand :: string where
  "ServiceCommand = ''/usr/local/bin/kolla_theme_setup && /usr/local/bin/kolla_start''"

definition horizonDashboardURL :: string where
  "horizonDashboardURL = ''/dashboard/auth/login/?next=/dashboard/''"

definition horizonContainerPortName :: string where
  "horizonContainerPortName = ''horizon''"

text \<open>Indexing a Go map: the zero string for a missing key.\<close>

definition map_get :: "smap \<Rightarrow> string \<Rightarrow> string" where
  "map_get m k = (case m k of None \<Rightarrow> '''' | Some v \<Rightarrow> v)"

definition getEnvVars :: "string \<Rightarrow> smap \<Rightarrow> smap" where
  "getEnvVars configHash enabledServices =
     Map.empty(''KOLLA_CONFIG_STRATEGY'' \<mapsto> ''COPY_ALWAYS'',
       ''ENABLE_DESIGNATE'' \<mapsto> ''yes'',
       ''ENABLE_HEAT'' \<mapsto> ''yes'',
       ''ENABLE_IRONIC'' \<mapsto> ''yes'',
       ''ENABLE_MANILA'' \<mapsto> ''yes'',
       ''ENABLE_OCTAVIA'' \<mapsto> ''yes'',
       ''ENABLE_CLOUDKITTY'' \<mapsto> map_get enabledServices ''cloudkitty'',
       ''ENABLE_WATCHER'' \<mapsto> map_get enabledServices ''watcher'',
       ''CONFIG_HASH'' \<mapsto> configHash,
       ''UNPACK_THEME'' \<mapsto> ''true'')"

definition dashboard_get :: http_get where
  "dashboard_get = \<lparr>hg_path = horizonDashboardURL, hg_port = horizonContainerPortName,
     hg_scheme = SchemeUnset\<rparr>"

definition formatProbes :: probe where
  "formatProbes = \<lparr>pr_timeoutSeconds = 5, pr_periodSeconds = 10, pr_initialDelaySeconds = 10,
     pr_failureThreshold = 0, pr_httpGet = dashboard_get\<rparr>"

definition formatStartupProbe :: probe where
  "formatStartupProbe = \<lparr>pr_timeoutSeconds = 5, pr_periodSeconds = 10,
     pr_initialDelaySeconds = 0, pr_failureThreshold = 12, pr_httpGet = dashboard_get\<rparr>"

section \<open>TLS options\<close>

text \<open>
  TLSRequiredOptions holds pointers to the port and the probes. They are allocated one by one
  by the only caller and never shared, so the record passes their targets by value.
\<close>

record tls_options =
  to_containerPort :: container_port
  to_livenessProbe :: probe
  to_readinessProbe :: probe
  to_startupProbe :: probe
  to_volumes :: "volume list"
  to_volumeMounts :: "volume_mount list"

definition https_probe :: "probe \<Rightarrow> probe" where
  "https_probe p = p\<lparr>pr_httpGet := (pr_httpGet p)\<lparr>hg_scheme := SchemeHTTPS\<rparr>\<rparr>"

definition formatTLSOptions :: "pod_lib \<Rightarrow> tls_options \<Rightarrow> horizon \<Rightarrow> gerr + tls_options" where
  "formatTLSOptions L t instance =
     (let tls = sp_tls (hz_spec instance) in
      case pl_tlsToService L tls of
        Inl err \<Rightarrow> Inl err
      | Inr svc \<Rightarrow>
          (let t1 = (if tls_caBundleSecretName tls \<noteq> ''''
                     then t\<lparr>to_volumes := to_volumes t @ [pl_caCreateVolume L tls],
                            to_volumeMounts := to_volumeMounts t @ pl_caCreateVolumeMounts L tls\<rparr>
                     else t);
               t2 = t1\<lparr>to_containerPort := (to_containerPort t1)\<lparr>cp_containerPort := HorizonPortTLS\<rparr>,
                       to_livenessProbe := https_probe (to_livenessProbe t1),
                       to_readinessProbe := https_probe (to_readinessProbe t1),
                       to_startupProbe := https_probe (to_startupProbe t1)\<rparr>
           in Inr (t2\<lparr>to_volumes := to_volumes t2 @ [ts_CreateVolume svc ServiceName],
                      to_volumeMounts := to_volumeMounts t2 @ ts_CreateVolumeMounts svc ServiceName\<rparr>)))"

section \<open>Deployment\<close>

definition log_container :: "pod_lib \<Rightarrow> horizon \<Rightarrow> smap \<Rightarrow> container" where
  "log_container L instance envVars =
     \<lparr>ct_name = hz_name instance @ ''-log'',
      ct_command = [''/bin/bash''],
      ct_args = [''-c'', ''tail -n+1 -F '' @ LogFile],
      ct_image = sp_containerImage (hz_spec instance),
      ct_securityContext = HttpdSecurityContext,
      ct_env = pl_MergeEnvs L envVars,
      ct_volumeMounts = [GetLogVolumeMount],
      ct_resources = sp_resources (hz_spec instance),
      ct_readinessProbe = None, ct_livenessProbe = None, ct_startupProbe = None,
      ct_ports = []\<rparr>"

definition horizon_container :: "pod_lib \<Rightarrow> horizon \<Rightarrow> smap \<Rightarrow> tls_options \<Rightarrow> container" where
  "horizon_container L instance envVars t =
     \<lparr>ct_name = ServiceName,
      ct_command = [''/bin/bash''],
      ct_args = [''-c'', ServiceCommand],
      ct_image = sp_containerImage (hz_spec instance),
      ct_securityContext = HttpdSecurityContext,
      ct_env = pl_MergeEnvs L envVars,
      ct_volumeMounts = to_volumeMounts t,
      ct_resources = sp_resources (hz_spec instance),
      ct_readinessProbe = Some (to_readinessProbe t),
      ct_livenessProbe = Some (to_livenessProbe t),
      ct_startupProbe = Some (to_startupProbe t),
      ct_ports = [to_containerPort t]\<rparr>"

text \<open>The options before TLS is considered; None is a nil dereference in getVolumes.\<close>

definition plain_options :: "pod_lib \<Rightarrow> horizon \<Rightarrow> tls_options option" where
  "plain_options L instance =
     (case getVolumes (pl_Propagate L) (hz_name instance)
             (sp_extraMounts (hz_spec instance)) HorizonPropagation of
        None \<Rightarrow> None
      | Some vols \<Rightarrow> Some
          \<lparr>to_containerPort = \<lparr>cp_name = horizonContainerPortName, cp_containerPort = HorizonPort\<rparr>,
           to_livenessProbe = formatProbes,
           to_readinessProbe = formatProbes,
           to_startupProbe = formatStartupProbe,
           to_volumes = vols @ [GetLogVolume],
           to_volumeMounts = getVolumeMounts (pl_Propagate L) (sp_extraMounts (hz_spec instance))
             HorizonPropagation @ [GetLogVolumeMount]\<rparr>)"

definition add_mtls :: "memcached \<Rightarrow> tls_options \<Rightarrow> tls_options" where
  "add_mtls mc t =
     (if mc_MTLSSecret mc \<noteq> ''''
      then t\<lparr>to_volumes := to_volumes t @ [mc_MTLSVolume mc],
             to_volumeMounts := to_volumeMounts t @ mc_MTLSVolumeMounts mc\<rparr>
      else t)"

definition place_pods :: "pod_lib \<Rightarrow> topology option \<Rightarrow> pod_template \<Rightarrow> pod_template" where
  "place_pods L tp pt = (case tp of
     Some applyTo \<Rightarrow> applyTo pt
   | None \<Rightarrow> pt\<lparr>pt_affinity :=
       Some (pl_DistributePods L (pl_AppSelector L) [ServiceName] (pl_LabelHostname L))\<rparr>)"

definition build_deployment ::
  "pod_lib \<Rightarrow> horizon \<Rightarrow> smap \<Rightarrow> smap \<Rightarrow> smap \<Rightarrow> topology option \<Rightarrow> tls_options \<Rightarrow> deployment" where
  "build_deployment L instance labels annotations envVars tp t =
     \<lparr>dp_name = ServiceName,
      dp_namespace = hz_namespace instance,
      dp_matchLabels = labels,
      dp_replicas = sp_replicas (hz_spec instance),
      dp_template = place_pods L tp
        \<lparr>pt_annotations = annotations,
         pt_labels = labels,
         pt_serviceAccountName = RbacResourceName instance,
         pt_containers = [log_container L instance envVars, horizon_container L instance envVars t],
         pt_volumes = to_volumes t,
         pt_nodeSelector = sp_nodeSelector (hz_spec instance),
         pt_affinity = None,
         pt_topologySpreadConstraints = []\<rparr>\<rparr>"

definition Deployment ::
  "pod_lib \<Rightarrow> horizon \<Rightarrow> string \<Rightarrow> smap \<Rightarrow> smap \<Rightarrow> smap \<Rightarrow> topology option \<Rightarrow> memcached
   \<Rightarrow> deployment outcome" where
  "Deployment L instance configHash labels annotations enabledServices tp mc =
     (let envVars = getEnvVars configHash enabledServices in
      case plain_options L instance of
        None \<Rightarrow> Crash ''nil pointer dereference''
      | Some t \<Rightarrow>
          (case (if pl_tlsEnabled L (sp_tls (hz_spec instance))
                 then formatTLSOptions L t instance else Inr t) of
             Inl err \<Rightarrow> Error err
           | Inr t' \<Rightarrow> Value (build_deployment L instance labels annotations envVars tp (add_mtls mc t'))))"

section \<open>What the parts contribute\<close>

lemma formatTLSOptions_spec:
  assumes "formatTLSOptions L t h = Inr t'"
  shows "cp_containerPort (to_containerPort t') = HorizonPortTLS"
    and "cp_name (to_containerPort t') = cp_name (to_containerPort t)"
    and "to_livenessProbe t' = https_probe (to_livenessProbe t)"
    and "to_readinessProbe t' = https_probe (to_readinessProbe t)"
    and "to_startupProbe t' = https_probe (to_startupProbe t)"
  using assms by (auto simp: formatTLSOptions_def Let_def split: sum.splits if_splits)

lemma formatTLSOptions_volumes:
  assumes "formatTLSOptions L t h = Inr t'"
  obtains svc where "pl_tlsToService L (sp_tls (hz_spec h)) = Inr svc"
    and "to_volumes t' = to_volumes t
      @ (if tls_caBundleSecretName (sp_tls (hz_spec h)) \<noteq> ''''
         then [pl_caCreateVolume L (sp_tls (hz_spec h))] else [])
      @ [ts_CreateVolume svc ServiceName]"
    and "to_volumeMounts t' = to_volumeMounts t
      @ (if tls_caBundleSecretName (sp_tls (hz_spec h)) \<noteq> ''''
         then pl_caCreateVolumeMounts L (sp_tls (hz_spec h)) else [])
      @ ts_CreateVolumeMounts svc ServiceName"
  using assms that by (auto simp: formatTLSOptions_def Let_def split: sum.splits if_splits)

lemma add_mtls_frame [simp]:
  "to_containerPort (add_mtls mc t) = to_containerPort t"
  "to_livenessProbe (add_mtls mc t) = to_livenessProbe t"
  "to_readinessProbe (add_mtls mc t) = to_readinessProbe t"
  "to_startupProbe (add_mtls mc t) = to_startupProbe t"
  by (simp_all add: add_mtls_def)

lemma plain_options_spec:
  assumes "plain_options L h = Some t"
  shows "to_containerPort t = \<lparr>cp_name = horizonContainerPortName, cp_containerPort = HorizonPort\<rparr>"
    and "to_livenessProbe t = formatProbes" and "to_readinessProbe t = formatProbes"
    and "to_startupProbe t = formatStartupProbe"
  using assms by (auto simp: plain_options_def split: option.splits)

text \<open>How a Deployment value comes about, and the two ways it does not.\<close>

lemma Deployment_Value:
  assumes "Deployment L h hash lbl ann en tp mc = Value d"
  obtains t t' where "plain_options L h = Some t"
    and "(if pl_tlsEnabled L (sp_tls (hz_spec h)) then formatTLSOptions L t h else Inr t) = Inr t'"
    and "d = build_deployment L h lbl ann (getEnvVars hash en) tp (add_mtls mc t')"
  using assms that by (auto simp: Deployment_def Let_def split: option.splits sum.splits)

lemma Deployment_Crash_iff:
  "(\<exists>m. Deployment L h hash lbl ann en tp mc = Crash m) \<longleftrightarrow>
     \<not> sources_present (extra_volumes (propagated (pl_Propagate L)
         (sp_extraMounts (hz_spec h)) HorizonPropagation))"
  by (auto simp: Deployment_def Let_def plain_options_def getVolumes_spec split: option.splits sum.splits)

lemma getEnvVars_hash: "getEnvVars hash en ''CONFIG_HASH'' = Some hash"
  by (simp add: getEnvVars_def)

section \<open>Laws of the surroundings\<close>

text \<open>
  MergeEnvs produces exactly the bindings of the environment map; the CA and service certificate mounts
  name the volumes created beside them; so do the Memcached client certificate mounts; a
  Topology placed on a pod template touches placement only.
\<close>

definition merge_envs_law :: "pod_lib \<Rightarrow> bool" where
  "merge_envs_law L \<longleftrightarrow> (\<forall>h en k v.
     (k, v) \<in> set (pl_MergeEnvs L (getEnvVars h en)) \<longleftrightarrow> getEnvVars h en k = Some v)"

definition tls_mounts_law :: "pod_lib \<Rightarrow> bool" where
  "tls_mounts_law L \<longleftrightarrow>
     (\<forall>tls. \<forall>m \<in> set (pl_caCreateVolumeMounts L tls). vm_name m = vol_name (pl_caCreateVolume L tls)) \<and>
     (\<forall>tls svc n. pl_tlsToService L tls = Inr svc \<longrightarrow>
        (\<forall>m \<in> set (ts_CreateVolumeMounts svc n). vm_name m = vol_name (ts_CreateVolume svc n)))"

definition mtls_mounts_law :: "memcached \<Rightarrow> bool" where
  "mtls_mounts_law mc \<longleftrightarrow> (\<forall>m \<in> set (mc_MTLSVolumeMounts mc). vm_name m = vol_name (mc_MTLSVolume mc))"

definition placement_only :: "topology option \<Rightarrow> bool" where
  "placement_only tp \<longleftrightarrow> (\<forall>f pt. tp = Some f \<longrightarrow>
     f pt = pt\<lparr>pt_affinity := pt_affinity (f pt),
       pt_topologySpreadConstraints := pt_topologySpreadConstraints (f pt)\<rparr>)"

definition extra_mounts_closed :: "pod_lib \<Rightarrow> horizon \<Rightarrow> bool" where
  "extra_mounts_closed L h \<longleftrightarrow>
     (\<forall>vm \<in> set (propagated (pl_Propagate L) (sp_extraMounts (hz_spec h)) HorizonPropagation).
        closed_vol_mounts vm)"

lemma closed_single: "(\<forall>m \<in> set ms. vm_name m = vol_name v) \<Longrightarrow> closed_mounts [v] ms"
  by (simp add: closed_mounts_def)

lemma closed_Nil [simp]: "closed_mounts vols []"
  by (simp add: closed_mounts_def)

lemma closed_plain:
  assumes "plain_options L h = Some t" and "extra_mounts_closed L h"
  shows "closed_mounts (to_volumes t) (to_volumeMounts t)"
proof -
  from assms(1) obtain vols where v: "getVolumes (pl_Propagate L) (hz_name h)
      (sp_extraMounts (hz_spec h)) HorizonPropagation = Some vols"
    and t: "to_volumes t = vols @ [GetLogVolume]"
      "to_volumeMounts t = getVolumeMounts (pl_Propagate L) (sp_extraMounts (hz_spec h))
         HorizonPropagation @ [GetLogVolumeMount]"
    by (auto simp: plain_options_def split: option.splits)
  have "closed_mounts [GetLogVolume] [GetLogVolumeMount]"
    by (simp add: closed_mounts_def GetLogVolume_def GetLogVolumeMount_def)
  with v assms(2) show ?thesis
    unfolding t extra_mounts_closed_def by (blast intro: closed_mounts_append closed_getVolumes)
qed

lemma closed_tls:
  assumes "formatTLSOptions L t h = Inr t'" and "tls_mounts_law L"
    and "closed_mounts (to_volumes t) (to_volumeMounts t)"
  shows "closed_mounts (to_volumes t') (to_volumeMounts t')"
proof -
  let ?tls = "sp_tls (hz_spec h)"
  let ?vs = "if tls_caBundleSecretName ?tls \<noteq> '''' then [pl_caCreateVolume L ?tls] else []"
  let ?ms = "if tls_caBundleSecretName ?tls \<noteq> '''' then pl_caCreateVolumeMounts L ?tls else []"
  from assms(1) obtain svc where svc: "pl_tlsToService L ?tls = Inr svc"
    and v: "to_volumes t' = to_volumes t @ ?vs @ [ts_CreateVolume svc ServiceName]"
    and m: "to_volumeMounts t' = to_volumeMounts t @ ?ms @ ts_CreateVolumeMounts svc ServiceName"
    by (rule formatTLSOptions_volumes)
  have "closed_mounts ?vs ?ms"
    using assms(2) by (auto simp: tls_mounts_law_def intro: closed_single)
  moreover have "closed_mounts [ts_CreateVolume svc ServiceName] (ts_CreateVolumeMounts svc ServiceName)"
    using assms(2) svc by (auto simp: tls_mounts_law_def intro: closed_single)
  ultimately show ?thesis
    unfolding v m using assms(3) by (intro closed_mounts_append)
qed

lemma closed_mtls:
  assumes "mtls_mounts_law mc" and "closed_mounts (to_volumes t) (to_volumeMounts t)"
  shows "closed_mounts (to_volumes (add_mtls mc t)) (to_volumeMounts (add_mtls mc t))"
proof -
  have "closed_mounts [mc_MTLSVolume mc] (mc_MTLSVolumeMounts mc)"
    using assms(1) by (auto simp: mtls_mounts_law_def intro: closed_single)
  with assms(2) show ?thesis by (simp add: add_mtls_def closed_mounts_append)
qed

text \<open>The log volume, which the log container mounts, survives every later option.\<close>

lemma log_volume_kept:
  assumes "plain_options L h = Some t"
    and "(if pl_tlsEnabled L (sp_tls (hz_spec h)) then formatTLSOptions L t h else Inr t) = Inr t'"
  shows "GetLogVolume \<in> set (to_volumes (add_mtls mc t'))"
proof -
  have "GetLogVolume \<in> set (to_volumes t)"
    using assms(1) by (auto simp: plain_options_def split: option.splits)
  moreover have "set (to_volumes t) \<subseteq> set (to_volumes t')"
    using assms(2) by (auto split: if_splits elim!: formatTLSOptions_volumes)
  moreover have "set (to_volumes t') \<subseteq> set (to_volumes (add_mtls mc t'))"
    by (auto simp: add_mtls_def)
  ultimately show ?thesis by blast
qed

lemma place_pods_placement:
  assumes "placement_only tp"
  obtains a c where "place_pods L tp pt = pt\<lparr>pt_affinity := a, pt_topologySpreadConstraints := c\<rparr>"
proof (cases tp)
  case None
  have "place_pods L tp pt = pt\<lparr>pt_affinity := Some (pl_DistributePods L (pl_AppSelector L) [ServiceName] (pl_LabelHostname L)),
      pt_topologySpreadConstraints := pt_topologySpreadConstraints pt\<rparr>"
    by (simp add: place_pods_def None)
  then show thesis by (rule that)
next
  case (Some f)
  with assms have "f pt = pt\<lparr>pt_affinity := pt_affinity (f pt),
      pt_topologySpreadConstraints := pt_topologySpreadConstraints (f pt)\<rparr>"
    by (simp add: placement_only_def)
  then have "place_pods L tp pt = pt\<lparr>pt_affinity := pt_affinity (f pt),
      pt_topologySpreadConstraints := pt_topologySpreadConstraints (f pt)\<rparr>"
    by (simp add: place_pods_def Some)
  then show thesis by (rule that)
qed

lemma place_pods_frame:
  assumes "placement_only tp"
  shows "pt_containers (place_pods L tp pt) = pt_containers pt"
    and "pt_volumes (place_pods L tp pt) = pt_volumes pt"
    and "pt_labels (place_pods L tp pt) = pt_labels pt"
    and "pt_annotations (place_pods L tp pt) = pt_annotations pt"
    and "pt_serviceAccountName (place_pods L tp pt) = pt_serviceAccountName pt"
    and "pt_nodeSelector (place_pods L tp pt) = pt_nodeSelector pt"
  by (rule place_pods_placement[OF assms, of L pt]; simp)+

lemma build_deployment_pods:
  assumes "placement_only tp"
  shows "pt_containers (dp_template (build_deployment L h lbl ann env tp t)) =
      [log_container L h env, horizon_container L h env t]"
    and "pt_volumes (dp_template (build_deployment L h lbl ann env tp t)) = to_volumes t"
  using assms by (simp_all add: build_deployment_def place_pods_frame)

end
