(* ===== verification/Go_Url.thy ===== *)
theory Go_Url
  imports Go_Prelude
begin

text \<open>
  url.Parse of the Go standard library (net/url, Go 1.26), as far as the operator reads its
  result: the error, the scheme and the host. Percent escapes are checked in every part and
  decoded in the host. The treatment of an IP literal in brackets is a parameter
  (\<open>iplit\<close>): the operator's endpoints have host names.
\<close>

record go_url =
  u_Scheme :: string
  u_Host :: string

definition code :: "char \<Rightarrow> nat" where
  "code c = of_char c"

definition is_letter :: "char \<Rightarrow> bool" where
  "is_letter c \<longleftrightarrow> (97 \<le> code c \<and> code c \<le> 122) \<or> (65 \<le> code c \<and> code c \<le> 90)"

definition is_digit :: "char \<Rightarrow> bool" where
  "is_digit c \<longleftrightarrow> 48 \<le> code c \<and> code c \<le> 57"

definition is_hex :: "char \<Rightarrow> bool" where
  "is_hex c \<longleftrightarrow> is_digit c \<or> (97 \<le> code c \<and> code c \<le> 102) \<or> (65 \<le> code c \<and> code c \<le> 70)"

definition unhex :: "char \<Rightarrow> nat" where
  "unhex c = (if is_digit c then code c - 48
              else if 97 \<le> code c \<and> code c \<le> 102 then code c - 97 + 10
              else if 65 \<le> code c \<and> code c \<le> 70 then code c - 65 + 10 else 0)"

text \<open>stringContainsCTLByte and strings.Cut with a one-byte separator.\<close>

definition has_ctl :: "string \<Rightarrow> bool" where
  "has_ctl s \<longleftrightarrow> list_ex (\<lambda>c. code c < 32 \<or> code c = 127) s"

definition cut_at :: "char \<Rightarrow> string \<Rightarrow> string \<times> string" where
  "cut_at sep s = (takeWhile (\<lambda>c. c \<noteq> sep) s, drop 1 (dropWhile (\<lambda>c. c \<noteq> sep) s))"

definition has_prefix :: "string \<Rightarrow> string \<Rightarrow> bool" where
  "has_prefix s p \<longleftrightarrow> take (length p) s = p"

section \<open>Escapes\<close>

text \<open>unescape, in the modes where only the well-formedness of the escapes matters.\<close>

fun escapes_ok :: "string \<Rightarrow> bool" where
  "escapes_ok [] = True"
| "escapes_ok (c # s) =
     (if c = CHR ''%''
      then (case s of a # b # r \<Rightarrow> is_hex a \<and> is_hex b \<and> escapes_ok r | _ \<Rightarrow> False)
      else escapes_ok s)"

definition host_char :: "char \<Rightarrow> bool" where
  "host_char c \<longleftrightarrow> is_letter c \<or> is_digit c \<or>
     c \<in> set ''-_.~!$&()*+,;=:[]<>'' \<or> code c = 39 \<or> code c = 34"

text \<open>unescape in the host mode: only bytes beyond ASCII may be escaped, and "%25".\<close>

fun unescape_host :: "string \<Rightarrow> string option" where
  "unescape_host [] = Some []"
| "unescape_host (c # s) =
     (if c = CHR ''%''
      then (case s of
              a # b # r \<Rightarrow>
                (if is_hex a \<and> is_hex b \<and> (unhex a \<ge> 8 \<or> (a = CHR ''2'' \<and> b = CHR ''5''))
                 then map_option (\<lambda>t. char_of (16 * unhex a + unhex b) # t) (unescape_host r)
                 else None)
            | _ \<Rightarrow> None)
      else if code c < 128 \<and> \<not> host_char c then None
      else map_option (\<lambda>t. c # t) (unescape_host s))"

section \<open>Authority\<close>

definition valid_optional_port :: "string \<Rightarrow> bool" where
  "valid_optional_port p = (case p of [] \<Rightarrow> True | c # ds \<Rightarrow> c = CHR '':'' \<and> list_all is_digit ds)"

definition bad_url :: "string \<Rightarrow> gerr" where
  "bad_url why = Errorf ''parse: %s'' [why]"

definition parse_host :: "(string \<Rightarrow> gerr + string) \<Rightarrow> string \<Rightarrow> gerr + string" where
  "parse_host iplit host =
     (if CHR ''['' \<in> set host then iplit host
      else if \<not> valid_optional_port (dropWhile (\<lambda>c. c \<noteq> CHR '':'') host)
      then Inl (bad_url ''invalid port after host'')
      else (case unescape_host host of
              None \<Rightarrow> Inl (bad_url ''invalid host'')
            | Some h \<Rightarrow> Inr h))"

definition valid_userinfo :: "string \<Rightarrow> bool" where
  "valid_userinfo s \<longleftrightarrow>
     list_all (\<lambda>c. is_letter c \<or> is_digit c \<or> c \<in> set ''-._:~!$&()*+,;=%@'' \<or> code c = 39) s"

text \<open>strings.LastIndex(s, "@"): the part before and the part after the last at sign.\<close>

definition split_last_at :: "string \<Rightarrow> string option \<times> string" where
  "split_last_at s =
     (if CHR ''@'' \<in> set s
      then (let after = rev (takeWhile (\<lambda>c. c \<noteq> CHR ''@'') (rev s))
            in (Some (take (length s - length after - 1) s), after))
      else (None, s))"

definition parse_authority :: "(string \<Rightarrow> gerr + string) \<Rightarrow> string \<Rightarrow> gerr + string" where
  "parse_authority iplit authority = (case split_last_at authority of
     (None, h) \<Rightarrow> parse_host iplit h
   | (Some userinfo, h) \<Rightarrow>
       (case parse_host iplit h of
          Inl e \<Rightarrow> Inl e
        | Inr host \<Rightarrow>
            if \<not> valid_userinfo userinfo then Inl (bad_url ''invalid userinfo'')
            else if \<not> escapes_ok (fst (cut_at (CHR '':'') userinfo))
                 \<or> \<not> escapes_ok (snd (cut_at (CHR '':'') userinfo))
            then Inl (bad_url ''invalid URL escape'')
            else Inr host))"

section \<open>Scheme and the whole URL\<close>

fun get_scheme :: "string \<Rightarrow> nat \<Rightarrow> string \<Rightarrow> gerr + (string \<times> string)" where
  "get_scheme raw i [] = Inr ([], raw)"
| "get_scheme raw i (c # s) =
     (if is_letter c then get_scheme raw (Suc i) s
      else if is_digit c \<or> c \<in> set ''+-.''
      then (if i = 0 then Inr ([], raw) else get_scheme raw (Suc i) s)
      else if c = CHR '':''
      then (if i = 0 then Inl (bad_url ''missing protocol scheme'') else Inr (take i raw, s))
      else Inr ([], raw))"

definition strip_query :: "string \<Rightarrow> string" where
  "strip_query rest =
     (if rest \<noteq> [] \<and> last rest = CHR ''?'' \<and> count_list rest (CHR ''?'') = 1
      then butlast rest else fst (cut_at (CHR ''?'') rest))"

definition parse_rest ::
  "(string \<Rightarrow> gerr + string) \<Rightarrow> string \<Rightarrow> string \<Rightarrow> gerr + go_url" where
  "parse_rest iplit scheme rest =
     (if \<not> has_prefix rest ''/'' \<and> scheme \<noteq> []
      then Inr \<lparr>u_Scheme = scheme, u_Host = []\<rparr>
      else if \<not> has_prefix rest ''/'' \<and> CHR '':'' \<in> set (fst (cut_at (CHR ''/'') rest))
      then Inl (bad_url ''first path segment in URL cannot contain colon'')
      else if (scheme \<noteq> [] \<or> \<not> has_prefix rest ''///'') \<and> has_prefix rest ''//''
      then (let auth = takeWhile (\<lambda>c. c \<noteq> CHR ''/'') (drop 2 rest);
                path = dropWhile (\<lambda>c. c \<noteq> CHR ''/'') (drop 2 rest)
            in case parse_authority iplit auth of
                 Inl e \<Rightarrow> Inl e
               | Inr host \<Rightarrow>
                   if escapes_ok path then Inr \<lparr>u_Scheme = scheme, u_Host = host\<rparr>
                   else Inl (bad_url ''invalid URL escape''))
      else if escapes_ok rest then Inr \<lparr>u_Scheme = scheme, u_Host = []\<rparr>
      else Inl (bad_url ''invalid URL escape''))"

definition url_Parse :: "(string \<Rightarrow> gerr + string) \<Rightarrow> string \<Rightarrow> gerr + go_url" where
  "url_Parse iplit rawURL =
     (let (u, frag) = cut_at (CHR ''#'') rawURL in
      if has_ctl u then Inl (bad_url ''invalid control character in URL'')
      else if u = ''*'' then (if escapes_ok frag then Inr \<lparr>u_Scheme = [], u_Host = []\<rparr>
                             else Inl (bad_url ''invalid URL escape''))
      else (case get_scheme u 0 u of
              Inl e \<Rightarrow> Inl e
            | Inr (scheme, rest) \<Rightarrow>
                (case parse_rest iplit (to_lower scheme) (strip_query rest) of
                   Inl e \<Rightarrow> Inl e
                 | Inr url \<Rightarrow> if escapes_ok frag then Inr url
                              else Inl (bad_url ''invalid URL escape''))))"

section \<open>URLs of the usual shape\<close>

text \<open>
  A host name with an optional port, and an absolute path of characters that no part of the
  parser treats specially.
\<close>

definition name_char :: "char \<Rightarrow> bool" where
  "name_char c \<longleftrightarrow> is_letter c \<or> is_digit c \<or> c = CHR ''-'' \<or> c = CHR ''.''"

definition plain_host :: "string \<Rightarrow> bool" where
  "plain_host h \<longleftrightarrow> (\<exists>n p. h = n @ p \<and> list_all name_char n \<and> valid_optional_port p)"

definition plain_path :: "string \<Rightarrow> bool" where
  "plain_path p \<longleftrightarrow> p = [] \<or> (\<exists>q. p = CHR ''/'' # q \<and> list_all (\<lambda>c. name_char c \<or> c = CHR ''/'' \<or> c = CHR ''_'') q)"

lemma code_literals [simp]:
  "code CHR ''/'' = 47" "code CHR '':'' = 58" "code CHR ''-'' = 45" "code CHR ''.'' = 46"
  "code CHR ''_'' = 95" "code CHR ''%'' = 37" "code CHR ''#'' = 35" "code CHR ''?'' = 63"
  "code CHR ''@'' = 64" "code CHR ''['' = 91" "code CHR ''h'' = 104" "code CHR ''t'' = 116"
  "code CHR ''p'' = 112" "code CHR ''s'' = 115" "code CHR ''*'' = 42"
  by (simp_all add: code_def)

lemma code_inj: "code a = code b \<Longrightarrow> a = b"
  by (simp add: code_def)

text \<open>The characters that occur in such a host or path, and what they are not.\<close>

definition simple_char :: "char \<Rightarrow> bool" where
  "simple_char c \<longleftrightarrow> name_char c \<or> c \<in> {CHR ''/'', CHR ''_'', CHR '':''}"

lemma simple_char_neq:
  "simple_char c \<Longrightarrow> c \<noteq> CHR ''%'' \<and> c \<noteq> CHR ''#'' \<and> c \<noteq> CHR ''?'' \<and> c \<noteq> CHR ''@'' \<and> c \<noteq> CHR ''[''"
  by (auto simp: simple_char_def name_char_def is_letter_def is_digit_def)

lemma simple_char_code: "simple_char c \<Longrightarrow> 32 \<le> code c \<and> code c < 127"
  by (auto simp: simple_char_def name_char_def is_letter_def is_digit_def)

lemma name_char_neq: "name_char c \<Longrightarrow> c \<noteq> CHR ''/'' \<and> c \<noteq> CHR '':''"
  by (auto simp: name_char_def is_letter_def is_digit_def)

lemma digit_simple: "is_digit c \<Longrightarrow> simple_char c"
  by (simp add: simple_char_def name_char_def)

lemma port_chars: "valid_optional_port p \<Longrightarrow> c \<in> set p \<Longrightarrow> name_char c \<or> c = CHR '':''"
  by (cases p) (auto simp: valid_optional_port_def list_all_iff name_char_def)

lemma plain_host_chars: "plain_host h \<Longrightarrow> c \<in> set h \<Longrightarrow> name_char c \<or> c = CHR '':''"
  by (auto simp: plain_host_def list_all_iff dest: port_chars)

lemma plain_host_simple: "plain_host h \<Longrightarrow> list_all simple_char h"
  by (auto simp: list_all_iff simple_char_def dest: plain_host_chars)

lemma plain_path_simple: "plain_path p \<Longrightarrow> list_all simple_char p"
  by (auto simp: plain_path_def simple_char_def list_all_iff)

lemma simple_no_escape: "list_all simple_char s \<Longrightarrow> escapes_ok s"
  by (induction s) (auto dest: simple_char_neq)

lemma simple_cut:
  assumes "list_all simple_char s" and "c \<in> {CHR ''#'', CHR ''?''}"
  shows "cut_at c s = (s, [])"
proof -
  have "\<forall>d \<in> set s. d \<noteq> c" using assms by (auto simp: list_all_iff dest!: simple_char_neq)
  then have t: "takeWhile (\<lambda>d. d \<noteq> c) s = s" and d: "dropWhile (\<lambda>d. d \<noteq> c) s = []" by simp_all
  show ?thesis unfolding cut_at_def t d by simp
qed

lemma simple_no_ctl: "list_all simple_char s \<Longrightarrow> \<not> has_ctl s"
  by (auto simp: has_ctl_def list_ex_iff list_all_iff dest!: simple_char_code)

lemma plain_host_no_slash: "plain_host h \<Longrightarrow> \<forall>c \<in> set h. c \<noteq> CHR ''/''"
  by (auto dest!: plain_host_chars name_char_neq)

lemma unescape_host_plain:
  "(\<forall>c \<in> set h. host_char c \<and> c \<noteq> CHR ''%'') \<Longrightarrow> unescape_host h = Some h"
  by (induction h) auto

lemma plain_host_char: "plain_host h \<Longrightarrow> c \<in> set h \<Longrightarrow> host_char c"
  by (drule (1) plain_host_chars) (auto simp: name_char_def host_char_def)

lemma parse_host_plain:
  assumes "plain_host h"
  shows "parse_host iplit h = Inr h"
proof -
  from assms obtain n p where h: "h = n @ p" "list_all name_char n" "valid_optional_port p"
    by (auto simp: plain_host_def)
  have "CHR ''['' \<notin> set h"
    using plain_host_simple[OF assms] by (auto simp: list_all_iff dest: simple_char_neq)
  moreover have "valid_optional_port (dropWhile (\<lambda>c. c \<noteq> CHR '':'') h)"
  proof -
    have "dropWhile (\<lambda>c. c \<noteq> CHR '':'') h = dropWhile (\<lambda>c. c \<noteq> CHR '':'') p"
      using h(1,2) by (auto simp: list_all_iff dest: name_char_neq intro!: dropWhile_append2)
    with h(3) show ?thesis by (auto simp: valid_optional_port_def split: list.splits)
  qed
  moreover have "unescape_host h = Some h"
  proof (rule unescape_host_plain, intro ballI conjI)
    fix c assume "c \<in> set h"
    then show "host_char c" by (rule plain_host_char[OF assms])
    from \<open>c \<in> set h\<close> plain_host_simple[OF assms] show "c \<noteq> CHR ''%''"
      by (auto simp: list_all_iff dest: simple_char_neq)
  qed
  ultimately show ?thesis by (simp add: parse_host_def)
qed

lemma parse_authority_plain:
  assumes "plain_host h"
  shows "parse_authority iplit h = Inr h"
proof -
  have "CHR ''@'' \<notin> set h"
    using plain_host_simple[OF assms] by (auto simp: list_all_iff dest: simple_char_neq)
  then show ?thesis by (simp add: parse_authority_def split_last_at_def parse_host_plain[OF assms])
qed

lemma takeWhile_host:
  assumes "plain_host h" and "plain_path p"
  shows "takeWhile (\<lambda>c. c \<noteq> CHR ''/'') (h @ p) = h" and "dropWhile (\<lambda>c. c \<noteq> CHR ''/'') (h @ p) = p"
proof -
  note hs = plain_host_no_slash[OF assms(1)]
  have p: "p = [] \<or> (\<exists>q. p = CHR ''/'' # q)" using assms(2) by (auto simp: plain_path_def)
  have tw: "takeWhile (\<lambda>c. c \<noteq> CHR ''/'') p = []" and dw: "dropWhile (\<lambda>c. c \<noteq> CHR ''/'') p = p"
    using p by (elim disjE exE; simp)+
  have "takeWhile (\<lambda>c. c \<noteq> CHR ''/'') (h @ p) = h @ takeWhile (\<lambda>c. c \<noteq> CHR ''/'') p"
    by (rule takeWhile_append2) (use hs in blast)
  then show "takeWhile (\<lambda>c. c \<noteq> CHR ''/'') (h @ p) = h" unfolding tw by simp
  have "dropWhile (\<lambda>c. c \<noteq> CHR ''/'') (h @ p) = dropWhile (\<lambda>c. c \<noteq> CHR ''/'') p"
    by (rule dropWhile_append2) (use hs in blast)
  then show "dropWhile (\<lambda>c. c \<noteq> CHR ''/'') (h @ p) = p" unfolding dw .
qed

text \<open>Parsing an http or https URL of that shape gives back its scheme and its host.\<close>

lemma parse_rest_plain:
  assumes "plain_host h" and "plain_path p" and "scheme \<noteq> []"
  shows "parse_rest iplit scheme (''//'' @ h @ p) = Inr \<lparr>u_Scheme = scheme, u_Host = h\<rparr>"
  using assms takeWhile_host[OF assms(1,2)] parse_authority_plain[OF assms(1)]
    simple_no_escape[OF plain_path_simple[OF assms(2)]]
  by (simp add: parse_rest_def has_prefix_def)

lemma get_scheme_http:
  assumes "s = ''http'' \<or> s = ''https''"
  shows "get_scheme (s @ CHR '':'' # r) 0 (s @ CHR '':'' # r) = Inr (s, r)" and "to_lower s = s"
  using assms
  by (auto simp: is_letter_def is_digit_def to_lower_def lower_char_def Let_def)

lemma strip_query_simple:
  assumes "list_all simple_char r"
  shows "strip_query r = r"
proof -
  have "CHR ''?'' \<notin> set r" using assms by (auto simp: list_all_iff dest: simple_char_neq)
  then have "r \<noteq> [] \<longrightarrow> last r \<noteq> CHR ''?''" using last_in_set by metis
  with simple_cut[OF assms, of "CHR ''?''"] show ?thesis by (auto simp: strip_query_def)
qed

lemma url_Parse_plain:
  assumes "s = ''http'' \<or> s = ''https''" and "plain_host h" and "plain_path p"
  shows "url_Parse iplit (s @ ''://'' @ h @ p) = Inr \<lparr>u_Scheme = s, u_Host = h\<rparr>"
proof -
  define r where "r = ''//'' @ h @ p"
  define u where "u = s @ CHR '':'' # r"
  have r: "list_all simple_char r"
    using plain_host_simple[OF assms(2)] plain_path_simple[OF assms(3)]
    by (auto simp: r_def simple_char_def)
  have "list_all simple_char s"
    using assms(1) by (auto simp: simple_char_def name_char_def is_letter_def)
  with r have u: "list_all simple_char u" by (simp add: u_def simple_char_def)
  have ne: "s \<noteq> []" "u \<noteq> ''*''" using assms(1) by (auto simp: u_def)
  have scheme: "get_scheme u 0 u = Inr (s, r)" and low: "to_lower s = s"
    using get_scheme_http[OF assms(1)] by (simp_all add: u_def)
  have rest: "parse_rest iplit s r = Inr \<lparr>u_Scheme = s, u_Host = h\<rparr>"
    unfolding r_def by (rule parse_rest_plain[OF assms(2,3) ne(1)])
  have "url_Parse iplit u = Inr \<lparr>u_Scheme = s, u_Host = h\<rparr>"
    using simple_cut[OF u, of "CHR ''#''"] simple_no_ctl[OF u] scheme low rest ne(2)
    by (simp add: url_Parse_def strip_query_simple[OF r])
  then show ?thesis by (simp add: u_def r_def)
qed

end
