(* ===== verification/Reconcile_Env.thy ===== *)
theory Reconcile_Env
  imports Horizon_Deployment Go_Url
begin

text \<open>
  The surroundings of the reconciler (internal/controller/horizon_controller.go): the pure
  functions and constants it takes from other packages (\<open>env_lib\<close>), the calls that reach the
  cluster (\<open>api\<close>), and the state a pass runs over. A cluster call takes the cluster and
  returns a result and a cluster: nothing is assumed about what other actors do between two
  calls. An object of another package is represented by the results of the methods the
  operator calls on it.
\<close>

section \<open>Objects of other packages\<close>

text \<open>helper.Helper: its finalizer and the namespace of its copy of the object.\<close>

record helper =
  hp_GetFinalizer :: string
  hp_before_namespace :: string

record secret =
  sec_name :: string
  sec_data :: smap

datatype service_type = ClusterIP | LoadBalancer | OtherServiceType string

datatype protocol = ProtocolHTTP | ProtocolHTTPS

record service_port =
  sport_name :: string
  sport_port :: int
  sport_targetPort :: int

record service_details =
  sd_name :: string
  sd_namespace :: string
  sd_labels :: smap
  sd_selector :: smap
  sd_ports :: "service_port list"

text \<open>A service.Service, with the maps given to AddAnnotation in call order.\<close>

record service =
  svc_details :: service_details
  svc_type :: service_type
  svc_hostname :: string
  svc_annotations :: "smap list"

record policy_rule =
  rule_apiGroups :: "string list"
  rule_resourceNames :: "string list"
  rule_resources :: "string list"
  rule_verbs :: "string list"

datatype template_type = TemplateTypeConfig | TemplateTypeScripts | TemplateTypeNone

datatype param = PStr string | PInt int | PBool bool

record config_template =
  tm_name :: string
  tm_namespace :: string
  tm_type :: template_type
  tm_instanceType :: string
  tm_customData :: smap
  tm_configOptions :: "string \<Rightarrow> param option"
  tm_labels :: smap
  tm_commonTemplates :: "string list"

text \<open>A KeystoneAPI, by GetEndpoint(EndpointInternal); a NetworkAttachmentDefinition.\<close>

record keystone_api =
  ks_internalEndpoint :: "gerr + string"

record nad =
  nad_name :: string
  nad_namespace :: string

text \<open>The appsv1.Deployment read back from the cluster.\<close>

record live_deployment =
  ld_generation :: int
  ld_observedGeneration :: int
  ld_specReplicas :: "int option"
  ld_replicas :: int
  ld_readyReplicas :: int

type_synonym net_status = "(string \<Rightarrow> string list option) option"

section \<open>Functions and constants of other packages\<close>

record env_lib =
  el_pod :: pod_lib
  el_AddFinalizer :: "string list \<Rightarrow> string \<Rightarrow> string list \<times> bool"
  el_RemoveFinalizer :: "string list \<Rightarrow> string \<Rightarrow> string list"
  el_GetLabels :: "horizon \<Rightarrow> string \<Rightarrow> smap"
  el_GetLabelSelector :: "smap \<Rightarrow> string"
  el_ObjectHash :: "(string \<times> string) list \<Rightarrow> gerr + string"
  el_SetHash :: "smap \<Rightarrow> string \<Rightarrow> string \<Rightarrow> smap \<times> bool"
  el_NewService :: "service_details \<Rightarrow> int \<Rightarrow> routed_override \<Rightarrow> gerr + service"
  el_GetAPIEndpoint :: "service \<Rightarrow> string option \<Rightarrow> protocol \<Rightarrow> string \<Rightarrow> gerr + string"
  el_EnsureNetworksAnnotation :: "nad list \<Rightarrow> gerr + smap"
  el_DeploymentIsReady :: "live_deployment \<Rightarrow> bool"
  el_ip_literal :: "string \<Rightarrow> gerr + string"
  el_CaMountPath :: string
  el_CertMountPath :: string
  el_KeyMountPath :: string
  el_OwnerSelector :: string
  el_InputHashName :: string
  el_CABundleKey :: string
  el_TLSHashName :: string
  el_AnnotationEndpointKey :: string
  el_EndpointPublic :: string
  el_AnnotationIngressCreateKey :: string
  el_AnnotationHostnameKey :: string

definition tls_enabled :: "env_lib \<Rightarrow> horizon \<Rightarrow> bool" where
  "tls_enabled K h = pl_tlsEnabled (el_pod K) (sp_tls (hz_spec h))"

section \<open>Calls that reach the cluster\<close>

record 'w api =
  ap_Get :: "string \<Rightarrow> string \<Rightarrow> 'w \<Rightarrow> (gerr + horizon) \<times> 'w"
  ap_NewHelper :: "horizon \<Rightarrow> 'w \<Rightarrow> (gerr + helper) \<times> 'w"
  ap_PatchInstance :: "horizon \<Rightarrow> 'w \<Rightarrow> gerr option \<times> 'w"
  ap_EnsureDeletedTopologyRef :: "topo_ref option \<Rightarrow> string \<Rightarrow> 'w \<Rightarrow> ret \<times> 'w"
  ap_ReconcileRbac :: "string \<Rightarrow> string \<Rightarrow> policy_rule list \<Rightarrow> 'w \<Rightarrow> (condition list \<times> ret) \<times> 'w"
  ap_GetSecret :: "string \<Rightarrow> string \<Rightarrow> 'w \<Rightarrow> (gerr + secret \<times> string) \<times> 'w"
  ap_GetMemcachedByName :: "string \<Rightarrow> string \<Rightarrow> 'w \<Rightarrow> (gerr + memcached) \<times> 'w"
  ap_ValidateCACertSecret :: "string \<Rightarrow> string \<Rightarrow> 'w \<Rightarrow> (gerr + string) \<times> 'w"
  ap_ValidateCertSecret :: "tls_spec \<Rightarrow> string \<Rightarrow> 'w \<Rightarrow> (gerr + string) \<times> 'w"
  ap_GetKeystoneAPI :: "string \<Rightarrow> 'w \<Rightarrow> (gerr + keystone_api) \<times> 'w"
  ap_GetKeystoneServiceWithName :: "string \<Rightarrow> string \<Rightarrow> 'w \<Rightarrow> (bool \<times> gerr option) \<times> 'w"
  ap_EnsureConfigMaps :: "config_template list \<Rightarrow> smap \<Rightarrow> 'w \<Rightarrow> (gerr option \<times> smap) \<times> 'w"
  ap_EnsureSecrets :: "config_template list \<Rightarrow> smap \<Rightarrow> 'w \<Rightarrow> (gerr option \<times> smap) \<times> 'w"
  ap_GeneratePassword :: "int \<Rightarrow> 'w \<Rightarrow> (gerr + string) \<times> 'w"
  ap_ServiceCreateOrPatch :: "service \<Rightarrow> 'w \<Rightarrow> ret \<times> 'w"
  ap_GetNADWithName :: "string \<Rightarrow> string \<Rightarrow> 'w \<Rightarrow> (gerr + nad option) \<times> 'w"
  ap_EnsureServiceTopology ::
    "topo_ref option \<Rightarrow> topo_ref option \<Rightarrow> string \<Rightarrow> string \<Rightarrow> 'w \<Rightarrow> (gerr + topology option) \<times> 'w"
  ap_DeploymentCreateOrPatch :: "deployment \<Rightarrow> int \<Rightarrow> 'w \<Rightarrow> (ret \<times> live_deployment) \<times> 'w"
  ap_VerifyNetworkStatus ::
    "string list \<Rightarrow> smap \<Rightarrow> int \<Rightarrow> 'w \<Rightarrow> (gerr + bool \<times> net_status) \<times> 'w"

section \<open>The state of a pass\<close>

text \<open>
  The cluster, the Horizon object in memory (one pointer, shared by all functions of the
  pass), and the map configMapVars.
\<close>

record 'w rstate =
  rs_world :: 'w
  rs_inst :: horizon
  rs_vars :: smap

type_synonym ('w, 'a) body = "('w rstate, 'a, ret) proc"

definition cluster :: "('w \<Rightarrow> 'a \<times> 'w) \<Rightarrow> ('w rstate, 'a, 'r) proc" where
  "cluster f = (\<lambda>s. case f (rs_world s) of (x, w) \<Rightarrow> (Next x, s\<lparr>rs_world := w\<rparr>))"

lemma cluster_apply [flow_simps]:
  "cluster f s = (case f (rs_world s) of (x, w) \<Rightarrow> (Next x, s\<lparr>rs_world := w\<rparr>))"
  by (simp add: cluster_def)

definition upd_status :: "(horizon_status \<Rightarrow> horizon_status) \<Rightarrow> horizon \<Rightarrow> horizon" where
  "upd_status f h = h\<lparr>hz_status := f (hz_status h)\<rparr>"

definition status_cond :: "(conditions \<Rightarrow> conditions) \<Rightarrow> horizon \<Rightarrow> horizon" where
  "status_cond f h = upd_status (\<lambda>st. st\<lparr>st_conditions := Some (f (conds_of st))\<rparr>) h"

definition mod_inst :: "(horizon \<Rightarrow> horizon) \<Rightarrow> ('w rstate, unit, 'r) proc" where
  "mod_inst f = modify (\<lambda>s. s\<lparr>rs_inst := f (rs_inst s)\<rparr>)"

definition the_inst :: "('w rstate, horizon, 'r) proc" where
  "the_inst = get_state rs_inst"

text \<open>instance.Status.Conditions.Set, MarkTrue and MarkFalse.\<close>

definition set_cond :: "cond_lib \<Rightarrow> condition \<Rightarrow> ('w rstate, unit, 'r) proc" where
  "set_cond C c = mod_inst (status_cond (\<lambda>cs. cl_set C cs c))"

definition mark_true :: "cond_lib \<Rightarrow> ctype \<Rightarrow> string \<Rightarrow> ('w rstate, unit, 'r) proc" where
  "mark_true C t m = mod_inst (status_cond (\<lambda>cs. cl_mark_true C cs t (Msg m [])))"

definition mark_false ::
  "cond_lib \<Rightarrow> ctype \<Rightarrow> reason \<Rightarrow> severity \<Rightarrow> message \<Rightarrow> ('w rstate, unit, 'r) proc" where
  "mark_false C t r v m = mod_inst (status_cond (\<lambda>cs. cl_mark_false C cs t r v m))"

text \<open>configMapVars[k] = env.SetValue(v).\<close>

definition set_var :: "string \<Rightarrow> string \<Rightarrow> ('w rstate, unit, 'r) proc" where
  "set_var k v = modify (\<lambda>s. s\<lparr>rs_vars := (rs_vars s)(k \<mapsto> v)\<rparr>)"

text \<open>Set a condition to False and leave with the given result and error.\<close>

definition fail_with ::
  "cond_lib \<Rightarrow> ctype \<Rightarrow> reason \<Rightarrow> severity \<Rightarrow> message \<Rightarrow> 'r \<Rightarrow> ('w rstate, 'a, 'r) proc" where
  "fail_with C t r v m ret =
     and_then (set_cond C (cl_false C t r v m)) (\<lambda>_. return_with ret)"

lemma mod_inst_apply [flow_simps]: "mod_inst f s = (Next (), s\<lparr>rs_inst := f (rs_inst s)\<rparr>)"
  by (simp add: mod_inst_def modify_def)

lemma the_inst_apply [flow_simps]: "the_inst s = (Next (rs_inst s), s)"
  by (simp add: the_inst_def get_state_def)

lemma set_var_apply [flow_simps]: "set_var k v s = (Next (), s\<lparr>rs_vars := (rs_vars s)(k \<mapsto> v)\<rparr>)"
  by (simp add: set_var_def modify_def)

lemmas step_defs = set_cond_def mark_true_def mark_false_def fail_with_def

section \<open>Reading conditions through an update of the object\<close>

text \<open>The conditions of the object of a state.\<close>

definition conds :: "'w rstate \<Rightarrow> conditions" where
  "conds s = conds_of (hz_status (rs_inst s))"

lemma conds_status_cond [simp]:
  "conds_of (hz_status (status_cond f h)) = f (conds_of (hz_status h))"
  by (simp add: status_cond_def upd_status_def conds_of_def)

lemma upd_status_frame [simp]:
  "hz_name (upd_status f h) = hz_name h"
  "hz_namespace (upd_status f h) = hz_namespace h"
  "hz_kind (upd_status f h) = hz_kind h"
  "hz_spec (upd_status f h) = hz_spec h"
  "hz_generation (upd_status f h) = hz_generation h"
  "hz_finalizers (upd_status f h) = hz_finalizers h"
  "hz_deletionTimestamp (upd_status f h) = hz_deletionTimestamp h"
  "hz_status (upd_status f h) = f (hz_status h)"
  by (simp_all add: upd_status_def)

lemma status_cond_frame [simp]:
  "hz_name (status_cond f h) = hz_name h"
  "hz_namespace (status_cond f h) = hz_namespace h"
  "hz_kind (status_cond f h) = hz_kind h"
  "hz_spec (status_cond f h) = hz_spec h"
  "hz_generation (status_cond f h) = hz_generation h"
  "hz_finalizers (status_cond f h) = hz_finalizers h"
  "hz_deletionTimestamp (status_cond f h) = hz_deletionTimestamp h"
  "st_hash (hz_status (status_cond f h)) = st_hash (hz_status h)"
  "st_endpoint (hz_status (status_cond f h)) = st_endpoint (hz_status h)"
  "st_readyCount (hz_status (status_cond f h)) = st_readyCount (hz_status h)"
  "st_observedGeneration (hz_status (status_cond f h)) = st_observedGeneration (hz_status h)"
  "st_networkAttachments (hz_status (status_cond f h)) = st_networkAttachments (hz_status h)"
  "st_lastAppliedTopology (hz_status (status_cond f h)) = st_lastAppliedTopology (hz_status h)"
  by (simp_all add: status_cond_def)

end
