(* ===== verification/Reconcile_Inputs.thy ===== *)
theory Reconcile_Inputs
  imports Reconcile_Env
begin

text \<open>
  The first stages of reconcileNormal: role-based access, the OpenStack secret, Memcached and
  the TLS inputs. Each stage is a procedure over the state of the pass; its early returns
  carry the controller result and the error of the source. The second half states the
  contract every deciding stage obeys (locale \<open>pipeline_stage\<close>) and interprets it on the
  stages of this theory.
\<close>

section \<open>Role-based access\<close>

definition rbacRules :: "policy_rule list" where
  "rbacRules =
     [\<lparr>rule_apiGroups = [''security.openshift.io''],
       rule_resourceNames = [''anyuid'', ''hostmount-anyuid''],
       rule_resources = [''securitycontextconstraints''],
       rule_verbs = [''use'']\<rparr>]"

text \<open>
  ReconcileRbac calls back RbacConditionsSet for each condition it reports, in order.
\<close>

definition configureHorizonRbac :: "cond_lib \<Rightarrow> 'w api \<Rightarrow> ('w, ret) body" where
  "configureHorizonRbac C A =
     and_then the_inst (\<lambda>i.
     and_then (cluster (ap_ReconcileRbac A (RbacNamespace i) (RbacResourceName i) rbacRules))
       (\<lambda>(reported, r).
     and_then (mod_inst (\<lambda>h. fold (\<lambda>c h. RbacConditionsSet C h c) reported h)) (\<lambda>_.
     next_with r)))"

definition rbac_step :: "cond_lib \<Rightarrow> 'w api \<Rightarrow> ('w, unit) body" where
  "rbac_step C A =
     and_then (call_proc (configureHorizonRbac C A)) (\<lambda>(rbacResult, err).
       if err \<noteq> None \<or> rbacResult \<noteq> res0 then return_with (rbacResult, err) else next_with ())"

section \<open>The OpenStack secret\<close>

definition ErrNoOpenstackSecret :: gerr where
  "ErrNoOpenstackSecret = StaticErr ''no openstack secret has been provided''"

definition check_secret :: "cond_lib \<Rightarrow> 'w api \<Rightarrow> ('w, unit) body" where
  "check_secret C A =
     and_then (modify (\<lambda>s. s\<lparr>rs_vars := Map.empty\<rparr>)) (\<lambda>_.
     and_then the_inst (\<lambda>i.
       if sp_secret (hz_spec i) = ''''
       then fail_with C InputReady (OtherReason ''missing dependencies'') SeverityInfo
              (Msg ''%s'' [MStr ''missing openstack secret''])
              (res0, Some (Wrapped ''%w: Unable to reconcile'' [] ErrNoOpenstackSecret))
       else
         and_then (cluster (ap_GetSecret A (sp_secret (hz_spec i)) (hz_namespace i))) (\<lambda>got.
         case got of
           Inl err \<Rightarrow>
             if is_not_found err
             then fail_with C InputReady ErrorReason SeverityWarning
                    (Msg ''InputReadyWaitingMessage'' []) (requeue_in 10, None)
             else fail_with C InputReady ErrorReason SeverityWarning
                    (Msg ''InputReadyErrorMessage'' [MErr err]) (res0, Some err)
         | Inr (ospSecret, hash) \<Rightarrow>
             and_then (set_var (sec_name ospSecret) hash) (\<lambda>_.
             mark_true C InputReady ''InputReadyMessage''))))"

section \<open>Memcached\<close>

definition check_memcached :: "cond_lib \<Rightarrow> 'w api \<Rightarrow> ('w, memcached) body" where
  "check_memcached C A =
     and_then the_inst (\<lambda>i.
     and_then (cluster (ap_GetMemcachedByName A (sp_memcachedInstance (hz_spec i)) (hz_namespace i)))
       (\<lambda>got.
       case got of
         Inl err \<Rightarrow>
           if is_not_found err
           then fail_with C MemcachedReady ErrorReason SeverityWarning
                  (Msg ''MemcachedReadyWaitingMessage'' []) (requeue_in 10, None)
           else fail_with C MemcachedReady ErrorReason SeverityWarning
                  (Msg ''MemcachedReadyErrorMessage'' [MErr err]) (res0, Some err)
       | Inr mc \<Rightarrow>
           if \<not> mc_IsReady mc
           then fail_with C MemcachedReady RequestedReason SeverityInfo
                  (Msg ''MemcachedReadyWaitingMessage'' []) (requeue_in 10, None)
           else and_then (mark_true C MemcachedReady ''MemcachedReadyMessage'') (\<lambda>_. next_with mc)))"

section \<open>TLS inputs\<close>

definition check_ca :: "cond_lib \<Rightarrow> env_lib \<Rightarrow> 'w api \<Rightarrow> ('w, unit) body" where
  "check_ca C K A =
     and_then the_inst (\<lambda>i. let ca = tls_caBundleSecretName (sp_tls (hz_spec i)) in
       if ca \<noteq> ''''
       then and_then (cluster (ap_ValidateCACertSecret A ca (hz_namespace i))) (\<lambda>got.
            case got of
              Inl err \<Rightarrow>
                if is_not_found err
                then fail_with C TLSInputReady ErrorReason SeverityWarning
                       (Msg ''TLSInputReadyWaitingMessage'' [MStr ca]) (res0, None)
                else fail_with C TLSInputReady ErrorReason SeverityWarning
                       (Msg ''TLSInputErrorMessage'' [MErr err]) (res0, Some err)
            | Inr hash \<Rightarrow> if hash \<noteq> '''' then set_var (el_CABundleKey K) hash else next_with ())
       else next_with ())"

definition check_cert :: "cond_lib \<Rightarrow> env_lib \<Rightarrow> 'w api \<Rightarrow> ('w, unit) body" where
  "check_cert C K A =
     and_then the_inst (\<lambda>i.
       if tls_enabled K i
       then and_then (cluster (ap_ValidateCertSecret A (sp_tls (hz_spec i)) (hz_namespace i))) (\<lambda>got.
            case got of
              Inl err \<Rightarrow>
                if is_not_found err
                then fail_with C TLSInputReady RequestedReason SeverityInfo
                       (Msg ''TLSInputReadyWaitingMessage'' [MErr err]) (res0, None)
                else fail_with C TLSInputReady ErrorReason SeverityWarning
                       (Msg ''TLSInputErrorMessage'' [MErr err]) (res0, Some err)
            | Inr hash \<Rightarrow> set_var (el_TLSHashName K) hash)
       else next_with ())"

definition check_tls :: "cond_lib \<Rightarrow> env_lib \<Rightarrow> 'w api \<Rightarrow> ('w, unit) body" where
  "check_tls C K A =
     and_then (check_ca C K A) (\<lambda>_.
     and_then (check_cert C K A) (\<lambda>_.
     mark_true C TLSInputReady ''InputReadyMessage''))"

section \<open>The order of the deciding stages\<close>

text \<open>
  The conditions that Init creates and the stages decide one after the other. Before the
  stage that decides \<open>t\<close>, the earlier ones are True and this and the later ones Unknown; a
  pass may only end in a state where every decided condition is preceded by True ones.
\<close>

definition pipeline :: "ctype set" where
  "pipeline = {InputReady, MemcachedReady, TLSInputReady, ServiceConfigReady, CreateServiceReady,
     DeploymentReady}"

definition at_stage :: "ctype \<Rightarrow> 'w rstate \<Rightarrow> bool" where
  "at_stage t s \<longleftrightarrow>
     (\<forall>u \<in> pipeline. status_of (conds s) u = Some (if u < t then CTrue else CUnknown)) \<and>
     status_of (conds s) Ready = Some CUnknown"

definition staircase :: "conditions \<Rightarrow> bool" where
  "staircase cs \<longleftrightarrow>
     (\<forall>u \<in> pipeline. status_of cs u \<noteq> None) \<and>
     (\<forall>u \<in> pipeline. \<forall>v \<in> pipeline. u < v \<longrightarrow> status_of cs v \<noteq> Some CUnknown \<longrightarrow>
        status_of cs u = Some CTrue)"

definition halted :: "'w rstate \<Rightarrow> bool" where
  "halted s \<longleftrightarrow> staircase (conds s) \<and> status_of (conds s) Ready = Some CUnknown"

text \<open>\<open>t'\<close> is the deciding stage right after \<open>t\<close>.\<close>

definition next_stage :: "ctype \<Rightarrow> ctype \<Rightarrow> bool" where
  "next_stage t t' \<longleftrightarrow> t \<in> pipeline \<and> t < t' \<and> (\<forall>u \<in> pipeline. t < u \<longrightarrow> t' \<le> u)"

lemma ctype_less_simps [simp]:
  "ctype_pos t \<noteq> 12 \<or> ctype_pos u \<noteq> 12 \<Longrightarrow> t < u \<longleftrightarrow> ctype_pos t < ctype_pos u"
  by (cases t; cases u) (auto simp: less_ctype_def ctype_key_def less_prod_def)

lemma next_stage_table:
  "next_stage InputReady MemcachedReady" "next_stage MemcachedReady TLSInputReady"
  "next_stage TLSInputReady ServiceConfigReady" "next_stage ServiceConfigReady CreateServiceReady"
  "next_stage CreateServiceReady DeploymentReady" "next_stage DeploymentReady Ready"
  by (simp_all add: next_stage_def pipeline_def flip: not_less)

lemma pipeline_not_Ready: "t \<in> pipeline \<Longrightarrow> t \<noteq> Ready"
  by (auto simp: pipeline_def)

lemma at_stage_cong: "conds s' = conds s \<Longrightarrow> at_stage t s' \<longleftrightarrow> at_stage t s"
  by (simp add: at_stage_def)

lemma at_stage_halted:
  assumes "at_stage t s"
  shows "halted s"
proof -
  have "staircase (conds s)"
    unfolding staircase_def
  proof (intro conjI ballI impI)
    show "status_of (conds s) u \<noteq> None" if "u \<in> pipeline" for u
      using assms that by (simp add: at_stage_def)
  next
    fix u v
    assume u: "u \<in> pipeline" and v: "v \<in> pipeline" and "u < v"
      and dec: "status_of (conds s) v \<noteq> Some CUnknown"
    from dec v assms have "v < t" by (auto simp: at_stage_def split: if_splits)
    with \<open>u < v\<close> have "u < t" by (rule less_trans)
    with u assms show "status_of (conds s) u = Some CTrue" by (simp add: at_stage_def)
  qed
  with assms show ?thesis by (simp add: halted_def at_stage_def)
qed

lemma at_stage_true:
  assumes "cond_laws C" and "at_stage t s" and "next_stage t t'"
    and "conds s' = cl_set C (conds s) (cl_true C t m)"
  shows "at_stage t' s'"
  unfolding at_stage_def
proof (intro conjI ballI)
  fix u assume u: "u \<in> pipeline"
  have "u < t' \<longleftrightarrow> u < t \<or> u = t"
    using assms(3) u unfolding next_stage_def by (meson leD less_trans neq_iff)
  then show "status_of (conds s') u = Some (if u < t' then CTrue else CUnknown)"
    using assms u by (simp add: cond_simps at_stage_def)
next
  have "t \<noteq> Ready" using assms(3) pipeline_not_Ready by (auto simp: next_stage_def)
  then show "status_of (conds s') Ready = Some CUnknown"
    using assms by (simp add: cond_simps at_stage_def)
qed

lemma at_stage_decided:
  assumes "cond_laws C" and "at_stage t s" and "t \<in> pipeline" and "c_type c = t"
    and "conds s' = cl_set C (conds s) c"
  shows "halted s'"
proof -
  have st: "status_of (conds s') u = (if u = t then Some (c_status c) else status_of (conds s) u)" for u
    using assms by (simp add: cond_simps)
  have "staircase (conds s')"
    unfolding staircase_def
  proof (intro conjI ballI impI)
    show "status_of (conds s') u \<noteq> None" if "u \<in> pipeline" for u
      using assms(2) that by (simp add: st at_stage_def)
  next
    fix u v
    assume u: "u \<in> pipeline" and v: "v \<in> pipeline" and uv: "u < v"
      and dec: "status_of (conds s') v \<noteq> Some CUnknown"
    have "v \<le> t"
    proof (rule ccontr)
      assume "\<not> v \<le> t"
      then have "v \<noteq> t" and "\<not> v < t" by auto
      with v assms(2) dec st show False by (auto simp: at_stage_def)
    qed
    with uv have "u < t" by simp
    with u assms(2) st show "status_of (conds s') u = Some CTrue" by (auto simp: at_stage_def)
  qed
  moreover have "status_of (conds s') Ready = Some CUnknown"
    using st pipeline_not_Ready[OF assms(3)] assms(2) by (auto simp: at_stage_def)
  ultimately show ?thesis by (simp add: halted_def)
qed

text \<open>Conditions outside the pipeline may be set at any time.\<close>

lemma at_stage_side:
  assumes "cond_laws C" and "at_stage t s" and "c_type c \<notin> pipeline" and "c_type c \<noteq> Ready"
    and "conds s' = cl_set C (conds s) c"
  shows "at_stage t s'"
proof -
  have "u \<noteq> c_type c" if "u \<in> pipeline" for u using assms(3) that by auto
  with assms show ?thesis by (simp add: at_stage_def cond_simps)
qed

section \<open>Rules for stages\<close>

named_theorems stage_rules \<open>what the primitives do to the position in the pipeline\<close>

lemma triple_next [stage_rules]: "triple P (next_with x) (\<lambda>_. P) E"
  by (simp add: triple_def flow_simps)

lemma triple_return [stage_rules]: "triple (at_stage t) (return_with r) Q halted"
  by (simp add: triple_def flow_simps at_stage_halted)

lemma triple_panic [stage_rules]: "triple (at_stage t) (panic_with p) Q halted"
  by (simp add: triple_def flow_simps at_stage_halted)

lemma triple_the_inst [stage_rules]: "triple P the_inst (\<lambda>_. P) E"
  by (simp add: triple_def flow_simps)

lemma triple_cluster [stage_rules]: "triple (at_stage t) (cluster f) (\<lambda>_. at_stage t) E"
  by (auto simp: triple_def flow_simps at_stage_def conds_def split: prod.splits)

lemma triple_set_var [stage_rules]: "triple (at_stage t) (set_var k v) (\<lambda>_. at_stage t) E"
  by (auto simp: triple_def flow_simps at_stage_def conds_def)

lemma triple_mod_inst:
  assumes "\<And>h. conds_of (hz_status (f h)) = conds_of (hz_status h)"
  shows "triple (at_stage t) (mod_inst f) (\<lambda>_. at_stage t) E"
  using assms by (auto simp: triple_def flow_simps at_stage_def conds_def)

lemma triple_fail [stage_rules]:
  assumes "cond_laws C" and "t \<in> pipeline"
  shows "triple (at_stage t) (fail_with C t r v m ret) Q halted"
  unfolding triple_def fail_with_def set_cond_def
  by (auto simp: flow_simps conds_def intro!: at_stage_decided[OF assms(1) _ assms(2)]
      cond_type_laws(2)[OF assms(1)])

lemma triple_mark [stage_rules]:
  assumes "cond_laws C" and "next_stage t t'"
  shows "triple (at_stage t) (mark_true C t m) (\<lambda>_. at_stage t') E"
  unfolding triple_def mark_true_def
  by (auto simp: flow_simps conds_def cond_list_laws[OF assms(1)]
      intro!: at_stage_true[OF assms(1) _ assms(2)])

lemma triple_if [stage_rules]:
  assumes "b \<Longrightarrow> triple P m Q E" and "\<not> b \<Longrightarrow> triple P n Q E"
  shows "triple P (if b then m else n) Q E"
  using assms by simp

lemma triple_sum [stage_rules]:
  assumes "\<And>a. x = Inl a \<Longrightarrow> triple P (f a) Q E" and "\<And>b. x = Inr b \<Longrightarrow> triple P (g b) Q E"
  shows "triple P (case x of Inl a \<Rightarrow> f a | Inr b \<Rightarrow> g b) Q E"
  using assms by (simp split: sum.split)

lemma triple_option [stage_rules]:
  assumes "x = None \<Longrightarrow> triple P f Q E" and "\<And>b. x = Some b \<Longrightarrow> triple P (g b) Q E"
  shows "triple P (case x of None \<Rightarrow> f | Some b \<Rightarrow> g b) Q E"
  using assms by (simp split: option.split)

lemma triple_prod [stage_rules]:
  assumes "\<And>a b. x = (a, b) \<Longrightarrow> triple P (f a b) Q E"
  shows "triple P (case x of (a, b) \<Rightarrow> f a b) Q E"
  using assms by (simp split: prod.split)

lemma triple_call:
  assumes "triple P m Q Q'" and "\<And>r s. Q r s \<Longrightarrow> R r s" and "\<And>r s. Q' s \<Longrightarrow> R r s"
    and "\<And>s. Q' s \<Longrightarrow> E s"
  shows "triple P (call_proc m) R E"
  using assms unfolding triple_def
  by (fastforce simp: flow_simps split: prod.splits flow.splits)

section \<open>The contract of a deciding stage\<close>

text \<open>
  A stage that decides \<open>t\<close> starts with the earlier conditions True, falls through only with
  its own condition True, and otherwise leaves the pass in a halted state.
\<close>

locale pipeline_stage =
  fixes run :: "cond_lib \<Rightarrow> ('w, 'a) body" and t t' :: ctype
  assumes contract: "cond_laws C \<Longrightarrow> triple (at_stage t) (run C) (\<lambda>_. at_stage t') halted"
    and order: "next_stage t t'"
begin

lemma halts:
  assumes "cond_laws C" and "at_stage t s" and "run C s = (Return r, s')"
  shows "halted s'"
  using contract[OF assms(1)] assms(2,3) by (auto simp: triple_def)

lemma passes:
  assumes "cond_laws C" and "at_stage t s" and "run C s = (Next x, s')"
  shows "at_stage t' s'" and "status_of (conds s') t = Some CTrue"
proof -
  show "at_stage t' s'"
    using contract[OF assms(1)] assms(2,3) by (auto simp: triple_def)
  then show "status_of (conds s') t = Some CTrue"
    using order by (auto simp: at_stage_def next_stage_def)
qed

lemma before:
  assumes "cond_laws C" and "\<And>x. triple (at_stage t') (f x) Q halted"
  shows "triple (at_stage t) (and_then (run C) f) Q halted"
  using contract[OF assms(1)] assms(2) by (rule triple_and_then)

end

interpretation secret: pipeline_stage "\<lambda>C. check_secret C A" InputReady MemcachedReady for A
proof
  fix C assume C: "cond_laws C"
  have "triple (at_stage InputReady) (modify (\<lambda>s. s\<lparr>rs_vars := Map.empty\<rparr>)) (\<lambda>_. at_stage InputReady) halted"
    by (auto simp: triple_def flow_simps at_stage_def conds_def)
  then show "triple (at_stage InputReady) (check_secret C A) (\<lambda>_. at_stage MemcachedReady) halted"
    unfolding check_secret_def
    by (rule triple_and_then) (rule triple_and_then stage_rules C next_stage_table | simp add: pipeline_def)+
qed (rule next_stage_table)

interpretation memcached: pipeline_stage "\<lambda>C. check_memcached C A" MemcachedReady TLSInputReady for A
proof
  fix C assume C: "cond_laws C"
  show "triple (at_stage MemcachedReady) (check_memcached C A) (\<lambda>_. at_stage TLSInputReady) halted"
    unfolding check_memcached_def
    by (rule triple_and_then stage_rules C next_stage_table | simp add: pipeline_def)+
qed (rule next_stage_table)

interpretation tls: pipeline_stage "\<lambda>C. check_tls C K A" TLSInputReady ServiceConfigReady for K A
proof
  fix C assume C: "cond_laws C"
  have "triple (at_stage TLSInputReady) (check_ca C K A) (\<lambda>_. at_stage TLSInputReady) halted"
    unfolding check_ca_def Let_def
    by (rule triple_and_then stage_rules C next_stage_table | simp add: pipeline_def)+
  moreover have "triple (at_stage TLSInputReady) (check_cert C K A) (\<lambda>_. at_stage TLSInputReady) halted"
    unfolding check_cert_def
    by (rule triple_and_then stage_rules C next_stage_table | simp add: pipeline_def)+
  moreover have "triple (at_stage TLSInputReady) (mark_true C TLSInputReady ''InputReadyMessage'')
      (\<lambda>_. at_stage ServiceConfigReady) halted"
    by (intro stage_rules C next_stage_table)
  ultimately show "triple (at_stage TLSInputReady) (check_tls C K A)
      (\<lambda>_. at_stage ServiceConfigReady) halted"
    unfolding check_tls_def by (intro triple_and_then)
qed (rule next_stage_table)

end
