(* ===== verification/Reconcile_Config.thy ===== *)
theory Reconcile_Config
  imports Reconcile_Inputs
begin

text \<open>
  The configuration stage of reconcileNormal: the config maps rendered for the dashboard
  (generateServiceConfigMaps), the secret that holds its SECRET_KEY (ensureHorizonSecret),
  and the hash over all inputs (createHashOfInputHashes) that decides whether the pass goes
  on. Rendering of templates, hashing and password generation are calls of other packages.
\<close>

section \<open>Config maps\<close>

definition customData :: "horizon \<Rightarrow> smap" where
  "customData i = maps_copy
     (Map.empty(''9999_custom_settings.py'' \<mapsto> sp_customServiceConfig (hz_spec i)))
     (sp_defaultConfigOverwrite (hz_spec i))"

definition templateParameters ::
  "env_lib \<Rightarrow> horizon \<Rightarrow> memcached \<Rightarrow> string \<Rightarrow> go_url \<Rightarrow> string \<Rightarrow> param option" where
  "templateParameters K i mc authURL url =
     (let p0 = Map.empty(
            ''keystoneURL'' \<mapsto> PStr authURL,
            ''horizonEndpoint'' \<mapsto> PStr (st_endpoint (hz_status i)),
            ''horizonEndpointHost'' \<mapsto> PStr (u_Host url),
            ''memcachedServers'' \<mapsto> PStr (mc_serverListQuoted mc),
            ''memcachedTLS'' \<mapsto> PBool (mc_TLSSupport mc),
            ''ServerName'' \<mapsto> PStr (ServiceName @ ''.'' @ hz_namespace i @ ''.svc''),
            ''Port'' \<mapsto> PInt HorizonPort,
            ''TLS'' \<mapsto> PBool False,
            ''isPublicHTTPS'' \<mapsto> PBool (u_Scheme url = ''https''),
            ''LogFile'' \<mapsto> PStr LogFile);
          p1 = (if tls_enabled K i
                then p0(''TLS'' \<mapsto> PBool True,
                        ''Port'' \<mapsto> PInt HorizonPortTLS,
                        ''SSLCertificateFile'' \<mapsto> PStr (''/etc/pki/tls/certs/'' @ ServiceName @ ''.crt''),
                        ''SSLCertificateKeyFile'' \<mapsto> PStr (''/etc/pki/tls/private/'' @ ServiceName @ ''.key''))
                else p0)
      in if mc_MTLSSecret mc \<noteq> ''''
         then p1(''memcachedMTLS'' \<mapsto> PBool True,
                 ''memcachedAuthCa'' \<mapsto> PStr (el_CaMountPath K),
                 ''memcachedAuthCert'' \<mapsto> PStr (el_CertMountPath K),
                 ''memcachedAuthKey'' \<mapsto> PStr (el_KeyMountPath K))
         else p1)"

definition config_templates ::
  "env_lib \<Rightarrow> horizon \<Rightarrow> (string \<Rightarrow> param option) \<Rightarrow> config_template list" where
  "config_templates K i params =
     [\<lparr>tm_name = hz_name i @ ''-config-data'',
       tm_namespace = hz_namespace i,
       tm_type = TemplateTypeConfig,
       tm_instanceType = hz_kind i,
       tm_customData = customData i,
       tm_configOptions = params,
       tm_labels = el_GetLabels K i ServiceName,
       tm_commonTemplates = [''ssl.conf'']\<rparr>,
      \<lparr>tm_name = hz_name i @ ''-scripts'',
       tm_namespace = hz_namespace i,
       tm_type = TemplateTypeScripts,
       tm_instanceType = hz_kind i,
       tm_customData = Map.empty,
       tm_configOptions = Map.empty,
       tm_labels = el_GetLabels K i ServiceName,
       tm_commonTemplates = []\<rparr>]"

text \<open>A call that also updates configMapVars through the pointer it is given.\<close>

definition cluster_vars ::
  "(smap \<Rightarrow> 'w \<Rightarrow> (gerr option \<times> smap) \<times> 'w) \<Rightarrow> ('w rstate, gerr option, 'r) proc" where
  "cluster_vars f = (\<lambda>s. case f (rs_vars s) (rs_world s) of
     ((err, vars), w) \<Rightarrow> (Next err, s\<lparr>rs_world := w, rs_vars := vars\<rparr>))"

definition generateServiceConfigMaps ::
  "env_lib \<Rightarrow> 'w api \<Rightarrow> memcached \<Rightarrow> ('w rstate, gerr option, gerr option) proc" where
  "generateServiceConfigMaps K A mc =
     and_then the_inst (\<lambda>i.
     and_then (cluster (ap_GetKeystoneAPI A (hz_namespace i))) (\<lambda>got.
     case got of
       Inl err \<Rightarrow> return_with (Some err)
     | Inr keystoneAPI \<Rightarrow>
         (case ks_internalEndpoint keystoneAPI of
            Inl err \<Rightarrow> return_with (Some err)
          | Inr authURL \<Rightarrow>
              (case url_Parse (el_ip_literal K) (st_endpoint (hz_status i)) of
                 Inl err \<Rightarrow> return_with (Some err)
               | Inr url \<Rightarrow>
                   cluster_vars (ap_EnsureConfigMaps A
                     (config_templates K i (templateParameters K i mc authURL url)))))))"

section \<open>The SECRET_KEY\<close>

definition validateHorizonSecret :: "secret \<Rightarrow> bool" where
  "validateHorizonSecret scrt \<longleftrightarrow> length (map_get (sec_data scrt) ''horizon-secret'') \<noteq> 0"

definition secret_template :: "env_lib \<Rightarrow> horizon \<Rightarrow> string \<Rightarrow> config_template" where
  "secret_template K i secretKey =
     \<lparr>tm_name = ServiceName,
      tm_namespace = hz_namespace i,
      tm_type = TemplateTypeNone,
      tm_instanceType = '''',
      tm_customData = Map.empty(''horizon-secret'' \<mapsto> secretKey),
      tm_configOptions = Map.empty,
      tm_labels = el_GetLabels K i ServiceName,
      tm_commonTemplates = []\<rparr>"

text \<open>Whether a new key has to be generated, from what GetSecret returned.\<close>

definition needs_secret :: "gerr + secret \<times> string \<Rightarrow> bool" where
  "needs_secret got = (case got of
     Inl err \<Rightarrow> is_not_found err
   | Inr (scrt, _) \<Rightarrow> \<not> validateHorizonSecret scrt)"

definition ensureHorizonSecret ::
  "env_lib \<Rightarrow> 'w api \<Rightarrow> ('w rstate, gerr option, gerr option) proc" where
  "ensureHorizonSecret K A =
     and_then the_inst (\<lambda>i.
     and_then (cluster (ap_GetSecret A ServiceName (hz_namespace i))) (\<lambda>got.
     and_then (case got of
         Inl err \<Rightarrow> if \<not> is_not_found err then return_with (Some err) else next_with ()
       | Inr _ \<Rightarrow> next_with ()) (\<lambda>_.
     if needs_secret got
     then and_then (cluster (ap_GeneratePassword A 50)) (\<lambda>pw. case pw of
            Inl err \<Rightarrow> return_with (Some (Wrapped ''generating Horizon SECRET_KEY: %w'' [] err))
          | Inr secretKey \<Rightarrow> cluster_vars (ap_EnsureSecrets A [secret_template K i secretKey]))
     else next_with None)))"

section \<open>The input hash\<close>

text \<open>The map of hashes of a status; nil reads as empty.\<close>

definition hash_map :: "horizon_status \<Rightarrow> smap" where
  "hash_map st = (case st_hash st of None \<Rightarrow> Map.empty | Some m \<Rightarrow> m)"

definition createHashOfInputHashes ::
  "env_lib \<Rightarrow> ('w rstate, string \<times> bool \<times> gerr option, 'r) proc" where
  "createHashOfInputHashes K = (\<lambda>s.
     case el_ObjectHash K (pl_MergeEnvs (el_pod K) (rs_vars s)) of
       Inl err \<Rightarrow> (Next ('''', False, Some err), s)
     | Inr hash \<Rightarrow>
         (case el_SetHash K (hash_map (hz_status (rs_inst s))) (el_InputHashName K) hash of
            (hashMap, changed) \<Rightarrow>
              if changed
              then (Next (hash, True, None),
                    s\<lparr>rs_inst := upd_status (\<lambda>st. st\<lparr>st_hash := Some hashMap\<rparr>) (rs_inst s)\<rparr>)
              else (Next (hash, False, None), s)))"

section \<open>The stage\<close>

definition config_failed :: "cond_lib \<Rightarrow> gerr \<Rightarrow> ('w, 'a) body" where
  "config_failed C err =
     fail_with C ServiceConfigReady ErrorReason SeverityWarning
       (Msg ''ServiceConfigReadyErrorMessage'' [MErr err]) (res0, Some err)"

definition config_step :: "cond_lib \<Rightarrow> env_lib \<Rightarrow> 'w api \<Rightarrow> memcached \<Rightarrow> ('w, string) body" where
  "config_step C K A mc =
     and_then (call_proc (generateServiceConfigMaps K A mc)) (\<lambda>e1.
     case e1 of Some err \<Rightarrow> config_failed C err | None \<Rightarrow>
     and_then (call_proc (ensureHorizonSecret K A)) (\<lambda>e2.
     case e2 of Some err \<Rightarrow> config_failed C err | None \<Rightarrow>
     and_then (createHashOfInputHashes K) (\<lambda>(inputHash, hashChanged, e3).
     if e3 \<noteq> None \<or> hashChanged then return_with (res0, e3)
     else and_then (mark_true C ServiceConfigReady ''ServiceConfigReadyMessage'') (\<lambda>_.
          next_with inputHash))))"

section \<open>The stage keeps its place in the pipeline\<close>

lemma cluster_vars_apply [flow_simps]:
  "cluster_vars f s = (case f (rs_vars s) (rs_world s) of
     ((err, vars), w) \<Rightarrow> (Next err, s\<lparr>rs_world := w, rs_vars := vars\<rparr>))"
  by (simp add: cluster_vars_def)

lemma triple_cluster_vars: "triple (at_stage t) (cluster_vars f) (\<lambda>_. at_stage t) E"
  by (auto simp: triple_def flow_simps at_stage_def conds_def split: prod.splits)

lemma triple_return_any: "triple P (return_with r) Q P"
  by (simp add: triple_def flow_simps)

lemmas quiet_rules = triple_and_then triple_return_any triple_the_inst triple_cluster
  triple_cluster_vars triple_next triple_if triple_sum triple_option triple_prod

lemma quiet_generate:
  "triple (at_stage t) (generateServiceConfigMaps K A mc) (\<lambda>_. at_stage t) (at_stage t)"
  unfolding generateServiceConfigMaps_def by (rule quiet_rules)+

lemma quiet_secret: "triple (at_stage t) (ensureHorizonSecret K A) (\<lambda>_. at_stage t) (at_stage t)"
  unfolding ensureHorizonSecret_def by (rule quiet_rules)+

lemma triple_call_quiet:
  assumes "triple (at_stage t) m (\<lambda>_. at_stage t) (at_stage t)"
  shows "triple (at_stage t) (call_proc m) (\<lambda>_. at_stage t) halted"
  using assms by (rule triple_call) (auto intro: at_stage_halted)

lemma triple_hash: "triple (at_stage t) (createHashOfInputHashes K) (\<lambda>_. at_stage t) E"
  by (auto simp: triple_def createHashOfInputHashes_def at_stage_def conds_def conds_of_def
      split: sum.splits prod.splits)

interpretation config: pipeline_stage "\<lambda>C. config_step C K A mc" ServiceConfigReady CreateServiceReady
  for K A mc
proof
  fix C assume C: "cond_laws C"
  show "triple (at_stage ServiceConfigReady) (config_step C K A mc)
      (\<lambda>_. at_stage CreateServiceReady) halted"
    unfolding config_step_def config_failed_def
    by (rule triple_and_then triple_call_quiet quiet_generate quiet_secret triple_hash stage_rules C
        next_stage_table | simp add: pipeline_def)+
qed (rule next_stage_table)

section \<open>Results of the parts\<close>

lemma templateParameters_port:
  "templateParameters K i mc authURL url ''Port'' =
     Some (PInt (if tls_enabled K i then HorizonPortTLS else HorizonPort))"
  "templateParameters K i mc authURL url ''TLS'' = Some (PBool (tls_enabled K i))"
  by (simp_all add: templateParameters_def Let_def)

lemma templateParameters_endpoint:
  "templateParameters K i mc authURL url ''horizonEndpoint'' = Some (PStr (st_endpoint (hz_status i)))"
  "templateParameters K i mc authURL url ''horizonEndpointHost'' = Some (PStr (u_Host url))"
  "templateParameters K i mc authURL url ''isPublicHTTPS'' = Some (PBool (u_Scheme url = ''https''))"
  by (simp_all add: templateParameters_def Let_def)

text \<open>What SetHash promises: the name maps to the new hash, and "changed" says it did not before.\<close>

definition set_hash_law :: "env_lib \<Rightarrow> bool" where
  "set_hash_law K \<longleftrightarrow> (\<forall>m k h m' ch. el_SetHash K m k h = (m', ch) \<longrightarrow>
     (ch \<longleftrightarrow> m k \<noteq> Some h) \<and> (ch \<longrightarrow> m' = m(k \<mapsto> h)))"

lemma set_hashD:
  assumes "set_hash_law K" and "el_SetHash K m k h = (m', ch)"
  shows "ch \<longleftrightarrow> m k \<noteq> Some h" and "ch \<Longrightarrow> m' = m(k \<mapsto> h)"
  using assms unfolding set_hash_law_def by blast+

lemma createHash_unchanged:
  assumes "set_hash_law K" and "createHashOfInputHashes K s = (Next (hash, False, None), s')"
  shows "s' = s" and "hash_map (hz_status (rs_inst s)) (el_InputHashName K) = Some hash"
  using assms(2)
  by (auto simp: createHashOfInputHashes_def dest: set_hashD[OF assms(1)]
      split: sum.splits prod.splits if_splits)

lemma createHash_changed:
  assumes "set_hash_law K" and "createHashOfInputHashes K s = (Next (hash, True, None), s')"
  shows "hash_map (hz_status (rs_inst s')) (el_InputHashName K) = Some hash"
    and "hash_map (hz_status (rs_inst s)) (el_InputHashName K) \<noteq> Some hash"
    and "rs_world s' = rs_world s"
  using assms(2)
  by (auto simp: createHashOfInputHashes_def hash_map_def dest: set_hashD[OF assms(1)]
      split: sum.splits prod.splits if_splits)

end
