(* ===== verification/Reconcile_Service.thy ===== *)
theory Reconcile_Service
  imports Reconcile_Config
begin

text \<open>
  The service stage of reconcileNormal: the lookup of the Keystone services that switch
  dashboard panels on, and reconcileInit, which creates the Kubernetes service, records the
  public endpoint in the status and returns a result of its own. reconcileInit writes through
  the pointer to the service override of the spec; the model keeps that write.
\<close>

section \<open>Keystone services\<close>

definition keystoneServicesWatch :: "string list" where
  "keystoneServicesWatch = [''cloudkitty'', ''watcher'']"

fun keystone_loop :: "'w api \<Rightarrow> string \<Rightarrow> string list \<Rightarrow> smap \<Rightarrow> ('w, smap) body" where
  "keystone_loop A ns [] enabledServices = next_with enabledServices"
| "keystone_loop A ns (sv # svs) enabledServices =
     and_then (cluster (ap_GetKeystoneServiceWithName A sv ns)) (\<lambda>(keystoneService, err).
       if (case err of None \<Rightarrow> False | Some e \<Rightarrow> \<not> is_not_found e) then return_with (res0, err)
       else keystone_loop A ns svs
              (if keystoneService then enabledServices(sv \<mapsto> ''no'', sv \<mapsto> ''yes'')
               else enabledServices(sv \<mapsto> ''no'')))"

definition enabled_services :: "'w api \<Rightarrow> ('w, smap) body" where
  "enabled_services A =
     and_then the_inst (\<lambda>i. keystone_loop A (hz_namespace i) keystoneServicesWatch Map.empty)"

section \<open>reconcileInit\<close>

definition empty_override :: routed_override where
  "empty_override = \<lparr>ro_embedded = None, ro_spec = None, ro_endpointURL = None\<rparr>"

definition with_metadata :: "routed_override \<Rightarrow> routed_override" where
  "with_metadata o' = (if ro_embedded o' = None
     then o'\<lparr>ro_embedded := Some \<lparr>em_labels = Map.empty, em_annotations = Map.empty\<rparr>\<rparr> else o')"

text \<open>
  The override the pass works on, and the object after the nil checks: the override struct of
  the spec, when there is one, gets the metadata in place.
\<close>

definition svcOverride :: "horizon \<Rightarrow> routed_override" where
  "svcOverride i = with_metadata
     (case os_service (sp_override (hz_spec i)) of None \<Rightarrow> empty_override | Some o' \<Rightarrow> o')"

definition touch_override :: "horizon \<Rightarrow> horizon" where
  "touch_override i = (case os_service (sp_override (hz_spec i)) of
     None \<Rightarrow> i
   | Some o' \<Rightarrow> i\<lparr>hz_spec := (hz_spec i)\<lparr>sp_override :=
       (sp_override (hz_spec i))\<lparr>os_service := Some (with_metadata o')\<rparr>\<rparr>\<rparr>)"

definition servicePort :: "env_lib \<Rightarrow> horizon \<Rightarrow> service_port" where
  "servicePort K i =
     (let p = \<lparr>sport_name = ServiceName, sport_port = HorizonSvcPort, sport_targetPort = HorizonPort\<rparr>
      in if tls_enabled K i
         then p\<lparr>sport_port := HorizonSvcPortTLS, sport_targetPort := HorizonPortTLS\<rparr> else p)"

definition service_request :: "env_lib \<Rightarrow> horizon \<Rightarrow> smap \<Rightarrow> service_details" where
  "service_request K i serviceLabels =
     \<lparr>sd_name = ServiceName, sd_namespace = hz_namespace i, sd_labels = serviceLabels,
      sd_selector = serviceLabels, sd_ports = [servicePort K i]\<rparr>"

definition AddAnnotation :: "service \<Rightarrow> smap \<Rightarrow> service" where
  "AddAnnotation svc m = svc\<lparr>svc_annotations := svc_annotations svc @ [m]\<rparr>"

definition annotate_service :: "env_lib \<Rightarrow> service \<Rightarrow> service" where
  "annotate_service K svc =
     (let svc1 = AddAnnotation svc (Map.empty(el_AnnotationEndpointKey K \<mapsto> el_EndpointPublic K)) in
      if svc_type svc1 = ClusterIP
      then AddAnnotation svc1 (Map.empty(el_AnnotationIngressCreateKey K \<mapsto> ''true''))
      else let svc2 = AddAnnotation svc1 (Map.empty(el_AnnotationIngressCreateKey K \<mapsto> ''false'')) in
           if svc_type svc2 = LoadBalancer
           then AddAnnotation svc2 (Map.empty(el_AnnotationHostnameKey K \<mapsto> svc_hostname svc2))
           else svc2)"

definition endpoint_scheme :: "env_lib \<Rightarrow> horizon \<Rightarrow> protocol" where
  "endpoint_scheme K i = (if tls_enabled K i then ProtocolHTTPS else ProtocolHTTP)"

definition reconcileInit ::
  "cond_lib \<Rightarrow> env_lib \<Rightarrow> 'w api \<Rightarrow> smap \<Rightarrow> ('w, ret) body" where
  "reconcileInit C K A serviceLabels =
     and_then the_inst (\<lambda>i. let ov = svcOverride i in
     and_then (mod_inst touch_override) (\<lambda>_.
     case el_NewService K (service_request K i serviceLabels) 5 ov of
       Inl err \<Rightarrow>
         fail_with C CreateServiceReady ErrorReason SeverityWarning
           (Msg ''CreateServiceReadyErrorMessage'' [MErr err]) (res0, Some err)
     | Inr svc0 \<Rightarrow> let svc = annotate_service K svc0 in
         and_then (cluster (ap_ServiceCreateOrPatch A svc)) (\<lambda>(ctrlResult, err).
         case err of
           Some e \<Rightarrow>
             fail_with C CreateServiceReady ErrorReason SeverityWarning
               (Msg ''CreateServiceReadyErrorMessage'' [MErr e]) (ctrlResult, Some e)
         | None \<Rightarrow>
             if ctrlResult \<noteq> res0
             then fail_with C CreateServiceReady RequestedReason SeverityInfo
                    (Msg ''CreateServiceReadyRunningMessage'' []) (ctrlResult, None)
             else (case el_GetAPIEndpoint K svc (ro_endpointURL ov) (endpoint_scheme K i) '''' of
                     Inl e \<Rightarrow> return_with (res0, Some e)
                   | Inr apiEndpoint \<Rightarrow>
                       and_then (mark_true C CreateServiceReady ''CreateServiceReadyMessage'') (\<lambda>_.
                       and_then (mod_inst (upd_status (\<lambda>st. st\<lparr>st_endpoint := apiEndpoint\<rparr>))) (\<lambda>_.
                       next_with (res0, None)))))))"

text \<open>
  In the caller, which goes on only when reconcileInit returned no error and the zero result.
\<close>

definition service_step :: "cond_lib \<Rightarrow> env_lib \<Rightarrow> 'w api \<Rightarrow> smap \<Rightarrow> ('w, unit) body" where
  "service_step C K A serviceLabels =
     and_then (call_proc (reconcileInit C K A serviceLabels)) (\<lambda>(ctrlResult, err).
       if err \<noteq> None \<or> ctrlResult \<noteq> res0 then return_with (ctrlResult, err) else next_with ())"

text \<open>The labels of the pods and of the service.\<close>

definition service_labels :: "env_lib \<Rightarrow> horizon \<Rightarrow> smap" where
  "service_labels K i =
     Map.empty(pl_AppSelector (el_pod K) \<mapsto> ServiceName, el_OwnerSelector K \<mapsto> hz_name i)"

section \<open>How reconcileInit returns\<close>

text \<open>
  Its early returns carry an error or a nonzero result, and only the fall-through return
  carries neither; the caller therefore continues exactly after a fall through.
\<close>

lemma reconcileInit_return:
  assumes "reconcileInit C K A lbl s = (Return (r, e), s')"
  shows "e \<noteq> None \<or> r \<noteq> res0"
  using assms unfolding reconcileInit_def
  by (auto simp: flow_simps step_defs Let_def split: sum.splits prod.splits option.splits if_splits)

lemma reconcileInit_next:
  assumes "reconcileInit C K A lbl s = (Next x, s')"
  shows "x = (res0, None)"
  using assms unfolding reconcileInit_def
  by (auto simp: flow_simps step_defs Let_def split: sum.splits prod.splits option.splits if_splits)

lemma touch_override_frame [simp]:
  "hz_status (touch_override i) = hz_status i"
  "hz_name (touch_override i) = hz_name i"
  "hz_namespace (touch_override i) = hz_namespace i"
  "hz_kind (touch_override i) = hz_kind i"
  "hz_generation (touch_override i) = hz_generation i"
  "hz_finalizers (touch_override i) = hz_finalizers i"
  "hz_deletionTimestamp (touch_override i) = hz_deletionTimestamp i"
  by (simp_all add: touch_override_def split: option.split)

lemma with_metadata_idem [simp]: "with_metadata (with_metadata o') = with_metadata o'"
  by (simp add: with_metadata_def)

lemma touch_override_idem [simp]: "touch_override (touch_override i) = touch_override i"
  by (auto simp: touch_override_def split: option.splits)

section \<open>Its place in the pipeline\<close>

lemma triple_keystone: "triple (at_stage t) (keystone_loop A ns svs en) (\<lambda>_. at_stage t) halted"
proof (induction svs arbitrary: en)
  case Nil
  then show ?case by (simp add: triple_next)
next
  case (Cons sv svs)
  show ?case
    unfolding keystone_loop.simps by (rule triple_and_then stage_rules Cons.IH)+
qed

lemma triple_enabled: "triple (at_stage t) (enabled_services A) (\<lambda>_. at_stage t) halted"
  unfolding enabled_services_def by (rule triple_and_then triple_the_inst triple_keystone)+

lemma triple_init:
  assumes "cond_laws C"
  shows "triple (at_stage CreateServiceReady) (reconcileInit C K A lbl)
    (\<lambda>_. at_stage DeploymentReady) halted"
  unfolding reconcileInit_def Let_def
  by (rule triple_and_then stage_rules assms next_stage_table triple_mod_inst | simp add: pipeline_def conds_of_def)+

text \<open>The caller turns a return of reconcileInit into its own.\<close>

lemma service_step_Next:
  assumes "service_step C K A lbl s = (Next x, s')"
  shows "reconcileInit C K A lbl s = (Next (res0, None), s')"
  using assms reconcileInit_return reconcileInit_next unfolding service_step_def
  by (fastforce simp: flow_simps split: prod.splits flow.splits if_splits)

lemma service_step_other:
  assumes "service_step C K A lbl s = (f, s')" and "\<And>x. f \<noteq> Next x"
  shows "\<exists>f'. reconcileInit C K A lbl s = (f', s') \<and> (\<forall>x. f' \<noteq> Next x)"
  using assms unfolding service_step_def
  by (auto simp: flow_simps dest: reconcileInit_next split: prod.splits flow.splits if_splits)

interpretation service: pipeline_stage "\<lambda>C. service_step C K A lbl" CreateServiceReady DeploymentReady
  for K A lbl
proof
  fix C assume C: "cond_laws C"
  note init = triple_init[OF C, of K A lbl]
  show "triple (at_stage CreateServiceReady) (service_step C K A lbl) (\<lambda>_. at_stage DeploymentReady) halted"
    unfolding triple_def
  proof (intro allI impI)
    fix s :: "'a rstate"
    assume at: "at_stage CreateServiceReady s"
    obtain f s' where run: "service_step C K A lbl s = (f, s')" by (cases "service_step C K A lbl s")
    have res: "case reconcileInit C K A lbl s of (Next x, s') \<Rightarrow> at_stage DeploymentReady s'
        | (Return r, s') \<Rightarrow> halted s' | (Panic p, s') \<Rightarrow> halted s'"
      using init at by (simp add: triple_def)
    show "case service_step C K A lbl s of (Next x, s') \<Rightarrow> at_stage DeploymentReady s'
        | (Return r, s') \<Rightarrow> halted s' | (Panic p, s') \<Rightarrow> halted s'"
    proof (cases f)
      case (Next x)
      with run res service_step_Next[of C K A lbl s x s'] show ?thesis by simp
    next
      case (Return r)
      with run obtain f' where "reconcileInit C K A lbl s = (f', s')" "\<forall>x. f' \<noteq> Next x"
        using service_step_other by blast
      with Return run res show ?thesis by (cases f') auto
    next
      case (Panic p)
      with run obtain f' where "reconcileInit C K A lbl s = (f', s')" "\<forall>x. f' \<noteq> Next x"
        using service_step_other by blast
      with Panic run res show ?thesis by (cases f') auto
    qed
  qed
qed (rule next_stage_table)

section \<open>What the lookup of Keystone services yields\<close>

lemma keystone_loop_step:
  assumes "keystone_loop A ns (sv # svs) en s = (Next m, s')"
  obtains v t where "v = ''yes'' \<or> v = ''no''"
    and "keystone_loop A ns svs (en(sv \<mapsto> v)) t = (Next m, s')"
proof -
  obtain ks err w where get: "ap_GetKeystoneServiceWithName A sv ns (rs_world s) = ((ks, err), w)"
    by (metis surj_pair)
  with assms have "keystone_loop A ns svs (en(sv \<mapsto> (if ks then ''yes'' else ''no'')))
      (s\<lparr>rs_world := w\<rparr>) = (Next m, s')"
    by (auto simp: flow_simps split: if_splits)
  then show thesis by (rule that[rotated]) simp
qed

lemma keystone_loop_keys:
  assumes "keystone_loop A ns svs en s = (Next m, s')"
  shows "m k = en k \<and> k \<notin> set svs \<or> k \<in> set svs \<and> (m k = Some ''yes'' \<or> m k = Some ''no'')"
  using assms
proof (induction svs arbitrary: en s)
  case Nil
  then show ?case by (simp add: flow_simps)
next
  case (Cons sv svs)
  from Cons.prems obtain v t where v: "v = ''yes'' \<or> v = ''no''"
    and rest: "keystone_loop A ns svs (en(sv \<mapsto> v)) t = (Next m, s')"
    by (rule keystone_loop_step)
  from Cons.IH[OF rest] v show ?case by (auto split: if_splits)
qed

end
