(* ===== verification/Watches.thy ===== *)
theory Watches
  imports Reconcile_Service
begin

text \<open>
  What starts a pass: the field indexes, the watches and the functions that map an event on
  another object to the Horizon objects to reconcile (SetupWithManager, findObjectsForSrc,
  findObjectForSrc). Listing from the client cache is a parameter; \<open>list_law\<close> is what the
  client documents about namespace and field selectors.
\<close>

section \<open>Field indexes\<close>

definition passwordSecretField :: string where "passwordSecretField = ''.spec.secret''"
definition tlsField :: string where "tlsField = ''.spec.tls.secretName''"
definition caBundleSecretNameField :: string where
  "caBundleSecretNameField = ''.spec.tls.caBundleSecretName''"
definition topologyField :: string where "topologyField = ''.spec.topologyRef.Name''"

definition allWatchFields :: "string list" where
  "allWatchFields = [passwordSecretField, caBundleSecretNameField, tlsField, topologyField]"

definition index_secret :: "horizon \<Rightarrow> string list" where
  "index_secret cr = (if sp_secret (hz_spec cr) = '''' then [] else [sp_secret (hz_spec cr)])"

definition index_ca :: "horizon \<Rightarrow> string list" where
  "index_ca cr = (if tls_caBundleSecretName (sp_tls (hz_spec cr)) = '''' then []
     else [tls_caBundleSecretName (sp_tls (hz_spec cr))])"

definition index_tls :: "horizon \<Rightarrow> string list" where
  "index_tls cr = (case tls_secretName (sp_tls (hz_spec cr)) of None \<Rightarrow> [] | Some n \<Rightarrow> [n])"

definition index_topology :: "horizon \<Rightarrow> string list" where
  "index_topology cr = (case sp_topologyRef (hz_spec cr) of None \<Rightarrow> [] | Some r \<Rightarrow> [tr_name r])"

text \<open>The registrations of SetupWithManager, in order.\<close>

definition field_indexes :: "(string \<times> (horizon \<Rightarrow> string list)) list" where
  "field_indexes =
     [(passwordSecretField, index_secret), (caBundleSecretNameField, index_ca),
      (tlsField, index_tls), (topologyField, index_topology)]"

definition index_of :: "string \<Rightarrow> horizon \<Rightarrow> string list" where
  "index_of f cr = (case map_of field_indexes f of None \<Rightarrow> [] | Some ix \<Rightarrow> ix cr)"

section \<open>Mapping an event to requests\<close>

text \<open>The object of an event; a request names an object by namespace and name.\<close>

record src_object =
  src_name :: string
  src_namespace :: string

type_synonym request = "string \<times> string"

text \<open>r.List in a namespace, optionally with one field selector.\<close>

type_synonym hz_lister = "string \<Rightarrow> (string \<times> string) option \<Rightarrow> gerr + horizon list"

fun memcached_loop :: "src_object \<Rightarrow> horizon list \<Rightarrow> request list \<Rightarrow> request list" where
  "memcached_loop o' [] result = result"
| "memcached_loop o' (cr # crs) result =
     (if src_name o' = sp_memcachedInstance (hz_spec cr)
      then memcached_loop o' crs (result @ [(src_namespace o', hz_name cr)])
      else memcached_loop o' crs result)"

definition memcachedFn :: "hz_lister \<Rightarrow> src_object \<Rightarrow> request list" where
  "memcachedFn ls o' = (case ls (src_namespace o') None of
     Inl err \<Rightarrow> [] | Inr items \<Rightarrow> memcached_loop o' items [])"

text \<open>\<open>inSlice\<close> is util.StringInSlice.\<close>

fun nad_fn_loop ::
  "(string \<Rightarrow> string list \<Rightarrow> bool) \<Rightarrow> src_object \<Rightarrow> horizon list \<Rightarrow> request list \<Rightarrow> request list" where
  "nad_fn_loop inSlice o' [] result = result"
| "nad_fn_loop inSlice o' (cr # crs) result =
     (if inSlice (src_name o') (sp_networkAttachments (hz_spec cr))
      then nad_fn_loop inSlice o' crs (result @ [(hz_namespace cr, hz_name cr)])
      else nad_fn_loop inSlice o' crs result)"

definition nadFn :: "(string \<Rightarrow> string list \<Rightarrow> bool) \<Rightarrow> hz_lister \<Rightarrow> src_object \<Rightarrow> request list" where
  "nadFn inSlice ls o' = (case ls (src_namespace o') None of
     Inl err \<Rightarrow> [] | Inr items \<Rightarrow> nad_fn_loop inSlice o' items [])"

fun request_loop :: "horizon list \<Rightarrow> request list \<Rightarrow> request list" where
  "request_loop [] requests = requests"
| "request_loop (cr # crs) requests = request_loop crs (requests @ [(hz_namespace cr, hz_name cr)])"

definition keystoneServiceFn :: "hz_lister \<Rightarrow> src_object \<Rightarrow> request list" where
  "keystoneServiceFn ls o' = (case ls (src_namespace o') None of
     Inl err \<Rightarrow> []
   | Inr items \<Rightarrow>
       if src_name o' \<in> set keystoneServicesWatch then request_loop items [] else [])"

fun fields_loop :: "hz_lister \<Rightarrow> src_object \<Rightarrow> string list \<Rightarrow> request list \<Rightarrow> request list" where
  "fields_loop ls src [] requests = requests"
| "fields_loop ls src (field # rest) requests =
     (case ls (src_namespace src) (Some (field, src_name src)) of
        Inl err \<Rightarrow> requests
      | Inr items \<Rightarrow> fields_loop ls src rest (request_loop items requests))"

definition findObjectsForSrc :: "hz_lister \<Rightarrow> src_object \<Rightarrow> request list" where
  "findObjectsForSrc ls src = fields_loop ls src allWatchFields []"

definition findObjectForSrc :: "hz_lister \<Rightarrow> src_object \<Rightarrow> request list" where
  "findObjectForSrc ls src = (case ls (src_namespace src) None of
     Inl err \<Rightarrow> [] | Inr items \<Rightarrow> request_loop items [])"

section \<open>SetupWithManager\<close>

datatype kind =
    KHorizon | KService | KSecret | KConfigMap | KDeployment | KServiceAccount | KRole
  | KRoleBinding | KMemcached | KNetworkAttachmentDefinition | KKeystoneService | KTopology
  | KKeystoneAPI

datatype event_filter =
    AnyEvent | ResourceVersionChanged | GenerationChanged | KeystoneAPIStatusChanged

datatype mapper = MemcachedFn | NadFn | FindObjectsForSrc | KeystoneServiceFn | FindObjectForSrc

datatype watch = For kind | Owns kind | Watches kind mapper event_filter

definition controller_watches :: "watch list" where
  "controller_watches =
     [For KHorizon,
      Owns KService, Owns KSecret, Owns KConfigMap, Owns KDeployment, Owns KServiceAccount,
      Owns KRole, Owns KRoleBinding,
      Watches KMemcached MemcachedFn AnyEvent,
      Watches KNetworkAttachmentDefinition NadFn AnyEvent,
      Watches KSecret FindObjectsForSrc ResourceVersionChanged,
      Watches KKeystoneService KeystoneServiceFn AnyEvent,
      Watches KTopology FindObjectsForSrc GenerationChanged,
      Watches KKeystoneAPI FindObjectForSrc KeystoneAPIStatusChanged]"

text \<open>
  \<open>reg\<close> is IndexField of the manager and \<open>complete\<close> the controller builder; the first
  registration that fails ends the set-up.
\<close>

fun register_indexes ::
  "(string \<Rightarrow> (horizon \<Rightarrow> string list) \<Rightarrow> 'm \<Rightarrow> gerr option \<times> 'm)
   \<Rightarrow> (string \<times> (horizon \<Rightarrow> string list)) list \<Rightarrow> 'm \<Rightarrow> gerr option \<times> 'm" where
  "register_indexes reg [] m = (None, m)"
| "register_indexes reg ((f, ix) # fs) m = (case reg f ix m of
     (Some err, m') \<Rightarrow> (Some err, m')
   | (None, m') \<Rightarrow> register_indexes reg fs m')"

definition SetupWithManager ::
  "(string \<Rightarrow> (horizon \<Rightarrow> string list) \<Rightarrow> 'm \<Rightarrow> gerr option \<times> 'm)
   \<Rightarrow> (watch list \<Rightarrow> 'm \<Rightarrow> gerr option \<times> 'm) \<Rightarrow> 'm \<Rightarrow> gerr option \<times> 'm" where
  "SetupWithManager reg complete m = (case register_indexes reg field_indexes m of
     (Some err, m') \<Rightarrow> (Some err, m')
   | (None, m') \<Rightarrow> complete controller_watches m')"

section \<open>What the mappers compute\<close>

definition request_of :: "horizon \<Rightarrow> request" where
  "request_of h = (hz_namespace h, hz_name h)"

lemma memcached_loop_spec:
  "memcached_loop o' crs res = res @ map (\<lambda>h. (src_namespace o', hz_name h))
     (filter (\<lambda>h. src_name o' = sp_memcachedInstance (hz_spec h)) crs)"
  by (induction crs arbitrary: res) auto

lemma nad_fn_loop_spec:
  "nad_fn_loop inS o' crs res = res @ map request_of
     (filter (\<lambda>h. inS (src_name o') (sp_networkAttachments (hz_spec h))) crs)"
  by (induction crs arbitrary: res) (auto simp: request_of_def)

lemma request_loop_spec: "request_loop crs res = res @ map request_of crs"
  by (induction crs arbitrary: res) (auto simp: request_of_def)

lemma fields_loop_spec:
  assumes "\<And>f. f \<in> set fs \<Longrightarrow> ls (src_namespace src) (Some (f, src_name src)) = Inr (items f)"
  shows "fields_loop ls src fs res = res @ concat (map (\<lambda>f. map request_of (items f)) fs)"
  using assms by (induction fs arbitrary: res) (auto simp: request_loop_spec)

section \<open>An event source\<close>

text \<open>
  Listing answers from one set of objects: a namespace restricts to it, a field selector to
  the objects whose index function yields the value.
\<close>

definition list_law :: "hz_lister \<Rightarrow> horizon list \<Rightarrow> bool" where
  "list_law ls items \<longleftrightarrow>
     (\<forall>ns. ls ns None = Inr (filter (\<lambda>h. hz_namespace h = ns) items)) \<and>
     (\<forall>ns f v. f \<in> set allWatchFields \<longrightarrow>
        ls ns (Some (f, v)) = Inr (filter (\<lambda>h. hz_namespace h = ns \<and> v \<in> set (index_of f h)) items))"

text \<open>
  A mapper wakes exactly the objects of the event's namespace that depend on its source.
\<close>

locale event_source =
  fixes mapper :: "hz_lister \<Rightarrow> src_object \<Rightarrow> request list"
    and depends :: "horizon \<Rightarrow> string \<Rightarrow> bool"
  assumes exact: "list_law ls items \<Longrightarrow> set (mapper ls src) =
      request_of ` {h \<in> set items. hz_namespace h = src_namespace src \<and> depends h (src_name src)}"
begin

lemma wakes:
  assumes "list_law ls items" and "h \<in> set items" and "hz_namespace h = src_namespace src"
    and "depends h (src_name src)"
  shows "request_of h \<in> set (mapper ls src)"
  unfolding exact[OF assms(1)] using assms(2-4) by blast

lemma wakes_only:
  assumes "list_law ls items" and "(ns, nm) \<in> set (mapper ls src)"
  shows "ns = src_namespace src"
    and "\<exists>h \<in> set items. hz_name h = nm \<and> depends h (src_name src)"
proof -
  from assms(2) obtain h where "h \<in> set items" "hz_namespace h = src_namespace src"
    "depends h (src_name src)" "(ns, nm) = request_of h"
    unfolding exact[OF assms(1)] by blast
  then show "ns = src_namespace src" "\<exists>h \<in> set items. hz_name h = nm \<and> depends h (src_name src)"
    by (auto simp: request_of_def)
qed

end

definition uses_input :: "horizon \<Rightarrow> string \<Rightarrow> bool" where
  "uses_input h n \<longleftrightarrow>
     n \<noteq> '''' \<and> (sp_secret (hz_spec h) = n \<or> tls_caBundleSecretName (sp_tls (hz_spec h)) = n) \<or>
     tls_secretName (sp_tls (hz_spec h)) = Some n \<or>
     (\<exists>r. sp_topologyRef (hz_spec h) = Some r \<and> tr_name r = n)"

lemma index_values:
  "v \<in> set (index_secret h) \<longleftrightarrow> v \<noteq> '''' \<and> sp_secret (hz_spec h) = v"
  "v \<in> set (index_ca h) \<longleftrightarrow> v \<noteq> '''' \<and> tls_caBundleSecretName (sp_tls (hz_spec h)) = v"
  "v \<in> set (index_tls h) \<longleftrightarrow> tls_secretName (sp_tls (hz_spec h)) = Some v"
  "v \<in> set (index_topology h) \<longleftrightarrow> (\<exists>r. sp_topologyRef (hz_spec h) = Some r \<and> tr_name r = v)"
  by (cases "sp_topologyRef (hz_spec h)"; cases "tls_secretName (sp_tls (hz_spec h))";
      auto simp: index_secret_def index_ca_def index_tls_def index_topology_def)+

lemma index_of_fields:
  "index_of passwordSecretField = index_secret" "index_of caBundleSecretNameField = index_ca"
  "index_of tlsField = index_tls" "index_of topologyField = index_topology"
  by (rule ext; simp add: index_of_def field_indexes_def passwordSecretField_def tlsField_def
      caBundleSecretNameField_def topologyField_def)+

lemma index_of_watch_fields:
  "(\<exists>f \<in> set allWatchFields. v \<in> set (index_of f h)) \<longleftrightarrow> uses_input h v"
  by (auto simp: allWatchFields_def index_of_fields index_values uses_input_def)

interpretation memcached_source: event_source memcachedFn
  "\<lambda>h n. sp_memcachedInstance (hz_spec h) = n"
  by unfold_locales (auto simp: memcachedFn_def list_law_def memcached_loop_spec request_of_def)

interpretation nad_source: event_source "nadFn (\<lambda>x xs. x \<in> set xs)"
  "\<lambda>h n. n \<in> set (sp_networkAttachments (hz_spec h))"
  by unfold_locales (auto simp: nadFn_def list_law_def nad_fn_loop_spec)

interpretation keystone_service_source: event_source keystoneServiceFn
  "\<lambda>h n. n \<in> set keystoneServicesWatch"
  by unfold_locales (auto simp: keystoneServiceFn_def list_law_def request_loop_spec)

interpretation keystone_api_source: event_source findObjectForSrc "\<lambda>h n. True"
  by unfold_locales (auto simp: findObjectForSrc_def list_law_def request_loop_spec)

interpretation input_source: event_source findObjectsForSrc uses_input
proof
  fix ls items and src :: src_object
  assume l: "list_law ls items"
  let ?it = "\<lambda>f. filter (\<lambda>h. hz_namespace h = src_namespace src \<and> src_name src \<in> set (index_of f h)) items"
  have "findObjectsForSrc ls src = concat (map (\<lambda>f. map request_of (?it f)) allWatchFields)"
    unfolding findObjectsForSrc_def using l by (subst fields_loop_spec[of _ _ _ ?it]) (auto simp: list_law_def)
  then show "set (findObjectsForSrc ls src) =
      request_of ` {h \<in> set items. hz_namespace h = src_namespace src \<and> uses_input h (src_name src)}"
    unfolding index_of_watch_fields[symmetric] by auto
qed

end
