(* ===== verification/Reconcile_Network.thy ===== *)
theory Reconcile_Network
  imports Reconcile_Service
begin

text \<open>
  Network attachments in reconcileNormal: ensureNAD, which collects the network attachment
  definitions and builds the pod annotation, the caller's handling of its three results, and
  the later check that the pods have the expected interfaces.
\<close>

type_synonym nad_ret = "smap \<times> ctrl_result \<times> gerr option"

section \<open>ensureNAD\<close>

fun nad_loop ::
  "cond_lib \<Rightarrow> 'w api \<Rightarrow> string \<Rightarrow> string list \<Rightarrow> nad list \<Rightarrow> ('w rstate, nad list, nad_ret) proc" where
  "nad_loop C A ns [] nadList = next_with nadList"
| "nad_loop C A ns (netAtt # netAtts) nadList =
     and_then (cluster (ap_GetNADWithName A netAtt ns)) (\<lambda>got.
     case got of
       Inl err \<Rightarrow>
         if is_not_found err
         then fail_with C NetworkAttachmentsReady ErrorReason SeverityWarning
                (Msg ''NetworkAttachmentsReadyWaitingMessage'' [MStr netAtt])
                (Map.empty, requeue_in 10, None)
         else fail_with C NetworkAttachmentsReady ErrorReason SeverityWarning
                (Msg ''NetworkAttachmentsReadyErrorMessage'' [MErr err])
                (Map.empty, requeue_in 10, None)
     | Inr None \<Rightarrow> nad_loop C A ns netAtts nadList
     | Inr (Some n) \<Rightarrow> nad_loop C A ns netAtts (nadList @ [n]))"

definition ensureNAD ::
  "cond_lib \<Rightarrow> env_lib \<Rightarrow> 'w api \<Rightarrow> helper \<Rightarrow> string list \<Rightarrow> ('w rstate, nad_ret, nad_ret) proc" where
  "ensureNAD C K A hp nAttach =
     and_then (nad_loop C A (hp_before_namespace hp) nAttach []) (\<lambda>nadList.
     case el_EnsureNetworksAnnotation K nadList of
       Inl err \<Rightarrow> return_with (Map.empty, res0,
         Some (Wrapped ''failed create network annotation from %s: %w'' nAttach err))
     | Inr serviceAnnotations \<Rightarrow> next_with (serviceAnnotations, res0, None))"

text \<open>
  The caller: only the error is looked at before the condition is marked True and the pass
  goes on with the annotations it got.
\<close>

definition nad_step :: "cond_lib \<Rightarrow> env_lib \<Rightarrow> 'w api \<Rightarrow> helper \<Rightarrow> ('w, smap) body" where
  "nad_step C K A hp =
     and_then the_inst (\<lambda>i.
     and_then (call_proc (ensureNAD C K A hp (sp_networkAttachments (hz_spec i))))
       (\<lambda>(serviceAnnotations, ctrlResult, err).
     case err of
       Some e \<Rightarrow>
         and_then (mark_false C NetworkAttachmentsReady ErrorReason SeverityWarning
                     (Msg ''NetworkAttachmentsReadyErrorMessage'' [MErr e])) (\<lambda>_.
         return_with (ctrlResult, Some e))
     | None \<Rightarrow>
         and_then (mark_true C NetworkAttachmentsReady ''NetworkAttachmentsReadyMessage'') (\<lambda>_.
         next_with serviceAnnotations)))"

section \<open>Verification of the pods\<close>

definition ErrNetworkAttachmentConfig :: gerr where
  "ErrNetworkAttachmentConfig =
     StaticErr ''not all pods have interfaces with ips as configured in NetworkAttachments''"

text \<open>
  The replica count is read through a pointer: a nil pointer panics. Nothing is verified for
  a count of zero.
\<close>

definition verify_network :: "cond_lib \<Rightarrow> 'w api \<Rightarrow> smap \<Rightarrow> ('w, unit) body" where
  "verify_network C A serviceLabels =
     and_then the_inst (\<lambda>i.
     case sp_replicas (hz_spec i) of
       None \<Rightarrow> panic_with ''nil pointer dereference''
     | Some replicas \<Rightarrow>
         if replicas > 0
         then and_then (cluster (ap_VerifyNetworkStatus A (sp_networkAttachments (hz_spec i))
                serviceLabels (st_readyCount (hz_status i)))) (\<lambda>got.
              case got of
                Inl e \<Rightarrow>
                  (let err = Wrapped ''verifying API NetworkAttachments (%s) %w''
                               (sp_networkAttachments (hz_spec i)) e in
                   and_then (mark_false C NetworkAttachmentsReady ErrorReason SeverityWarning
                     (Msg ''NetworkAttachmentsReadyErrorMessage'' [MErr err])) (\<lambda>_.
                   return_with (res0, Some err)))
              | Inr (networkReady, networkAttachmentStatus) \<Rightarrow>
                  and_then (mod_inst (upd_status (\<lambda>st.
                      st\<lparr>st_networkAttachments := networkAttachmentStatus\<rparr>))) (\<lambda>_.
                  if networkReady
                  then mark_true C NetworkAttachmentsReady ''NetworkAttachmentsReadyMessage''
                  else (let err = Wrapped ''%w: %s'' (sp_networkAttachments (hz_spec i))
                                    ErrNetworkAttachmentConfig in
                        fail_with C NetworkAttachmentsReady ErrorReason SeverityWarning
                          (Msg ''NetworkAttachmentsReadyErrorMessage'' [MErr err]) (res0, Some err))))
         else next_with ())"

section \<open>The position in the pipeline is kept\<close>

text \<open>A condition outside the pipeline is set; the position stays.\<close>

lemma at_stage_set_side:
  assumes "cond_laws C" and "c_type c \<notin> pipeline" and "c_type c \<noteq> Ready" and "at_stage t s"
  shows "at_stage t (s\<lparr>rs_inst := status_cond (\<lambda>cs. cl_set C cs c) (rs_inst s)\<rparr>)"
  using assms(1,4,2,3) by (rule at_stage_side) (simp add: conds_def)

lemma triple_side:
  assumes "cond_laws C" and "u \<notin> pipeline" and "u \<noteq> Ready"
  shows "triple (at_stage t) (mark_true C u m) (\<lambda>_. at_stage t) E"
    and "triple (at_stage t) (mark_false C u r v msg) (\<lambda>_. at_stage t) E"
    and "triple (at_stage t) (set_cond C (cl_false C u r v msg)) (\<lambda>_. at_stage t) E"
  using assms
  by (simp_all add: triple_def step_defs flow_simps cond_list_laws(3,4) cond_type_laws at_stage_set_side)

lemma side_fail:
  assumes "cond_laws C" and "u \<notin> pipeline" and "u \<noteq> Ready"
  shows "triple (at_stage t) (fail_with C u r v msg ret) Q (at_stage t)"
  unfolding fail_with_def
  by (rule triple_and_then[OF triple_side(3)[OF assms] triple_return_any])

lemma nad_not_pipeline: "NetworkAttachmentsReady \<notin> pipeline" "NetworkAttachmentsReady \<noteq> Ready"
  by (simp_all add: pipeline_def)

lemma triple_nad_loop:
  assumes "cond_laws C"
  shows "triple (at_stage t) (nad_loop C A ns ats l) (\<lambda>_. at_stage t) (at_stage t)"
proof (induction ats arbitrary: l)
  case Nil
  then show ?case by (simp add: triple_next)
next
  case (Cons a ats)
  show ?case
    unfolding nad_loop.simps
    by (rule quiet_rules side_fail assms nad_not_pipeline Cons.IH)+
qed

lemma triple_ensureNAD:
  assumes "cond_laws C"
  shows "triple (at_stage t) (ensureNAD C K A hp ats) (\<lambda>_. at_stage t) (at_stage t)"
  unfolding ensureNAD_def by (rule triple_nad_loop quiet_rules assms)+

lemma triple_nad_step:
  assumes "cond_laws C"
  shows "triple (at_stage t) (nad_step C K A hp) (\<lambda>_. at_stage t) halted"
  unfolding nad_step_def
  by (rule triple_and_then triple_call_quiet triple_ensureNAD triple_side stage_rules assms nad_not_pipeline)+

lemma triple_verify:
  assumes "cond_laws C"
  shows "triple (at_stage t) (verify_network C A lbl) (\<lambda>_. at_stage t) halted"
  unfolding verify_network_def fail_with_def Let_def
  by (rule triple_and_then triple_side stage_rules assms nad_not_pipeline triple_mod_inst
      | simp add: conds_of_def)+

section \<open>A missing attachment does not stop the pass\<close>

text \<open>
  Where the lookup of a definition fails, the loop returns a requeue request, no error, and
  no annotations.
\<close>

lemma nad_loop_missing:
  assumes "ap_GetNADWithName A a ns (rs_world s) = (Inl err, w)"
  shows "\<exists>s'. nad_loop C A ns (a # ats) l s = (Return (Map.empty, requeue_in 10, None), s')
    \<and> rs_world s' = w"
  using assms by (auto simp: flow_simps step_defs)

lemma nad_loop_step:
  assumes "ap_GetNADWithName A a ns (rs_world s) = (Inr x, w)"
  shows "nad_loop C A ns (a # ats) l s =
    nad_loop C A ns ats (case x of None \<Rightarrow> l | Some n \<Rightarrow> l @ [n]) (s\<lparr>rs_world := w\<rparr>)"
  using assms by (cases x) (auto simp: flow_simps)

lemma nad_loop_return:
  assumes "nad_loop C A ns ats l s = (Return r, s')"
  shows "r = (Map.empty, requeue_in 10, None)"
  using assms
  by (induction ats arbitrary: l s)
    (auto simp: flow_simps step_defs split: prod.splits sum.splits option.splits if_splits)

lemma nad_loop_no_panic: "nad_loop C A ns ats l s \<noteq> (Panic p, s')"
  by (induction ats arbitrary: l s)
    (auto simp: flow_simps step_defs split: prod.splits sum.splits option.splits if_splits)

end
