(* ===== verification/Reconcile_Normal.thy ===== *)
theory Reconcile_Normal
  imports Reconcile_Network
begin

text \<open>
  The last stages of reconcileNormal (topology, Deployment, readiness) and the function
  itself, composed of all stages in the order of the source.
\<close>

section \<open>Topology\<close>

definition topology_step :: "cond_lib \<Rightarrow> env_lib \<Rightarrow> 'w api \<Rightarrow> smap \<Rightarrow> ('w, topology option) body" where
  "topology_step C K A serviceLabels =
     and_then the_inst (\<lambda>i.
     let defaultLabelSelector = el_GetLabelSelector K serviceLabels in
     and_then (cluster (ap_EnsureServiceTopology A (sp_topologyRef (hz_spec i))
       (st_lastAppliedTopology (hz_status i)) (hz_name i) defaultLabelSelector)) (\<lambda>got.
     case got of
       Inl err \<Rightarrow>
         fail_with C TopologyReady ErrorReason SeverityWarning
           (Msg ''TopologyReadyErrorMessage'' [MErr err])
           (res0, Some (Wrapped ''waiting for Topology requirements: %w'' [] err))
     | Inr tp \<Rightarrow>
         and_then
           (if sp_topologyRef (hz_spec i) \<noteq> None
            then and_then (mod_inst (upd_status (\<lambda>st.
                     st\<lparr>st_lastAppliedTopology := sp_topologyRef (hz_spec i)\<rparr>))) (\<lambda>_.
                 mark_true C TopologyReady ''TopologyReadyMessage'')
            else mod_inst (upd_status (\<lambda>st. st\<lparr>st_lastAppliedTopology := None\<rparr>))) (\<lambda>_.
         next_with tp)))"

section \<open>Update and upgrade tasks\<close>

definition reconcileUpdate :: "('w, ret) body" where
  "reconcileUpdate = next_with (res0, None)"

definition reconcileUpgrade :: "('w, ret) body" where
  "reconcileUpgrade = next_with (res0, None)"

definition update_steps :: "('w, unit) body" where
  "update_steps =
     and_then (call_proc reconcileUpdate) (\<lambda>(ctrlResult, err).
     if err \<noteq> None \<or> ctrlResult \<noteq> res0 then return_with (ctrlResult, err) else
     and_then (call_proc reconcileUpgrade) (\<lambda>(ctrlResult, err).
     if err \<noteq> None \<or> ctrlResult \<noteq> res0 then return_with (ctrlResult, err) else next_with ()))"

section \<open>Deployment\<close>

definition depl_failed :: "cond_lib \<Rightarrow> gerr \<Rightarrow> ctrl_result \<Rightarrow> ('w, 'a) body" where
  "depl_failed C err res =
     fail_with C DeploymentReady ErrorReason SeverityWarning
       (Msg ''DeploymentReadyErrorMessage'' [MErr err]) (res, Some err)"

definition deployment_step ::
  "cond_lib \<Rightarrow> env_lib \<Rightarrow> 'w api \<Rightarrow> string \<Rightarrow> smap \<Rightarrow> smap \<Rightarrow> smap \<Rightarrow> topology option \<Rightarrow> memcached
   \<Rightarrow> ('w, live_deployment) body" where
  "deployment_step C K A inputHash serviceLabels serviceAnnotations enabledServices tp mc =
     and_then the_inst (\<lambda>i.
     case Deployment (el_pod K) i inputHash serviceLabels serviceAnnotations enabledServices tp mc of
       Crash m \<Rightarrow> panic_with m
     | Error err \<Rightarrow> depl_failed C err res0
     | Value deplDef \<Rightarrow>
         and_then (cluster (ap_DeploymentCreateOrPatch A deplDef 5)) (\<lambda>((ctrlResult, err), deploy).
         case err of
           Some e \<Rightarrow> depl_failed C e ctrlResult
         | None \<Rightarrow>
             if ctrlResult \<noteq> res0
             then fail_with C DeploymentReady RequestedReason SeverityInfo
                    (Msg ''DeploymentReadyRunningMessage'' []) (ctrlResult, None)
             else and_then
                    (if ld_generation deploy = ld_observedGeneration deploy
                     then mod_inst (upd_status (\<lambda>st. st\<lparr>st_readyCount := ld_readyReplicas deploy\<rparr>))
                     else next_with ()) (\<lambda>_.
                  next_with deploy)))"

section \<open>Readiness\<close>

text \<open>
  The end of the pass: the condition of the Deployment, then Ready when every other condition
  is True.
\<close>

definition finish_step :: "cond_lib \<Rightarrow> env_lib \<Rightarrow> live_deployment \<Rightarrow> ('w, ret) body" where
  "finish_step C K deploy =
     and_then
       (if el_DeploymentIsReady K deploy
        then mark_true C DeploymentReady ''DeploymentReadyMessage''
        else set_cond C (cl_false C DeploymentReady RequestedReason SeverityInfo
               (Msg ''DeploymentReadyRunningMessage'' []))) (\<lambda>_.
     and_then the_inst (\<lambda>i.
     and_then
       (if cl_all_sub_true C (conds_of (hz_status i))
        then mark_true C Ready ''ReadyMessage'' else next_with ()) (\<lambda>_.
     next_with (res0, None))))"

section \<open>reconcileNormal\<close>

text \<open>The stages from the pods' labels on, as one continuation of the configuration stage.\<close>

definition rollout ::
  "cond_lib \<Rightarrow> env_lib \<Rightarrow> 'w api \<Rightarrow> helper \<Rightarrow> memcached \<Rightarrow> string \<Rightarrow> smap \<Rightarrow> ('w, ret) body" where
  "rollout C K A hp mc inputHash enabledServices =
     and_then the_inst (\<lambda>i. let serviceLabels = service_labels K i in
     and_then (service_step C K A serviceLabels) (\<lambda>_.
     and_then (nad_step C K A hp) (\<lambda>serviceAnnotations.
     and_then update_steps (\<lambda>_.
     and_then (topology_step C K A serviceLabels) (\<lambda>tp.
     and_then (deployment_step C K A inputHash serviceLabels serviceAnnotations enabledServices tp mc)
       (\<lambda>deploy.
     and_then (verify_network C A serviceLabels) (\<lambda>_.
     finish_step C K deploy)))))))"

definition reconcileNormal :: "cond_lib \<Rightarrow> env_lib \<Rightarrow> 'w api \<Rightarrow> helper \<Rightarrow> ('w, ret) body" where
  "reconcileNormal C K A hp =
     and_then (rbac_step C A) (\<lambda>_.
     and_then (check_secret C A) (\<lambda>_.
     and_then (check_memcached C A) (\<lambda>mc.
     and_then (check_tls C K A) (\<lambda>_.
     and_then (config_step C K A mc) (\<lambda>inputHash.
     and_then (enabled_services A) (\<lambda>enabledServices.
     rollout C K A hp mc inputHash enabledServices))))))"

section \<open>The end of the pipeline\<close>

text \<open>What the end of a pass leaves: a staircase, and Ready undecided or truthfully True.\<close>

definition ready_sound :: "conditions \<Rightarrow> bool" where
  "ready_sound cs \<longleftrightarrow> staircase cs \<and>
     (status_of cs Ready = Some CUnknown \<or>
      (status_of cs Ready = Some CTrue \<and> (\<forall>t. t \<noteq> Ready \<longrightarrow> status_of cs t \<in> {None, Some CTrue})))"

definition settled :: "'w rstate \<Rightarrow> bool" where
  "settled s \<longleftrightarrow> ready_sound (conds s)"

lemma halted_settled: "halted s \<Longrightarrow> settled s"
  by (simp add: halted_def settled_def ready_sound_def)

lemma topo_not_pipeline: "TopologyReady \<notin> pipeline" "TopologyReady \<noteq> Ready"
  by (simp_all add: pipeline_def)

lemma triple_topology:
  assumes "cond_laws C"
  shows "triple (at_stage t) (topology_step C K A lbl) (\<lambda>_. at_stage t) halted"
  unfolding topology_step_def fail_with_def Let_def
  by (rule triple_and_then triple_side stage_rules assms topo_not_pipeline triple_mod_inst
      | simp add: conds_of_def)+

lemma triple_update: "triple (at_stage t) update_steps (\<lambda>_. at_stage t) halted"
  unfolding update_steps_def reconcileUpdate_def reconcileUpgrade_def
  by (rule triple_and_then triple_call_quiet triple_next stage_rules)+

lemma triple_outcome [stage_rules]:
  assumes "\<And>d. x = Value d \<Longrightarrow> triple P (f d) Q E" and "\<And>e. x = Error e \<Longrightarrow> triple P (g e) Q E"
    and "\<And>m. x = Crash m \<Longrightarrow> triple P (h m) Q E"
  shows "triple P (case x of Value d \<Rightarrow> f d | Error e \<Rightarrow> g e | Crash m \<Rightarrow> h m) Q E"
  using assms by (simp split: outcome.split)

lemma triple_prod_fun [stage_rules]:
  assumes "\<And>a b. x = (a, b) \<Longrightarrow> triple P (f a b y) Q E"
  shows "triple P ((case x of (a, b) \<Rightarrow> f a b) y) Q E"
  using assms by (simp split: prod.split)

lemma triple_deployment:
  assumes "cond_laws C"
  shows "triple (at_stage DeploymentReady) (deployment_step C K A hash lbl ann en tp mc)
    (\<lambda>_. at_stage DeploymentReady) halted"
  unfolding deployment_step_def depl_failed_def
  by (rule triple_and_then stage_rules assms triple_mod_inst | simp add: pipeline_def conds_of_def)+

text \<open>After the Deployment was decided, only Ready is open.\<close>

lemma finish_decided:
  assumes C: "cond_laws C"
  shows "triple (at_stage DeploymentReady :: 'w rstate \<Rightarrow> bool)
    (if b then mark_true C DeploymentReady m
     else set_cond C (cl_false C DeploymentReady r v msg)) (\<lambda>_. halted) settled"
proof (rule triple_if)
  have "triple (at_stage DeploymentReady) (mark_true C DeploymentReady m) (\<lambda>_. at_stage Ready) settled"
    by (rule stage_rules C next_stage_table)+
  then show "triple (at_stage DeploymentReady) (mark_true C DeploymentReady m) (\<lambda>_. halted) settled"
    by (rule triple_weaken) (simp_all add: at_stage_halted)
next
  have "halted (s\<lparr>rs_inst := status_cond (\<lambda>cs. cl_set C cs (cl_false C DeploymentReady r v msg)) (rs_inst s)\<rparr>)"
    if "at_stage DeploymentReady s" for s :: "'w rstate"
    by (rule at_stage_decided[OF C that _ cond_type_laws(2)[OF C, of DeploymentReady r v msg]])
      (simp_all add: conds_def pipeline_def)
  then show "triple (at_stage DeploymentReady :: 'w rstate \<Rightarrow> bool) (set_cond C (cl_false C DeploymentReady r v msg)) (\<lambda>_. halted) settled"
    by (auto simp: triple_def set_cond_def flow_simps)
qed

lemma all_sub_status:
  assumes "others_true cs Ready" and "t \<noteq> Ready"
  shows "status_of cs t \<in> {None, Some CTrue}"
  using others_true_status[OF assms] by (cases "status_of cs t") auto

lemma staircase_ready:
  assumes "cond_laws C" and "staircase cs" and "c_type c = Ready"
  shows "staircase (cl_set C cs c)"
  using assms pipeline_not_Ready unfolding staircase_def by (auto simp: status_set[OF assms(1)])

lemma finish_settled:
  assumes C: "cond_laws C"
  shows "triple (at_stage DeploymentReady) (finish_step C K deploy) (\<lambda>_. settled) settled"
proof -
  have "triple halted
      (and_then the_inst (\<lambda>i.
       and_then (if cl_all_sub_true C (conds_of (hz_status i))
                 then mark_true C Ready ''ReadyMessage'' else next_with ()) (\<lambda>_.
       next_with (res0, None)))) (\<lambda>_. settled) settled"
    unfolding triple_def mark_true_def
    by (auto simp: flow_simps settled_def ready_sound_def conds_def halted_def cond_list_laws[OF C]
        cond_type_laws(3)[OF C] cond_status_laws[OF C] status_set[OF C] intro: staircase_ready[OF C]
        dest: all_sub_status)
  with finish_decided[OF C] show ?thesis
    unfolding finish_step_def by (rule triple_and_then)
qed

section \<open>The whole pass\<close>

lemma triple_exit:
  assumes "triple P m Q halted"
  shows "triple P m Q settled"
  using assms by (rule triple_weaken) (auto intro: halted_settled)

lemma rollout_settled:
  assumes C: "cond_laws C"
  shows "triple (at_stage CreateServiceReady) (rollout C K A hp mc hash en) (\<lambda>_. settled) settled"
  unfolding rollout_def Let_def
  by (rule triple_and_then triple_the_inst
      triple_exit[OF service.contract[OF C]] triple_exit[OF triple_nad_step[OF C]]
      triple_exit[OF triple_update] triple_exit[OF triple_topology[OF C]]
      triple_exit[OF triple_deployment[OF C]] triple_exit[OF triple_verify[OF C]]
      finish_settled[OF C])+

text \<open>From the first stage after role-based access to the end.\<close>

definition stages :: "cond_lib \<Rightarrow> env_lib \<Rightarrow> 'w api \<Rightarrow> helper \<Rightarrow> ('w, ret) body" where
  "stages C K A hp =
     and_then (check_secret C A) (\<lambda>_.
     and_then (check_memcached C A) (\<lambda>mc.
     and_then (check_tls C K A) (\<lambda>_.
     and_then (config_step C K A mc) (\<lambda>inputHash.
     and_then (enabled_services A) (\<lambda>enabledServices.
     rollout C K A hp mc inputHash enabledServices)))))"

lemma reconcileNormal_stages: "reconcileNormal C K A hp = and_then (rbac_step C A) (\<lambda>_. stages C K A hp)"
  by (simp add: reconcileNormal_def stages_def)

lemma stages_settled:
  assumes C: "cond_laws C"
  shows "triple (at_stage InputReady) (stages C K A hp) (\<lambda>_. settled) settled"
  unfolding stages_def
  by (rule triple_and_then triple_exit[OF secret.contract[OF C]] triple_exit[OF memcached.contract[OF C]]
      triple_exit[OF tls.contract[OF C]] triple_exit[OF config.contract[OF C]]
      triple_exit[OF triple_enabled] rollout_settled[OF C])+

end
