(* ===== verification/Reconcile_Loop.thy ===== *)
theory Reconcile_Loop
  imports Reconcile_Normal
begin

text \<open>
  The entry point of a pass (Reconcile): reading the object, initialising its conditions,
  deletion, and the deferred function that finally patches the object. How a pass ends is a
  value of \<open>pass_end\<close>; the object given to PatchInstance is part of it.
\<close>

section \<open>Deletion\<close>

definition reconcileDelete :: "env_lib \<Rightarrow> 'w api \<Rightarrow> helper \<Rightarrow> ('w, ret) body" where
  "reconcileDelete K A hp =
     and_then the_inst (\<lambda>i.
     and_then (cluster (ap_EnsureDeletedTopologyRef A
         (st_lastAppliedTopology (hz_status i)) (hz_name i))) (\<lambda>(ctrlResult, err).
     if err \<noteq> None then return_with (ctrlResult, err)
     else and_then (mod_inst (\<lambda>h.
            h\<lparr>hz_finalizers := el_RemoveFinalizer K (hz_finalizers h) (hp_GetFinalizer hp)\<rparr>)) (\<lambda>_.
          next_with (res0, None))))"

section \<open>The conditions of a pass\<close>

definition init_types :: "(ctype \<times> string) list" where
  "init_types =
     [(InputReady, ''InputReadyInitMessage''),
      (MemcachedReady, ''MemcachedReadyInitMessage''),
      (ServiceConfigReady, ''ServiceConfigReadyInitMessage''),
      (CreateServiceReady, ''CreateServiceReadyInitMessage''),
      (DeploymentReady, ''DeploymentReadyInitMessage''),
      (ServiceAccountReady, ''ServiceAccountReadyInitMessage''),
      (RoleReady, ''RoleReadyInitMessage''),
      (RoleBindingReady, ''RoleBindingReadyInitMessage''),
      (TLSInputReady, ''InputReadyInitMessage'')]"

definition init_list :: "cond_lib \<Rightarrow> conditions" where
  "init_list C = cl_create_list C
     (map (\<lambda>(t, m). cl_unknown C t InitReason (Msg m [])) init_types)"

section \<open>The body after the deferred function is registered\<close>

text \<open>
  The list \<open>cl\<close> is a local variable: Init has copied its entries into the status before the
  Topology condition is added to it.
\<close>

definition add_finalizer :: "env_lib \<Rightarrow> helper \<Rightarrow> ('w, bool) body" where
  "add_finalizer K hp =
     and_then the_inst (\<lambda>i.
     if is_zero_time (hz_deletionTimestamp i)
     then (case el_AddFinalizer K (hz_finalizers i) (hp_GetFinalizer hp) of (fs, added) \<Rightarrow>
            and_then (mod_inst (\<lambda>h. h\<lparr>hz_finalizers := fs\<rparr>)) (\<lambda>_. next_with added))
     else next_with False)"

definition init_status :: "cond_lib \<Rightarrow> ('w, unit) body" where
  "init_status C =
     and_then (mod_inst (status_cond (\<lambda>cs. cl_init C cs (init_list C)))) (\<lambda>_.
     mod_inst (\<lambda>h. upd_status (\<lambda>st. st\<lparr>st_observedGeneration := hz_generation h\<rparr>) h))"

definition init_hash :: "('w, unit) body" where
  "init_hash = mod_inst (upd_status (\<lambda>st.
     if st_hash st = None then st\<lparr>st_hash := Some Map.empty\<rparr> else st))"

definition reconcile_body ::
  "cond_lib \<Rightarrow> env_lib \<Rightarrow> 'w api \<Rightarrow> helper \<Rightarrow> bool \<Rightarrow> ('w, ret) body" where
  "reconcile_body C K A hp isNewInstance =
     and_then (init_status C) (\<lambda>_.
     and_then (add_finalizer K hp) (\<lambda>added.
     if added \<or> isNewInstance then return_with (res0, None)
     else
       and_then init_hash (\<lambda>_.
       and_then the_inst (\<lambda>i.
       let cl = (if sp_topologyRef (hz_spec i) \<noteq> None
                 then cl_set C (init_list C)
                        (cl_unknown C TopologyReady InitReason (Msg ''TopologyReadyInitMessage'' []))
                 else init_list C) in
       if \<not> is_zero_time (hz_deletionTimestamp i) then call_proc (reconcileDelete K A hp)
       else call_proc (reconcileNormal C K A hp)))))"

section \<open>Reconcile\<close>

datatype pass_end = NotPatched ret | Panicked string | Patched ret horizon

definition patch_object :: "cond_lib \<Rightarrow> conditions \<Rightarrow> horizon \<Rightarrow> horizon" where
  "patch_object C savedConditions i =
     (let i1 = status_cond (\<lambda>cs. cl_restore C cs savedConditions) i in
      if cl_is_unknown C (conds_of (hz_status i1)) Ready
      then status_cond (\<lambda>cs. cl_set C cs (cl_mirror C cs Ready)) i1 else i1)"

text \<open>The deferred function on a pass that did not panic.\<close>

definition deferred_patch ::
  "cond_lib \<Rightarrow> 'w api \<Rightarrow> conditions \<Rightarrow> ret \<Rightarrow> 'w rstate \<Rightarrow> pass_end \<times> 'w" where
  "deferred_patch C A savedConditions ret s =
     (let i = patch_object C savedConditions (rs_inst s) in
      case ap_PatchInstance A i (rs_world s) of
        (None, w) \<Rightarrow> (Patched ret i, w)
      | (Some err, w) \<Rightarrow> (Patched (fst ret, Some err) i, w))"

text \<open>The object a pass works on: nil conditions become an empty list.\<close>

definition start_object :: "horizon \<Rightarrow> horizon" where
  "start_object inst = (if st_conditions (hz_status inst) = None
     then upd_status (\<lambda>st. st\<lparr>st_conditions := Some []\<rparr>) inst else inst)"

definition Reconcile ::
  "cond_lib \<Rightarrow> env_lib \<Rightarrow> 'w api \<Rightarrow> string \<Rightarrow> string \<Rightarrow> 'w \<Rightarrow> pass_end \<times> 'w" where
  "Reconcile C K A nm ns w =
     (case ap_Get A nm ns w of
        (Inl err, w1) \<Rightarrow> (NotPatched (res0, if is_not_found err then None else Some err), w1)
      | (Inr inst, w1) \<Rightarrow>
          (case ap_NewHelper A inst w1 of
             (Inl err, w2) \<Rightarrow> (NotPatched (res0, Some err), w2)
           | (Inr hp, w2) \<Rightarrow>
               (let isNewInstance = (st_conditions (hz_status inst) = None);
                    savedConditions = conds_of (hz_status (start_object inst))
                in case reconcile_body C K A hp isNewInstance
                          \<lparr>rs_world = w2, rs_inst = start_object inst, rs_vars = Map.empty\<rparr> of
                     (Next ret, s) \<Rightarrow> deferred_patch C A savedConditions ret s
                   | (Return ret, s) \<Rightarrow> deferred_patch C A savedConditions ret s
                   | (Panic p, s) \<Rightarrow> (Panicked p, rs_world s))))"

section \<open>How a pass got to its end\<close>

text \<open>The state the body starts in, and the conditions saved for the deferred function.\<close>

definition start_state :: "horizon \<Rightarrow> 'w \<Rightarrow> 'w rstate" where
  "start_state inst w = \<lparr>rs_world = w, rs_inst = start_object inst, rs_vars = Map.empty\<rparr>"

definition saved_of :: "horizon \<Rightarrow> conditions" where
  "saved_of inst = conds_of (hz_status (start_object inst))"

definition is_new :: "horizon \<Rightarrow> bool" where
  "is_new inst = (st_conditions (hz_status inst) = None)"

lemma start_state_simps [simp]:
  "rs_world (start_state i w) = w" "rs_inst (start_state i w) = start_object i"
  "rs_vars (start_state i w) = Map.empty"
  by (simp_all add: start_state_def)

lemma Reconcile_got:
  assumes "ap_Get A nm ns w = (Inr inst, w1)" and "ap_NewHelper A inst w1 = (Inr hp, w2)"
  shows "Reconcile C K A nm ns w =
    (case reconcile_body C K A hp (is_new inst) (start_state inst w2) of
       (Next ret, s) \<Rightarrow> deferred_patch C A (saved_of inst) ret s
     | (Return ret, s) \<Rightarrow> deferred_patch C A (saved_of inst) ret s
     | (Panic p, s) \<Rightarrow> (Panicked p, rs_world s))"
  unfolding Reconcile_def start_state_def saved_of_def is_new_def Let_def by (simp add: assms)

lemma deferred_patch_eq:
  "deferred_patch C A saved r s = (case ap_PatchInstance A (patch_object C saved (rs_inst s)) (rs_world s) of
     (err, w) \<Rightarrow> (Patched (case err of None \<Rightarrow> r | Some x \<Rightarrow> (fst r, Some x)) (patch_object C saved (rs_inst s)), w))"
  by (auto simp: deferred_patch_def Let_def split: prod.split option.split)

lemma Reconcile_run:
  assumes "Reconcile C K A nm ns w = (e, w')"
  obtains (unread) r inst w1 err where "e = NotPatched r"
      and "ap_Get A nm ns w = (Inl err, w') \<or>
        ap_Get A nm ns w = (Inr inst, w1) \<and> ap_NewHelper A inst w1 = (Inl err, w')"
  | (run) inst w1 hp w2 f s where "ap_Get A nm ns w = (Inr inst, w1)"
      and "ap_NewHelper A inst w1 = (Inr hp, w2)"
      and "reconcile_body C K A hp (is_new inst) (start_state inst w2) = (f, s)"
      and "case f of Panic p \<Rightarrow> e = Panicked p \<and> w' = rs_world s
           | Next r \<Rightarrow> deferred_patch C A (saved_of inst) r s = (e, w')
           | Return r \<Rightarrow> deferred_patch C A (saved_of inst) r s = (e, w')"
proof (cases "ap_Get A nm ns w")
  case (Pair got w1)
  show thesis
  proof (cases got)
    case (Inl err)
    with assms Pair show thesis by (auto simp: Reconcile_def intro: unread)
  next
    case (Inr inst)
    obtain h w2 where hp: "ap_NewHelper A inst w1 = (h, w2)" by fastforce
    show thesis
    proof (cases h)
      case (Inl err)
      with assms Pair \<open>got = Inr inst\<close> hp show thesis by (auto simp: Reconcile_def intro: unread)
    next
      case (Inr hh)
      obtain f s where body: "reconcile_body C K A hh (is_new inst) (start_state inst w2) = (f, s)"
        by fastforce
      have "Reconcile C K A nm ns w = (e, w')" by (rule assms)
      then have "case f of Panic p \<Rightarrow> e = Panicked p \<and> w' = rs_world s
           | Next r \<Rightarrow> deferred_patch C A (saved_of inst) r s = (e, w')
           | Return r \<Rightarrow> deferred_patch C A (saved_of inst) r s = (e, w')"
        using Pair \<open>got = Inr inst\<close> hp Inr by (cases f) (auto simp: Reconcile_got body)
      with body show thesis using Pair \<open>got = Inr inst\<close> hp Inr by (auto intro: run)
    qed
  qed
qed

text \<open>
  What every body leaves behind holds of the pass: a contract of the body, however it ends,
  is a fact about the state the deferred function patches from.
\<close>

lemma Reconcile_ends:
  assumes "Reconcile C K A nm ns w = (e, w')"
    and "\<And>inst w1 hp w2. ap_Get A nm ns w = (Inr inst, w1) \<Longrightarrow> ap_NewHelper A inst w1 = (Inr hp, w2) \<Longrightarrow>
      triple (\<lambda>s. s = start_state inst w2) (reconcile_body C K A hp (is_new inst)) (\<lambda>_. Q inst) (Q inst)"
  obtains (unread) r inst w1 err where "e = NotPatched r"
      and "ap_Get A nm ns w = (Inl err, w') \<or>
        ap_Get A nm ns w = (Inr inst, w1) \<and> ap_NewHelper A inst w1 = (Inl err, w')"
  | (panicked) p inst w1 s where "e = Panicked p" and "ap_Get A nm ns w = (Inr inst, w1)"
      and "Q inst s" and "w' = rs_world s"
  | (patched) inst w1 s r err where "ap_Get A nm ns w = (Inr inst, w1)" and "Q inst s"
      and "ap_PatchInstance A (patch_object C (saved_of inst) (rs_inst s)) (rs_world s) = (err, w')"
      and "e = Patched (case err of None \<Rightarrow> r | Some x \<Rightarrow> (fst r, Some x))
                 (patch_object C (saved_of inst) (rs_inst s))"
  using assms(1)
proof (cases rule: Reconcile_run)
  case (unread r inst w1 err)
  then show thesis by (rule that(1))
next
  case (run inst w1 hp w2 f s)
  have "Q inst s"
    using assms(2)[OF run(1,2)] run(3) unfolding triple_def by (cases f) fastforce+
  show thesis
  proof (cases f)
    case (Panic p)
    with run \<open>Q inst s\<close> show thesis by (auto intro: that(2))
  qed (use run \<open>Q inst s\<close> in \<open>auto simp: deferred_patch_eq split: prod.splits intro: that(3)\<close>)
qed

section \<open>The state a pass starts its stages in\<close>

lemma init_list_view:
  assumes "cond_laws C"
  shows "map c_type (init_list C) = map fst init_types"
    and "\<And>t. t \<in> fst ` set init_types \<Longrightarrow> status_of (init_list C) t = Some CUnknown"
    and "cond_view (init_list C) Ready = None"
  using assms unfolding init_list_def init_types_def
  by (auto simp: cond_list_laws(1) cond_type_laws(1) cond_status_laws(1) status_of_def view_of_def)

lemma init_types_cases:
  "fst ` set init_types = pipeline \<union> {ServiceAccountReady, RoleReady, RoleBindingReady}"
  by (auto simp: init_types_def pipeline_def)

lemma status_after_init:
  assumes C: "cond_laws C"
  shows "t \<in> fst ` set init_types \<Longrightarrow> status_of (cl_init C cs (init_list C)) t = Some CUnknown"
    and "status_of (cl_init C cs (init_list C)) Ready = Some CUnknown"
proof -
  have d: "distinct (map c_type (init_list C))"
    by (simp add: init_list_view(1)[OF C]) (simp add: init_types_def)
  show "status_of (cl_init C cs (init_list C)) Ready = Some CUnknown"
    using cond_init(2)[OF C d init_list_view(3)[OF C]] .
  assume "t \<in> fst ` set init_types"
  then have u: "status_of (init_list C) t = Some CUnknown" by (rule init_list_view(2)[OF C])
  then have "cond_view (init_list C) t \<noteq> None" by (auto simp: status_of_def)
  from cond_init(1)[OF C d this] u
  show "status_of (cl_init C cs (init_list C)) t = Some CUnknown" by (simp add: status_of_def)
qed

section \<open>Role-based access keeps the fresh conditions\<close>

definition rbac_types :: "ctype set" where
  "rbac_types = {ServiceAccountReady, RoleReady, RoleBindingReady}"

text \<open>ReconcileRbac reports the three conditions of role-based access and no other.\<close>

definition rbac_reports :: "'w api \<Rightarrow> bool" where
  "rbac_reports A \<longleftrightarrow> (\<forall>ns nm rules w cs r w'.
     ap_ReconcileRbac A ns nm rules w = ((cs, r), w') \<longrightarrow> (\<forall>c \<in> set cs. c_type c \<in> rbac_types))"

definition fresh :: "horizon \<Rightarrow> bool" where
  "fresh h \<longleftrightarrow> (\<exists>cs. st_conditions (hz_status h) = Some cs \<and>
     (\<forall>t \<in> pipeline \<union> {Ready}. status_of cs t = Some CUnknown) \<and>
     (\<forall>t \<in> rbac_types. status_of cs t \<noteq> None))"

lemma fresh_stage: "fresh (rs_inst s) \<Longrightarrow> at_stage InputReady s"
  by (auto simp: fresh_def at_stage_def conds_def conds_of_def pipeline_def)

lemma fresh_halted: "fresh (rs_inst s) \<Longrightarrow> halted s"
  by (rule at_stage_halted[OF fresh_stage])

lemma rbac_type_outside: "t \<in> rbac_types \<Longrightarrow> t \<notin> pipeline \<union> {Ready}"
  by (auto simp: rbac_types_def pipeline_def)

lemma fresh_rbac_set:
  assumes C: "cond_laws C" and "fresh h" and t: "c_type c \<in> rbac_types"
  shows "fresh (RbacConditionsSet C h c)"
proof -
  from assms(2) obtain cs where cs: "st_conditions (hz_status h) = Some cs"
    and u: "\<forall>t \<in> pipeline \<union> {Ready}. status_of cs t = Some CUnknown"
    and p: "\<forall>t \<in> rbac_types. status_of cs t \<noteq> None"
    by (auto simp: fresh_def)
  from p t have "cond_view cs (c_type c) \<noteq> None" by (auto simp: status_of_def)
  then have st: "status_of (cl_set_shared C cs c) x =
      (if x = c_type c then Some (c_status c) else status_of cs x)" for x
    by (simp add: status_of_def cond_set_shared[OF C] cond_simps)
  have "x \<noteq> c_type c" if "x \<in> pipeline \<union> {Ready}" for x
    using rbac_type_outside[OF t] that by blast
  with st u p cs show ?thesis
    by (auto simp: fresh_def RbacConditionsSet_def)
qed

lemma fresh_rbac_fold:
  assumes "cond_laws C" and "fresh h" and "\<forall>c \<in> set cs. c_type c \<in> rbac_types"
  shows "fresh (fold (\<lambda>c h. RbacConditionsSet C h c) cs h)"
  using assms(2,3)
  by (induction cs arbitrary: h) (simp_all add: fresh_rbac_set[OF assms(1)])

lemma fresh_rbac:
  assumes "cond_laws C" and "rbac_reports A"
  shows "triple (\<lambda>s. fresh (rs_inst s)) (rbac_step C A) (\<lambda>_ s. fresh (rs_inst s)) (\<lambda>s. fresh (rs_inst s))"
proof -
  have "triple (\<lambda>s. fresh (rs_inst s)) (configureHorizonRbac C A) (\<lambda>_ s. fresh (rs_inst s)) (\<lambda>s. fresh (rs_inst s))"
    using assms fresh_rbac_fold
    unfolding triple_def configureHorizonRbac_def rbac_reports_def
    by (fastforce simp: flow_simps split: prod.splits)
  then have "triple (\<lambda>s. fresh (rs_inst s)) (call_proc (configureHorizonRbac C A))
      (\<lambda>_ s. fresh (rs_inst s)) (\<lambda>s. fresh (rs_inst s))"
    by (rule triple_call) auto
  then show ?thesis
    unfolding rbac_step_def
    by (rule triple_and_then) (auto simp: triple_def flow_simps split: prod.splits)
qed

lemma triple_rbac:
  assumes "cond_laws C" and "rbac_reports A"
  shows "triple (\<lambda>s. fresh (rs_inst s)) (rbac_step C A) (\<lambda>_. at_stage InputReady) halted"
  by (rule triple_weaken[OF fresh_rbac[OF assms]]) (auto intro: fresh_stage fresh_halted)

section \<open>The conditions at the end of a pass\<close>

text \<open>
  What a reader of the patched status may rely on: the conditions form a staircase, and Ready
  is True only when every other condition present is.
\<close>

definition truthful :: "conditions \<Rightarrow> bool" where
  "truthful cs \<longleftrightarrow> staircase cs \<and>
     (status_of cs Ready = Some CTrue \<longrightarrow>
        (\<forall>t. t \<noteq> Ready \<longrightarrow> status_of cs t \<in> {None, Some CTrue}) \<and>
        (\<forall>t \<in> pipeline. status_of cs t = Some CTrue))"

lemma truthfulI:
  assumes "staircase cs"
    and "status_of cs Ready = Some CTrue \<Longrightarrow> \<forall>t. t \<noteq> Ready \<longrightarrow> status_of cs t \<in> {None, Some CTrue}"
  shows "truthful cs"
  using assms pipeline_not_Ready unfolding truthful_def staircase_def
  by (metis empty_iff insert_iff)

lemma staircase_cong: "(\<And>t. status_of cs t = status_of ds t) \<Longrightarrow> staircase cs \<longleftrightarrow> staircase ds"
  by (simp add: staircase_def)

lemma patch_truthful:
  assumes C: "cond_laws C" and "ready_sound (conds_of (hz_status i))"
  shows "truthful (conds_of (hz_status (patch_object C saved i)))"
proof -
  let ?cs = "conds_of (hz_status i)"
  let ?ds = "cl_restore C ?cs saved"
  have st: "status_of ?ds t = status_of ?cs t" for t by (rule status_restore[OF C])
  then have stair: "staircase ?ds"
    using assms(2) staircase_cong[OF st] by (simp add: ready_sound_def)
  show ?thesis
  proof (cases "cl_is_unknown C ?ds Ready")
    case True
    let ?m = "cl_mirror C ?ds Ready"
    have m: "c_type ?m = Ready" by (rule cond_type_laws(4)[OF C])
    have "truthful (cl_set C ?ds ?m)"
    proof (rule truthfulI)
      show "staircase (cl_set C ?ds ?m)" using C stair m by (rule staircase_ready)
      assume "status_of (cl_set C ?ds ?m) Ready = Some CTrue"
      then have "others_true ?ds Ready"
        by (intro cond_mirror_true[OF C]) (simp add: status_set[OF C] m)
      then show "\<forall>t. t \<noteq> Ready \<longrightarrow> status_of (cl_set C ?ds ?m) t \<in> {None, Some CTrue}"
        using all_sub_status by (simp add: status_set[OF C] m)
    qed
    with True show ?thesis by (simp add: patch_object_def Let_def)
  next
    case False
    then have "status_of ?cs Ready \<noteq> Some CUnknown" by (simp add: cond_list_laws(7)[OF C] st)
    with assms(2) have "truthful ?ds"
      by (intro truthfulI[OF stair]) (auto simp: ready_sound_def st)
    with False show ?thesis by (simp add: patch_object_def Let_def)
  qed
qed

section \<open>The body settles the conditions\<close>

lemma triple_init_status:
  assumes "cond_laws C"
  shows "triple P (init_status C) (\<lambda>_ s. fresh (rs_inst s)) E"
proof -
  have "fresh (upd_status (\<lambda>st. st\<lparr>st_observedGeneration := g\<rparr>)
      (status_cond (\<lambda>cs. cl_init C cs (init_list C)) h))" for h g
    using status_after_init[OF assms]
    by (auto simp: fresh_def status_cond_def upd_status_def init_types_cases rbac_types_def)
  then show ?thesis by (simp add: triple_def init_status_def flow_simps)
qed

lemma triple_add_finalizer:
  "triple (\<lambda>s. fresh (rs_inst s)) (add_finalizer K hp) (\<lambda>_ s. fresh (rs_inst s)) E"
  by (auto simp: triple_def add_finalizer_def flow_simps fresh_def split: prod.splits)

lemma triple_init_hash: "triple (\<lambda>s. fresh (rs_inst s)) init_hash (\<lambda>_ s. fresh (rs_inst s)) E"
  by (auto simp: triple_def init_hash_def flow_simps fresh_def)

lemma triple_delete:
  "triple (\<lambda>s. fresh (rs_inst s)) (reconcileDelete K A hp) (\<lambda>_ s. fresh (rs_inst s)) (\<lambda>s. fresh (rs_inst s))"
  by (auto simp: triple_def reconcileDelete_def flow_simps fresh_def split: prod.splits)

lemma triple_normal:
  assumes "cond_laws C" and "rbac_reports A"
  shows "triple (\<lambda>s. fresh (rs_inst s)) (reconcileNormal C K A hp) (\<lambda>_. settled) settled"
  unfolding reconcileNormal_stages
  by (rule triple_and_then[OF triple_exit[OF triple_rbac[OF assms]] stages_settled[OF assms(1)]])

lemma body_settled:
  assumes "cond_laws C" and "rbac_reports A"
  shows "triple P (reconcile_body C K A hp new) (\<lambda>_. settled) settled"
proof -
  have fresh_settled: "fresh (rs_inst s) \<Longrightarrow> settled s" for s :: "'w rstate"
    by (simp add: fresh_halted halted_settled)
  have del: "triple (\<lambda>s. fresh (rs_inst s)) (call_proc (reconcileDelete K A hp)) (\<lambda>_. settled) settled"
    by (rule triple_call[OF triple_delete]) (auto intro: fresh_settled)
  have norm: "triple (\<lambda>s. fresh (rs_inst s)) (call_proc (reconcileNormal C K A hp)) (\<lambda>_. settled) settled"
    by (rule triple_call[OF triple_normal[OF assms]]) auto
  have ret: "triple (\<lambda>s. fresh (rs_inst s)) (return_with r) Q settled" for r and Q :: "_ \<Rightarrow> 'w rstate \<Rightarrow> bool"
    by (simp add: triple_def flow_simps fresh_settled)
  show ?thesis
    unfolding reconcile_body_def Let_def
    by (rule triple_and_then triple_init_status[OF assms(1)] triple_add_finalizer triple_if ret
        triple_init_hash triple_the_inst del norm)+
qed

end
