(* ===== verification/Pass_Frame.thy ===== *)
theory Pass_Frame
  imports Reconcile_Loop
begin

text \<open>
  What a pass leaves alone. \<open>core_rel\<close> relates the Horizon object before and after a stage:
  its identity, finalizers and generation are those it had, its spec is the one it had, up to
  the metadata that reconcileInit adds to a service override, and so is the stored hash map,
  which only createHashOfInputHashes writes. The relation is lifted to procedures by an
  interpretation of \<open>frame_rel\<close>.
\<close>

section \<open>The relation\<close>

definition touch_spec :: "horizon_spec \<Rightarrow> horizon_spec" where
  "touch_spec sp = (case os_service (sp_override sp) of
     None \<Rightarrow> sp
   | Some o' \<Rightarrow> sp\<lparr>sp_override := (sp_override sp)\<lparr>os_service := Some (with_metadata o')\<rparr>\<rparr>)"

lemma touch_override_spec: "hz_spec (touch_override h) = touch_spec (hz_spec h)"
  by (simp add: touch_override_def touch_spec_def split: option.split)

lemma touch_spec_idem [simp]: "touch_spec (touch_spec sp) = touch_spec sp"
  by (auto simp: touch_spec_def split: option.splits)

lemma touch_spec_frame [simp]:
  "sp_replicas (touch_spec sp) = sp_replicas sp" "sp_extraMounts (touch_spec sp) = sp_extraMounts sp"
  "sp_tls (touch_spec sp) = sp_tls sp" "sp_topologyRef (touch_spec sp) = sp_topologyRef sp"
  "sp_networkAttachments (touch_spec sp) = sp_networkAttachments sp"
  "sp_containerImage (touch_spec sp) = sp_containerImage sp"
  by (simp_all add: touch_spec_def split: option.split)

definition object_rel :: "horizon \<Rightarrow> horizon \<Rightarrow> bool" where
  "object_rel h k \<longleftrightarrow>
     hz_kind k = hz_kind h \<and> hz_name k = hz_name h \<and> hz_namespace k = hz_namespace h \<and>
     hz_generation k = hz_generation h \<and> hz_deletionTimestamp k = hz_deletionTimestamp h \<and>
     hz_finalizers k = hz_finalizers h \<and>
     st_observedGeneration (hz_status k) = st_observedGeneration (hz_status h) \<and>
     (hz_spec k = hz_spec h \<or> hz_spec k = touch_spec (hz_spec h))"

definition core_rel :: "horizon \<Rightarrow> horizon \<Rightarrow> bool" where
  "core_rel h k \<longleftrightarrow> object_rel h k \<and> st_hash (hz_status k) = st_hash (hz_status h)"

definition same_object :: "'w rstate \<Rightarrow> 'w rstate \<Rightarrow> bool" where
  "same_object s t \<longleftrightarrow> object_rel (rs_inst s) (rs_inst t)"

definition same_core :: "'w rstate \<Rightarrow> 'w rstate \<Rightarrow> bool" where
  "same_core s t \<longleftrightarrow> core_rel (rs_inst s) (rs_inst t)"

lemma object_rel_refl: "object_rel h h"
  by (simp add: object_rel_def)

lemma object_rel_trans: "object_rel h k \<Longrightarrow> object_rel k l \<Longrightarrow> object_rel h l"
  by (auto simp: object_rel_def)

interpretation obj: frame_rel same_object
  by unfold_locales (auto simp: same_object_def object_rel_refl intro: object_rel_trans)

interpretation core: frame_rel same_core
  by unfold_locales (auto simp: same_core_def core_rel_def object_rel_refl intro: object_rel_trans)

lemma keeps_mono: "keeps R m \<Longrightarrow> (\<And>s t. R s t \<Longrightarrow> R' s t) \<Longrightarrow> keeps R' m"
  by (auto simp: keeps_def)

lemma core_object: "keeps same_core m \<Longrightarrow> keeps same_object m"
  by (erule keeps_mono) (simp add: same_core_def same_object_def core_rel_def)

section \<open>The primitives\<close>

named_theorems frame_rules \<open>procedures that keep the core of the object\<close>

declare core.keeps_next [frame_rules] core.keeps_return [frame_rules] core.keeps_panic [frame_rules]
  core.keeps_and_then [frame_rules] core.keeps_call [frame_rules]

lemma keeps_the_inst [frame_rules]: "keeps same_core the_inst"
  unfolding the_inst_def by (rule core.keeps_get)

lemma keeps_cluster [frame_rules]: "keeps same_core (cluster f)"
  by (auto simp: keeps_def cluster_def same_core_def core_rel_def object_rel_refl split: prod.split)

lemma keeps_cluster_vars [frame_rules]: "keeps same_core (cluster_vars f)"
  by (auto simp: keeps_def cluster_vars_def same_core_def core_rel_def object_rel_refl split: prod.split)

lemma keeps_set_var [frame_rules]: "keeps same_core (set_var k v)"
  by (simp add: keeps_def set_var_def modify_def same_core_def core_rel_def object_rel_refl)

lemma keeps_clear_vars [frame_rules]: "keeps same_core (modify (\<lambda>s. s\<lparr>rs_vars := m\<rparr>))"
  by (simp add: keeps_def modify_def same_core_def core_rel_def object_rel_refl)

lemma keeps_mod_inst:
  assumes "\<And>h. core_rel h (f h)"
  shows "keeps same_core (mod_inst f)"
  using assms by (simp add: keeps_def mod_inst_def modify_def same_core_def)

lemma core_status_cond: "core_rel h (status_cond f h)"
  by (simp add: core_rel_def object_rel_def)

lemma keeps_conds [frame_rules]:
  "keeps same_core (set_cond C c)" "keeps same_core (mark_true C t m)"
  "keeps same_core (mark_false C t r v msg)" "keeps same_core (fail_with C t r v msg ret)"
  unfolding step_defs
  by (intro core.keeps_and_then core.keeps_return keeps_mod_inst core_status_cond)+

lemma core_upd_status:
  "(\<And>st. st_hash (f st) = st_hash st \<and> st_observedGeneration (f st) = st_observedGeneration st)
     \<Longrightarrow> core_rel h (upd_status f h)"
  by (simp add: core_rel_def object_rel_def)

lemma keeps_upd_status [frame_rules]:
  "keeps same_core (mod_inst (upd_status (\<lambda>st. st\<lparr>st_endpoint := e\<rparr>)))"
  "keeps same_core (mod_inst (upd_status (\<lambda>st. st\<lparr>st_networkAttachments := n\<rparr>)))"
  "keeps same_core (mod_inst (upd_status (\<lambda>st. st\<lparr>st_lastAppliedTopology := tr\<rparr>)))"
  "keeps same_core (mod_inst (upd_status (\<lambda>st. st\<lparr>st_readyCount := rc\<rparr>)))"
  by (intro keeps_mod_inst core_upd_status; simp)+

lemma keeps_touch [frame_rules]: "keeps same_core (mod_inst touch_override)"
  by (intro keeps_mod_inst) (simp add: core_rel_def object_rel_def touch_override_spec)

lemma keeps_if [frame_rules]: "(b \<Longrightarrow> keeps R m) \<Longrightarrow> (\<not> b \<Longrightarrow> keeps R n) \<Longrightarrow> keeps R (if b then m else n)"
  by simp

lemma keeps_sum [frame_rules]:
  "(\<And>a. keeps R (f a)) \<Longrightarrow> (\<And>b. keeps R (g b)) \<Longrightarrow> keeps R (case x of Inl a \<Rightarrow> f a | Inr b \<Rightarrow> g b)"
  by (simp split: sum.split)

lemma keeps_option [frame_rules]:
  "keeps R f \<Longrightarrow> (\<And>b. keeps R (g b)) \<Longrightarrow> keeps R (case x of None \<Rightarrow> f | Some b \<Rightarrow> g b)"
  by (simp split: option.split)

lemma keeps_prod [frame_rules]: "(\<And>a b. keeps R (f a b)) \<Longrightarrow> keeps R (case x of (a, b) \<Rightarrow> f a b)"
  by (simp split: prod.split)

lemma keeps_prod_fun [frame_rules]:
  "(\<And>a b. keeps R (f a b y)) \<Longrightarrow> keeps R ((case x of (a, b) \<Rightarrow> f a b) y)"
  by (simp split: prod.split)

lemma keeps_outcome [frame_rules]:
  "(\<And>d. keeps R (f d)) \<Longrightarrow> (\<And>e. keeps R (g e)) \<Longrightarrow> (\<And>m. keeps R (k m)) \<Longrightarrow>
     keeps R (case x of Value d \<Rightarrow> f d | Error e \<Rightarrow> g e | Crash m \<Rightarrow> k m)"
  by (simp split: outcome.split)

section \<open>The stages\<close>

lemma core_rbac_fold: "core_rel h (fold (\<lambda>c h. RbacConditionsSet C h c) cs h)"
proof (induction cs arbitrary: h)
  case Nil
  then show ?case by (simp add: core_rel_def object_rel_refl)
next
  case (Cons c cs)
  have "core_rel h (RbacConditionsSet C h c)"
    by (simp add: core_rel_def object_rel_def RbacConditionsSet_def)
  with Cons.IH[of "RbacConditionsSet C h c"] show ?case
    by (auto simp: core_rel_def intro: object_rel_trans)
qed

lemma keeps_rbac [frame_rules]: "keeps same_core (rbac_step C A)"
  unfolding rbac_step_def configureHorizonRbac_def
  by (intro frame_rules keeps_mod_inst core_rbac_fold)

lemma keeps_secret [frame_rules]: "keeps same_core (check_secret C A)"
  unfolding check_secret_def by (intro frame_rules)

lemma keeps_memcached [frame_rules]: "keeps same_core (check_memcached C A)"
  unfolding check_memcached_def by (intro frame_rules)

lemma keeps_tls [frame_rules]: "keeps same_core (check_tls C K A)"
  unfolding check_tls_def check_ca_def check_cert_def Let_def by (intro frame_rules)

lemma keeps_generate [frame_rules]: "keeps same_core (generateServiceConfigMaps K A mc)"
  unfolding generateServiceConfigMaps_def by (intro frame_rules)

lemma keeps_ensure_secret [frame_rules]: "keeps same_core (ensureHorizonSecret K A)"
  unfolding ensureHorizonSecret_def by (intro frame_rules)

lemma keeps_keystone [frame_rules]: "keeps same_core (keystone_loop A ns svs en)"
  by (induction svs arbitrary: en) (auto intro!: frame_rules simp only: keystone_loop.simps)

lemma keeps_enabled [frame_rules]: "keeps same_core (enabled_services A)"
  unfolding enabled_services_def by (intro frame_rules)

lemma keeps_service [frame_rules]: "keeps same_core (service_step C K A lbl)"
  unfolding service_step_def reconcileInit_def Let_def by (intro frame_rules)

lemma keeps_nad_loop [frame_rules]: "keeps same_core (nad_loop C A ns ats l)"
  by (induction ats arbitrary: l) (auto intro!: frame_rules simp only: nad_loop.simps)

lemma keeps_nad [frame_rules]: "keeps same_core (nad_step C K A hp)"
  unfolding nad_step_def ensureNAD_def by (intro frame_rules)

lemma keeps_update [frame_rules]: "keeps same_core update_steps"
  unfolding update_steps_def reconcileUpdate_def reconcileUpgrade_def by (intro frame_rules)

lemma keeps_topology [frame_rules]: "keeps same_core (topology_step C K A lbl)"
  unfolding topology_step_def Let_def by (intro frame_rules)

lemma keeps_deployment [frame_rules]: "keeps same_core (deployment_step C K A hash lbl ann en tp mc)"
  unfolding deployment_step_def depl_failed_def by (intro frame_rules)

lemma keeps_verify [frame_rules]: "keeps same_core (verify_network C A lbl)"
  unfolding verify_network_def Let_def by (intro frame_rules)

lemma keeps_finish [frame_rules]: "keeps same_core (finish_step C K deploy)"
  unfolding finish_step_def by (intro frame_rules)

lemma keeps_rollout: "keeps same_core (rollout C K A hp mc hash en)"
  unfolding rollout_def Let_def by (intro frame_rules)

text \<open>Only the hash of the configuration stage changes the stored hash map.\<close>

lemma keeps_hash: "keeps same_object (createHashOfInputHashes K)"
  by (auto simp: keeps_def createHashOfInputHashes_def same_object_def object_rel_def
      split: sum.splits prod.splits)

lemma keeps_config: "keeps same_object (config_step C K A mc)"
  unfolding config_step_def config_failed_def
  by (intro obj.keeps_and_then obj.keeps_return obj.keeps_next keeps_hash keeps_option keeps_prod keeps_if
      core_object frame_rules)

lemma keeps_normal: "keeps same_object (reconcileNormal C K A hp)"
  unfolding reconcileNormal_def
  by (intro obj.keeps_and_then keeps_config core_object[OF keeps_rbac] core_object[OF keeps_secret]
      core_object[OF keeps_memcached] core_object[OF keeps_tls] core_object[OF keeps_enabled]
      core_object[OF keeps_rollout])

end
