(* ===== verification/Pass_Trace.thy ===== *)
theory Pass_Trace
  imports Pass_Frame
begin

text \<open>
  The writes of a pass, in order. \<open>traced A\<close> is the cluster \<open>A\<close> with a log: every call that
  changes the cluster appends an entry (for a Deployment, with the reply), reads append nothing. Theorems about the log hold for
  every cluster, since \<open>A\<close> is arbitrary.
\<close>

section \<open>The log\<close>

datatype cluster_write =
    WRelease "topo_ref option" string
  | WRbac string
  | WConfigMaps "config_template list"
  | WSecrets "config_template list"
  | WService service
  | WTopology "topo_ref option"
  | WDeployment deployment "ret \<times> live_deployment"
  | WPatch horizon

text \<open>The place of each kind of write in a pass.\<close>

fun phase :: "cluster_write \<Rightarrow> nat" where
  "phase (WRelease _ _) = 0"
| "phase (WRbac _) = 0"
| "phase (WConfigMaps _) = 1"
| "phase (WSecrets _) = 2"
| "phase (WService _) = 3"
| "phase (WTopology _) = 4"
| "phase (WDeployment _ _) = 5"
| "phase (WPatch _) = 6"

type_synonym 'w logged = "'w \<times> cluster_write list"

definition reading :: "('w \<Rightarrow> 'a \<times> 'w) \<Rightarrow> 'w logged \<Rightarrow> 'a \<times> 'w logged" where
  "reading f = (\<lambda>(w, l). case f w of (x, w') \<Rightarrow> (x, (w', l)))"

definition writing :: "('a \<Rightarrow> cluster_write) \<Rightarrow> ('w \<Rightarrow> 'a \<times> 'w) \<Rightarrow> 'w logged \<Rightarrow> 'a \<times> 'w logged" where
  "writing e f = (\<lambda>(w, l). case f w of (x, w') \<Rightarrow> (x, (w', l @ [e x])))"

definition traced :: "'w api \<Rightarrow> 'w logged api" where
  "traced A =
     \<lparr>ap_Get = (\<lambda>nm ns. reading (ap_Get A nm ns)),
      ap_NewHelper = (\<lambda>h. reading (ap_NewHelper A h)),
      ap_PatchInstance = (\<lambda>h. writing (\<lambda>_. WPatch h) (ap_PatchInstance A h)),
      ap_EnsureDeletedTopologyRef =
        (\<lambda>r nm. writing (\<lambda>_. WRelease r nm) (ap_EnsureDeletedTopologyRef A r nm)),
      ap_ReconcileRbac = (\<lambda>ns nm rules. writing (\<lambda>_. WRbac nm) (ap_ReconcileRbac A ns nm rules)),
      ap_GetSecret = (\<lambda>nm ns. reading (ap_GetSecret A nm ns)),
      ap_GetMemcachedByName = (\<lambda>nm ns. reading (ap_GetMemcachedByName A nm ns)),
      ap_ValidateCACertSecret = (\<lambda>nm ns. reading (ap_ValidateCACertSecret A nm ns)),
      ap_ValidateCertSecret = (\<lambda>t ns. reading (ap_ValidateCertSecret A t ns)),
      ap_GetKeystoneAPI = (\<lambda>ns. reading (ap_GetKeystoneAPI A ns)),
      ap_GetKeystoneServiceWithName = (\<lambda>nm ns. reading (ap_GetKeystoneServiceWithName A nm ns)),
      ap_EnsureConfigMaps = (\<lambda>ts v. writing (\<lambda>_. WConfigMaps ts) (ap_EnsureConfigMaps A ts v)),
      ap_EnsureSecrets = (\<lambda>ts v. writing (\<lambda>_. WSecrets ts) (ap_EnsureSecrets A ts v)),
      ap_GeneratePassword = (\<lambda>n. reading (ap_GeneratePassword A n)),
      ap_ServiceCreateOrPatch = (\<lambda>s. writing (\<lambda>_. WService s) (ap_ServiceCreateOrPatch A s)),
      ap_GetNADWithName = (\<lambda>nm ns. reading (ap_GetNADWithName A nm ns)),
      ap_EnsureServiceTopology =
        (\<lambda>r lat nm sel. writing (\<lambda>_. WTopology r) (ap_EnsureServiceTopology A r lat nm sel)),
      ap_DeploymentCreateOrPatch =
        (\<lambda>d n. writing (WDeployment d) (ap_DeploymentCreateOrPatch A d n)),
      ap_VerifyNetworkStatus = (\<lambda>na l n. reading (ap_VerifyNetworkStatus A na l n))\<rparr>"

definition log_of :: "'w logged rstate \<Rightarrow> cluster_write list" where
  "log_of s = snd (rs_world s)"

definition deployments :: "cluster_write list \<Rightarrow> deployment set" where
  "deployments l = {d. \<exists>x. WDeployment d x \<in> set l}"

section \<open>Read-only stages\<close>

definition same_log :: "'w logged rstate \<Rightarrow> 'w logged rstate \<Rightarrow> bool" where
  "same_log s t \<longleftrightarrow> log_of t = log_of s"

interpretation quiet: frame_rel same_log
  by unfold_locales (auto simp: same_log_def)

named_theorems quiet_log \<open>procedures that write nothing\<close>

declare quiet.keeps_next [quiet_log] quiet.keeps_return [quiet_log] quiet.keeps_panic [quiet_log]
  quiet.keeps_and_then [quiet_log] quiet.keeps_call [quiet_log] quiet.keeps_get [quiet_log]
  keeps_if [quiet_log] keeps_sum [quiet_log] keeps_option [quiet_log] keeps_prod [quiet_log]
  keeps_prod_fun [quiet_log] keeps_outcome [quiet_log]

lemma quiet_reading [quiet_log]: "keeps same_log (cluster (reading f))"
  by (auto simp: keeps_def cluster_def reading_def same_log_def log_of_def split: prod.split)

lemma quiet_mod_inst [quiet_log]: "keeps same_log (mod_inst f)"
  by (simp add: keeps_def mod_inst_def modify_def same_log_def log_of_def)

lemma quiet_set_var [quiet_log]: "keeps same_log (set_var k v)"
  by (simp add: keeps_def set_var_def modify_def same_log_def log_of_def)

lemma quiet_clear_vars [quiet_log]: "keeps same_log (modify (\<lambda>s. s\<lparr>rs_vars := m\<rparr>))"
  by (simp add: keeps_def modify_def same_log_def log_of_def)

lemma quiet_the_inst [quiet_log]: "keeps same_log the_inst"
  unfolding the_inst_def by (rule quiet_log)

lemma quiet_conds [quiet_log]:
  "keeps same_log (set_cond C c)" "keeps same_log (mark_true C t m)"
  "keeps same_log (mark_false C t r v msg)" "keeps same_log (fail_with C t r v msg ret)"
  unfolding step_defs by (intro quiet_log)+

lemma quiet_hash [quiet_log]: "keeps same_log (createHashOfInputHashes K)"
  by (auto simp: keeps_def createHashOfInputHashes_def same_log_def log_of_def
      split: sum.splits prod.splits)

lemma traced_reads:
  "ap_Get (traced A) nm ns = reading (ap_Get A nm ns)"
  "ap_NewHelper (traced A) h = reading (ap_NewHelper A h)"
  "ap_GetSecret (traced A) nm ns = reading (ap_GetSecret A nm ns)"
  "ap_GetMemcachedByName (traced A) nm ns = reading (ap_GetMemcachedByName A nm ns)"
  "ap_ValidateCACertSecret (traced A) nm ns = reading (ap_ValidateCACertSecret A nm ns)"
  "ap_ValidateCertSecret (traced A) t ns = reading (ap_ValidateCertSecret A t ns)"
  "ap_GetKeystoneAPI (traced A) ns = reading (ap_GetKeystoneAPI A ns)"
  "ap_GetKeystoneServiceWithName (traced A) nm ns = reading (ap_GetKeystoneServiceWithName A nm ns)"
  "ap_GeneratePassword (traced A) n = reading (ap_GeneratePassword A n)"
  "ap_GetNADWithName (traced A) nm ns = reading (ap_GetNADWithName A nm ns)"
  "ap_VerifyNetworkStatus (traced A) na l i = reading (ap_VerifyNetworkStatus A na l i)"
  by (simp_all add: traced_def)

lemma traced_writes:
  "ap_PatchInstance (traced A) h = writing (\<lambda>_. WPatch h) (ap_PatchInstance A h)"
  "ap_EnsureDeletedTopologyRef (traced A) r nm = writing (\<lambda>_. WRelease r nm) (ap_EnsureDeletedTopologyRef A r nm)"
  "ap_ReconcileRbac (traced A) ns nm rules = writing (\<lambda>_. WRbac nm) (ap_ReconcileRbac A ns nm rules)"
  "ap_EnsureConfigMaps (traced A) ts v = writing (\<lambda>_. WConfigMaps ts) (ap_EnsureConfigMaps A ts v)"
  "ap_EnsureSecrets (traced A) ts v = writing (\<lambda>_. WSecrets ts) (ap_EnsureSecrets A ts v)"
  "ap_ServiceCreateOrPatch (traced A) sv = writing (\<lambda>_. WService sv) (ap_ServiceCreateOrPatch A sv)"
  "ap_EnsureServiceTopology (traced A) r lat nm sel =
     writing (\<lambda>_. WTopology r) (ap_EnsureServiceTopology A r lat nm sel)"
  "ap_DeploymentCreateOrPatch (traced A) d n = writing (WDeployment d) (ap_DeploymentCreateOrPatch A d n)"
  by (simp_all add: traced_def)

lemma quiet_secret_stage: "keeps same_log (check_secret C (traced A))"
  unfolding check_secret_def traced_reads by (intro quiet_log)

lemma quiet_memcached: "keeps same_log (check_memcached C (traced A))"
  unfolding check_memcached_def traced_reads by (intro quiet_log)

lemma quiet_tls: "keeps same_log (check_tls C K (traced A))"
  unfolding check_tls_def check_ca_def check_cert_def Let_def traced_reads by (intro quiet_log)

lemma quiet_keystone: "keeps same_log (keystone_loop (traced A) ns svs en)"
  by (induction svs arbitrary: en)
    (auto intro!: quiet_log simp only: keystone_loop.simps traced_reads)

lemma quiet_enabled: "keeps same_log (enabled_services (traced A))"
  unfolding enabled_services_def by (intro quiet_log quiet_keystone)

lemma quiet_nad_loop: "keeps same_log (nad_loop C (traced A) ns ats l)"
  by (induction ats arbitrary: l) (auto intro!: quiet_log simp only: nad_loop.simps traced_reads)

lemma quiet_nad: "keeps same_log (nad_step C K (traced A) hp)"
  unfolding nad_step_def ensureNAD_def by (intro quiet_log quiet_nad_loop)

lemma quiet_update: "keeps same_log update_steps"
  unfolding update_steps_def reconcileUpdate_def reconcileUpgrade_def by (intro quiet_log)

lemma quiet_verify: "keeps same_log (verify_network C (traced A) lbl)"
  unfolding verify_network_def Let_def traced_reads by (intro quiet_log)

lemma quiet_finish: "keeps same_log (finish_step C K deploy)"
  unfolding finish_step_def by (intro quiet_log)

section \<open>The order of writes\<close>

definition below :: "nat \<Rightarrow> 'w logged rstate \<Rightarrow> bool" where
  "below k s \<longleftrightarrow> sorted_wrt (<) (map phase (log_of s)) \<and> (\<forall>e \<in> set (log_of s). phase e < k)"

lemma below_mono: "below k s \<Longrightarrow> k \<le> k' \<Longrightarrow> below k' s"
  by (fastforce simp: below_def)

lemma below_no_deployment: "below k s \<Longrightarrow> k \<le> 5 \<Longrightarrow> deployments (log_of s) = {}"
  by (fastforce simp: below_def deployments_def)

lemma keeps_triple:
  assumes "keeps R m" and "\<And>s t. R s t \<Longrightarrow> P s \<Longrightarrow> P t"
  shows "triple P m (\<lambda>_. P) P"
  using assms unfolding triple_def keeps_def by (fastforce split: prod.splits flow.splits)

lemma triple_quiet:
  assumes "keeps same_log m" and "k \<le> k'" and "k' \<le> 6"
  shows "triple (below k) m (\<lambda>_. below k') (below 6)"
  by (rule triple_weaken[OF keeps_triple[OF assms(1), of "below k"]])
    (use assms(2,3) in \<open>auto simp: same_log_def below_def dest: order.strict_trans2\<close>)

lemma below_append:
  assumes "below k s" and "k \<le> phase e" and "phase e < k'" and "log_of t = log_of s @ [e]"
  shows "below k' t"
  using assms by (auto simp: below_def sorted_wrt_append intro: order.strict_trans2 order.strict_trans)

text \<open>The rules by which the stages are placed; the last applies to any read-only procedure.\<close>

lemma place_return: "k \<le> k' \<Longrightarrow> triple (below k) (return_with r) Q (below k')"
  by (simp add: triple_def flow_simps below_mono)

lemma place_panic: "k \<le> k' \<Longrightarrow> triple (below k) (panic_with p) Q (below k')"
  by (simp add: triple_def flow_simps below_mono)

lemma place_next: "k \<le> k' \<Longrightarrow> triple (below k) (next_with x) (\<lambda>_. below k') E"
  by (simp add: triple_def flow_simps below_mono)

lemma place_write:
  fixes f :: "'w \<Rightarrow> 'a \<times> 'w"
  assumes p: "\<And>x. phase (e x) = p" and "k \<le> p" and "Suc p \<le> k'"
  shows "triple (below k) (cluster (writing e f)) (\<lambda>_. below k') E"
  unfolding triple_def
proof (intro allI impI)
  fix s :: "'w logged rstate"
  assume b: "below k s"
  obtain w l where w: "rs_world s = (w, l)" by fastforce
  obtain x w' where f: "f w = (x, w')" by fastforce
  have "below k' (s\<lparr>rs_world := (w', l @ [e x])\<rparr>)"
    by (rule below_append[OF b, of "e x"]) (use assms w in \<open>auto simp: log_of_def\<close>)
  then show "case cluster (writing e f) s of (Next x, s') \<Rightarrow> below k' s'
      | (Return r, s') \<Rightarrow> E s' | (Panic p, s') \<Rightarrow> E s'"
    by (simp add: cluster_def writing_def w f)
qed

lemma place_write_vars:
  fixes f :: "smap \<Rightarrow> 'w \<Rightarrow> (gerr option \<times> smap) \<times> 'w"
  assumes p: "\<And>x. phase (e x) = p" and "k \<le> p" and "Suc p \<le> k'"
  shows "triple (below k) (cluster_vars (\<lambda>v. writing e (f v))) (\<lambda>_. below k') E"
  unfolding triple_def
proof (intro allI impI)
  fix s :: "'w logged rstate"
  assume b: "below k s"
  obtain w l where w: "rs_world s = (w, l)" by fastforce
  obtain err v' w' where f: "f (rs_vars s) w = ((err, v'), w')" by (metis surj_pair)
  have "below k' (s\<lparr>rs_world := (w', l @ [e (err, v')]), rs_vars := v'\<rparr>)"
    by (rule below_append[OF b, of "e (err, v')"]) (use assms w in \<open>auto simp: log_of_def\<close>)
  then show "case cluster_vars (\<lambda>v. writing e (f v)) s of (Next x, s') \<Rightarrow> below k' s'
      | (Return r, s') \<Rightarrow> E s' | (Panic p, s') \<Rightarrow> E s'"
    by (simp add: cluster_vars_def writing_def w f)
qed

lemma place_call:
  assumes "triple (below k) m (\<lambda>_. below k') (below k')" and "k' \<le> k''"
  shows "triple (below k) (call_proc m) (\<lambda>_. below k') (below k'')"
  using assms(1) by (rule triple_call) (use assms(2) in \<open>auto intro: below_mono\<close>)

lemma place_up:
  assumes "triple (below k) m (\<lambda>_. below k') (below k')" and "k' \<le> k''"
  shows "triple (below k) m (\<lambda>_. below k') (below k'')"
  using assms(1) by (rule triple_weaken) (use assms(2) in \<open>auto intro: below_mono\<close>)

lemma place_quiet:
  assumes "keeps same_log m" and "k \<le> k'" and "k \<le> k''"
  shows "triple (below k) m (\<lambda>_. below k') (below k'')"
  by (rule triple_weaken[OF keeps_triple[OF assms(1), of "below k"]])
    (use assms(2,3) in \<open>auto simp: same_log_def below_def dest: order.strict_trans2\<close>)

lemmas place_rules = triple_and_then place_return place_panic place_next place_write place_write_vars
  triple_if triple_sum triple_option triple_prod triple_prod_fun triple_outcome

lemma place_rbac: "triple (below 0) (rbac_step C (traced A)) (\<lambda>_. below 1) (below 1)"
proof -
  have body: "triple (below 0) (configureHorizonRbac C (traced A)) (\<lambda>_. below 1) (below 1)"
    unfolding configureHorizonRbac_def traced_writes
    by (rule place_rules place_quiet[OF quiet_the_inst] place_quiet[OF quiet_mod_inst] order_refl phase.simps | simp)+
  show ?thesis
    unfolding rbac_step_def
    by (rule place_rules place_call body order_refl phase.simps | simp)+
qed

lemma place_generate:
  "triple (below 1) (generateServiceConfigMaps K (traced A) mc) (\<lambda>_. below 2) (below 2)"
  unfolding generateServiceConfigMaps_def traced_writes traced_reads
  by (rule place_rules place_quiet[OF quiet_the_inst] place_quiet[OF quiet_reading] order_refl phase.simps | simp)+

lemma place_ensure_secret:
  "triple (below 2) (ensureHorizonSecret K (traced A)) (\<lambda>_. below 3) (below 3)"
  unfolding ensureHorizonSecret_def traced_writes traced_reads
  by (rule place_rules place_quiet[OF quiet_the_inst] place_quiet[OF quiet_reading] order_refl phase.simps | simp)+

lemma place_config: "triple (below 1) (config_step C K (traced A) mc) (\<lambda>_. below 3) (below 3)"
  unfolding config_step_def config_failed_def
  by (rule place_rules place_call place_generate place_ensure_secret place_quiet[OF quiet_hash]
      place_quiet[OF quiet_conds(2)] place_quiet[OF quiet_conds(4)] order_refl phase.simps | simp)+

lemma place_service: "triple (below 3) (service_step C K (traced A) lbl) (\<lambda>_. below 4) (below 4)"
proof -
  have body: "triple (below 3) (reconcileInit C K (traced A) lbl) (\<lambda>_. below 4) (below 4)"
    unfolding reconcileInit_def Let_def traced_writes
    by (rule place_rules place_quiet[OF quiet_the_inst] place_quiet[OF quiet_mod_inst]
        place_quiet[OF quiet_conds(2)] place_quiet[OF quiet_conds(4)] order_refl phase.simps | simp)+
  show ?thesis
    unfolding service_step_def by (rule place_rules place_call body order_refl phase.simps | simp)+
qed

lemma place_topology: "triple (below 4) (topology_step C K (traced A) lbl) (\<lambda>_. below 5) (below 5)"
  unfolding topology_step_def Let_def traced_writes
  by (rule place_rules place_quiet[OF quiet_the_inst] place_quiet[OF quiet_mod_inst]
      place_quiet[OF quiet_conds(2)] place_quiet[OF quiet_conds(4)] order_refl phase.simps | simp)+

lemma place_deployment:
  "triple (below 5) (deployment_step C K (traced A) hash lbl ann en tp mc) (\<lambda>_. below 6) (below 6)"
  unfolding deployment_step_def depl_failed_def traced_writes
  by (rule place_rules place_quiet[OF quiet_the_inst] place_quiet[OF quiet_mod_inst]
      place_quiet[OF quiet_conds(4)] order_refl phase.simps | simp)+

lemma place_rollout:
  "triple (below 3) (rollout C K (traced A) hp mc hash en) (\<lambda>_. below 6) (below 6)"
  unfolding rollout_def Let_def
  by (rule triple_and_then place_quiet[OF quiet_the_inst] place_up[OF place_service] place_quiet[OF quiet_nad]
      place_quiet[OF quiet_update] place_up[OF place_topology] place_deployment place_quiet[OF quiet_verify]
      place_quiet[OF quiet_finish] order_refl phase.simps | simp)+

lemma place_normal: "triple (below 0) (reconcileNormal C K (traced A) hp) (\<lambda>_. below 6) (below 6)"
  unfolding reconcileNormal_def
  by (rule triple_and_then place_up[OF place_rbac] place_quiet[OF quiet_secret_stage] place_quiet[OF quiet_memcached]
      place_quiet[OF quiet_tls] place_up[OF place_config] place_quiet[OF quiet_enabled] place_rollout order_refl phase.simps | simp)+

lemma place_delete: "triple (below 0) (reconcileDelete K (traced A) hp) (\<lambda>_. below 6) (below 6)"
  unfolding reconcileDelete_def traced_writes
  by (rule place_rules place_quiet[OF quiet_the_inst] place_quiet[OF quiet_mod_inst] order_refl phase.simps | simp)+

lemma place_body:
  "triple (below 0) (reconcile_body C K (traced A) hp new) (\<lambda>_. below 6) (below 6)"
  unfolding reconcile_body_def init_status_def add_finalizer_def init_hash_def Let_def
  by (rule place_rules place_call place_delete place_normal place_quiet[OF quiet_the_inst]
      place_quiet[OF quiet_mod_inst] order_refl phase.simps | simp)+

end
