(* ===== verification/Pass_Deploys.thy ===== *)
theory Pass_Deploys
  imports Pass_Trace
begin

text \<open>
  Which configuration a pass rolls out: every Deployment it writes carries, in each container,
  the hash of the inputs that the stored status of the object already recorded when the pass
  began. A pass that computes a new hash records it and ends before any Deployment is written.
\<close>

section \<open>The hash in a Deployment\<close>

definition stamped :: "string \<Rightarrow> deployment \<Rightarrow> bool" where
  "stamped h d \<longleftrightarrow> pt_containers (dp_template d) \<noteq> [] \<and>
     (\<forall>c \<in> set (pt_containers (dp_template d)). \<forall>v.
        (''CONFIG_HASH'', v) \<in> set (ct_env c) \<longleftrightarrow> v = h)"

lemma Deployment_stamped:
  assumes "Deployment L i hash lbl ann en tp mc = Value d" and "merge_envs_law L" and "placement_only tp"
  shows "stamped hash d"
proof -
  from assms(1) obtain t' where d: "d = build_deployment L i lbl ann (getEnvVars hash en) tp (add_mtls mc t')"
    by (rule Deployment_Value)
  have "(''CONFIG_HASH'', v) \<in> set (pl_MergeEnvs L (getEnvVars hash en)) \<longleftrightarrow> v = hash" for v
    using assms(2) by (auto simp: merge_envs_law_def getEnvVars_hash)
  then show ?thesis
    by (simp add: stamped_def d build_deployment_pods[OF assms(3)] log_container_def horizon_container_def)
qed

section \<open>The invariant\<close>

definition recorded :: "env_lib \<Rightarrow> string option \<Rightarrow> 'w rstate \<Rightarrow> bool" where
  "recorded K h0 s \<longleftrightarrow> hash_map (hz_status (rs_inst s)) (el_InputHashName K) = h0"

definition deploys_ok :: "string option \<Rightarrow> 'w logged rstate \<Rightarrow> bool" where
  "deploys_ok h0 s \<longleftrightarrow> (\<forall>d \<in> deployments (log_of s). \<exists>h. h0 = Some h \<and> stamped h d)"

definition before_rollout :: "env_lib \<Rightarrow> string option \<Rightarrow> nat \<Rightarrow> 'w logged rstate \<Rightarrow> bool" where
  "before_rollout K h0 k s \<longleftrightarrow> below k s \<and> recorded K h0 s"

lemma below_deploys_ok: "below k s \<Longrightarrow> k \<le> 5 \<Longrightarrow> deploys_ok h0 s"
  by (simp add: deploys_ok_def below_no_deployment)

lemma recorded_core: "same_core s t \<Longrightarrow> recorded K h0 s \<Longrightarrow> recorded K h0 t"
  by (simp add: recorded_def same_core_def core_rel_def hash_map_def)

lemma ok_quiet: "same_log s t \<Longrightarrow> deploys_ok h0 s \<Longrightarrow> deploys_ok h0 t"
  by (simp add: same_log_def deploys_ok_def)

text \<open>A stage placed before the Deployment that leaves the core of the object alone.\<close>

lemma before_stage:
  fixes m :: "('w logged rstate, 'a, 'r) proc"
  assumes place: "triple (below k) m (\<lambda>_. below k') (below k')" and core: "keeps same_core m"
    and "k' \<le> 5"
  shows "triple (before_rollout K h0 k) m (\<lambda>_. before_rollout K h0 k') (deploys_ok h0)"
  unfolding triple_def before_rollout_def
proof (intro allI impI)
  fix s :: "'w logged rstate"
  assume pre: "below k s \<and> recorded K h0 s"
  obtain x t where run: "m s = (x, t)" by fastforce
  have "recorded K h0 t"
    using keepsD[OF core run] pre by (blast intro: recorded_core)
  then show "case m s of (Next x, s') \<Rightarrow> below k' s' \<and> recorded K h0 s'
      | (Return r, s') \<Rightarrow> deploys_ok h0 s' | (Panic p, s') \<Rightarrow> deploys_ok h0 s'"
    using place[unfolded triple_def, rule_format, of s] pre run below_deploys_ok[OF _ assms(3)]
    by (auto split: flow.splits)
qed

lemma before_quiet:
  assumes "keeps same_log m" and "keeps same_core m" and "k \<le> 5"
  shows "triple (before_rollout K h0 k) m (\<lambda>_. before_rollout K h0 k) (deploys_ok h0)"
  by (rule before_stage[OF place_quiet[OF assms(1) order_refl order_refl] assms(2,3)])

section \<open>The stages\<close>

text \<open>The configuration stage falls through only with the hash the status already records.\<close>

lemma createHash_next:
  obtains h ch e t where "createHashOfInputHashes K s = ((Next (h, ch, e) :: (_, 'r) flow), t)"
proof -
  let ?run = "createHashOfInputHashes K s :: (_, 'r) flow \<times> _"
  have "\<exists>x. fst ?run = Next x"
  proof (rule ccontr)
    assume "\<nexists>x. fst ?run = Next x"
    then show False by (auto simp: createHashOfInputHashes_def split: sum.splits prod.splits if_splits)
  qed
  then obtain x where "?run = (Next x, snd ?run)" by (metis prod.collapse)
  then show thesis using that by (cases x) blast
qed

lemma before_config:
  assumes "set_hash_law K"
  shows "triple (before_rollout K h0 1) (config_step C K (traced A) mc)
    (\<lambda>hash s. before_rollout K h0 3 s \<and> h0 = Some hash) (deploys_ok h0)"
proof -
  have gen: "triple (before_rollout K h0 1) (call_proc (generateServiceConfigMaps K (traced A) mc))
      (\<lambda>_. before_rollout K h0 2) (deploys_ok h0)"
    by (intro before_stage place_call place_generate frame_rules) simp_all
  have sec: "triple (before_rollout K h0 2) (call_proc (ensureHorizonSecret K (traced A)))
      (\<lambda>_. before_rollout K h0 3) (deploys_ok h0)"
    by (intro before_stage place_call place_ensure_secret frame_rules) simp_all
  have fail: "triple (before_rollout K h0 k) (config_failed C err) Q (deploys_ok h0)" if "k \<le> 5" for k err Q
    using that below_deploys_ok
    by (auto simp: triple_def before_rollout_def config_failed_def step_defs flow_simps below_def log_of_def
        deploys_ok_def deployments_def)
  have hash: "triple (before_rollout K h0 3)
      (and_then (createHashOfInputHashes K) (\<lambda>(inputHash, hashChanged, e3).
         if e3 \<noteq> None \<or> hashChanged then return_with (res0, e3)
         else and_then (mark_true C ServiceConfigReady ''ServiceConfigReadyMessage'') (\<lambda>_.
              next_with inputHash)))
      (\<lambda>hash s. before_rollout K h0 3 s \<and> h0 = Some hash) (deploys_ok h0)"
    unfolding triple_def
  proof (intro allI impI)
    fix s :: "'w logged rstate"
    assume pre: "before_rollout K h0 3 s"
    obtain h ch e t where run: "createHashOfInputHashes K s = ((Next (h, ch, e) :: (_, ret) flow), t)"
      by (rule createHash_next)
    have "below 3 t"
      using keepsD[OF quiet_hash run] pre by (simp add: same_log_def before_rollout_def below_def)
    then have ok: "deploys_ok h0 t" by (rule below_deploys_ok) simp
    show "case and_then (createHashOfInputHashes K) (\<lambda>(inputHash, hashChanged, e3).
         if e3 \<noteq> None \<or> hashChanged then return_with (res0, e3)
         else and_then (mark_true C ServiceConfigReady ''ServiceConfigReadyMessage'') (\<lambda>_.
              next_with inputHash)) s of
        (Next hash, s') \<Rightarrow> before_rollout K h0 3 s' \<and> h0 = Some hash
      | (Return r, s') \<Rightarrow> deploys_ok h0 s' | (Panic p, s') \<Rightarrow> deploys_ok h0 s'"
    proof (cases "e \<noteq> None \<or> ch")
      case True
      then show ?thesis using ok by (auto simp: flow_simps run)
    next
      case False
      then have run': "createHashOfInputHashes K s = ((Next (h, False, None) :: (_, ret) flow), t)"
        using run by simp
      note unch = createHash_unchanged[OF assms run']
      have "h0 = Some h" using unch(2) pre by (simp add: before_rollout_def recorded_def)
      then show ?thesis
        using pre unch(1) by (auto simp: flow_simps run' mark_true_def before_rollout_def below_def log_of_def
            recorded_def hash_map_def)
    qed
  qed
  show ?thesis
    unfolding config_step_def
    by (rule triple_and_then gen sec hash triple_option fail | simp)+
qed

lemma deploys_step:
  assumes "merge_envs_law (el_pod K)" and "placement_only tp"
  shows "triple (\<lambda>s. before_rollout K h0 5 s \<and> h0 = Some hash)
    (deployment_step C K (traced (A :: 'w api)) hash lbl ann en tp mc) (\<lambda>_. deploys_ok h0) (deploys_ok h0)"
proof -
  have none: "deployments l = {}" if "before_rollout K h1 5 s" and "rs_world s = (w, l)"
    for s :: "'w logged rstate" and w l h1
    using that below_no_deployment[of 5 s] by (simp add: before_rollout_def log_of_def)
  have add: "deployments (l @ [WDeployment d x]) = insert d (deployments l)" for l d x
    by (simp add: deployments_def del: split_paired_Ex) blast
  show ?thesis
    unfolding triple_def deployment_step_def depl_failed_def traced_writes
    by (auto simp: flow_simps step_defs deploys_ok_def log_of_def writing_def add
        dest: none none[OF _ surjective_pairing] Deployment_stamped[OF _ assms] split: outcome.splits prod.splits option.splits)
qed

definition topologies_place :: "'w api \<Rightarrow> bool" where
  "topologies_place A \<longleftrightarrow> (\<forall>r lat nm sel w tp w'.
     ap_EnsureServiceTopology A r lat nm sel w = (Inr tp, w') \<longrightarrow> placement_only tp)"

lemma topology_step_places:
  assumes "topologies_place A" and "topology_step C K (traced A) lbl s = (Next tp, s')"
  shows "placement_only tp"
  using assms unfolding topology_step_def topologies_place_def traced_writes Let_def
  by (fastforce simp: flow_simps step_defs writing_def split: prod.splits sum.splits if_splits)

lemma triple_result:
  assumes "triple P m (\<lambda>_. Q) E" and "\<And>s x s'. m s = (Next x, s') \<Longrightarrow> R x"
  shows "triple P m (\<lambda>x s. Q s \<and> R x) E"
  using assms unfolding triple_def by (fastforce split: prod.splits flow.splits)

lemma triple_hyp: "(b \<Longrightarrow> triple P m Q E) \<Longrightarrow> triple (\<lambda>s. P s \<and> b) m Q E"
  by (auto simp: triple_def)

lemma deploys_rollout:
  assumes "merge_envs_law (el_pod K)" and "topologies_place A" and h: "h0 = Some hash"
  shows "triple (before_rollout K h0 3) (rollout C K (traced A) hp mc hash en)
    (\<lambda>_. deploys_ok h0) (deploys_ok h0)"
proof -
  have topo: "triple (before_rollout K h0 4) (topology_step C K (traced A) lbl)
      (\<lambda>tp s. before_rollout K h0 5 s \<and> placement_only tp) (deploys_ok h0)" for lbl
    by (intro triple_result before_stage place_topology keeps_topology)
      (auto dest: topology_step_places[OF assms(2)])
  have dep: "triple (\<lambda>s. before_rollout K h0 5 s \<and> placement_only tp)
      (deployment_step C K (traced A) hash lbl ann en tp mc) (\<lambda>_. deploys_ok h0) (deploys_ok h0)"
    for lbl ann tp
    by (rule triple_hyp, rule triple_weaken[OF deploys_step[OF assms(1)]]) (auto simp: h)
  have quiet: "triple (deploys_ok h0) m (\<lambda>_. deploys_ok h0) (deploys_ok h0)" if "keeps same_log m"
    for m :: "('w logged, 'b) body"
    using that ok_quiet by (rule keeps_triple)
  have inst: "triple (before_rollout K h0 3) the_inst (\<lambda>_. before_rollout K h0 3) (deploys_ok h0)"
    by (rule before_quiet[OF quiet_the_inst keeps_the_inst]) simp
  have serv: "triple (before_rollout K h0 3) (service_step C K (traced A) lbl)
      (\<lambda>_. before_rollout K h0 4) (deploys_ok h0)" for lbl
    by (rule before_stage[OF place_service keeps_service]) simp
  have nad: "triple (before_rollout K h0 4) (nad_step C K (traced A) hp)
      (\<lambda>_. before_rollout K h0 4) (deploys_ok h0)"
    by (rule before_quiet[OF quiet_nad keeps_nad]) simp
  have upd: "triple (before_rollout K h0 4) update_steps (\<lambda>_. before_rollout K h0 4) (deploys_ok h0)"
    by (rule before_quiet[OF quiet_update keeps_update]) simp
  show ?thesis
    unfolding rollout_def Let_def
    by (rule triple_and_then inst serv nad upd topo dep quiet[OF quiet_verify] quiet[OF quiet_finish])+
qed

lemma deploys_normal:
  assumes "set_hash_law K" and "merge_envs_law (el_pod K)" and "topologies_place A"
  shows "triple (before_rollout K h0 0) (reconcileNormal C K (traced A) hp)
    (\<lambda>_. deploys_ok h0) (deploys_ok h0)"
proof -
  have rbac: "triple (before_rollout K h0 0) (rbac_step C (traced A)) (\<lambda>_. before_rollout K h0 1) (deploys_ok h0)"
    by (rule before_stage[OF place_rbac keeps_rbac]) simp
  have quiet: "triple (before_rollout K h0 1) m (\<lambda>_. before_rollout K h0 1) (deploys_ok h0)"
    if "keeps same_log m" and "keeps same_core m" for m :: "('w logged, 'b) body"
    using that by (rule before_quiet) simp
  have en: "triple (\<lambda>s. before_rollout K h0 3 s \<and> h0 = Some hash) (enabled_services (traced A))
      (\<lambda>_ s. before_rollout K h0 3 s \<and> h0 = Some hash) (deploys_ok h0)" for hash
    by (rule triple_hyp, rule triple_weaken[OF before_quiet[OF quiet_enabled keeps_enabled]]) auto
  have roll: "triple (\<lambda>s. before_rollout K h0 3 s \<and> h0 = Some hash)
      (rollout C K (traced A) hp mc hash en) (\<lambda>_. deploys_ok h0) (deploys_ok h0)" for mc hash en
    by (rule triple_hyp) (rule deploys_rollout[OF assms(2,3)])
  show ?thesis
    unfolding reconcileNormal_def
    by (rule triple_and_then rbac quiet[OF quiet_secret_stage keeps_secret]
        quiet[OF quiet_memcached keeps_memcached] quiet[OF quiet_tls keeps_tls]
        before_config[OF assms(1)] en roll)+
qed

section \<open>The pass\<close>

lemma keep_recorded:
  assumes "\<And>h. hash_map (hz_status (f h)) = hash_map (hz_status h)"
  shows "triple (before_rollout K h0 0) (mod_inst f) (\<lambda>_. before_rollout K h0 0) E"
  using assms by (simp add: triple_def flow_simps before_rollout_def below_def log_of_def recorded_def)

lemma deploys_delete:
  "triple (before_rollout K h0 0) (reconcileDelete K (traced A) hp) (\<lambda>_. deploys_ok h0) (deploys_ok h0)"
  unfolding reconcileDelete_def traced_writes
  by (auto simp: triple_def flow_simps before_rollout_def below_def log_of_def writing_def deploys_ok_def
      deployments_def split: prod.splits)

lemma deploys_body:
  assumes "set_hash_law K" and "merge_envs_law (el_pod K)" and "topologies_place A"
  shows "triple (before_rollout K h0 0) (reconcile_body C K (traced A) hp new)
    (\<lambda>_. deploys_ok h0) (deploys_ok h0)"
proof -
  have next_ok: "triple (before_rollout K h0 0) (next_with x) (\<lambda>_. before_rollout K h0 0) E" for x E
    by (rule triple_next)
  have ret: "triple (before_rollout K h0 0) (return_with r) Q (deploys_ok h0)" for r Q
    using below_deploys_ok by (auto simp: triple_def flow_simps before_rollout_def)
  have inst: "triple (before_rollout K h0 0) the_inst (\<lambda>_. before_rollout K h0 0) E" for E
    by (rule triple_the_inst)
  have del: "triple (before_rollout K h0 0) (call_proc (reconcileDelete K (traced A) hp))
      (\<lambda>_. deploys_ok h0) (deploys_ok h0)"
    by (rule triple_call[OF deploys_delete])
  have norm: "triple (before_rollout K h0 0) (call_proc (reconcileNormal C K (traced A) hp))
      (\<lambda>_. deploys_ok h0) (deploys_ok h0)"
    by (rule triple_call[OF deploys_normal[OF assms]])
  show ?thesis
    unfolding reconcile_body_def init_status_def add_finalizer_def init_hash_def Let_def
    by (rule triple_and_then next_ok ret inst del norm keep_recorded triple_if triple_prod
        | simp add: hash_map_def status_cond_def)+
qed

end
