(* ===== verification/Pass_Safety.thy ===== *)
theory Pass_Safety
  imports Pass_Frame
begin

text \<open>
  When a pass can panic. The code dereferences two pointers it does not check: the replica
  count and the source of an extra volume. On an object that has both, no stage panics; the
  requirement survives every stage because the spec does.
\<close>

definition well_formed :: "env_lib \<Rightarrow> horizon \<Rightarrow> bool" where
  "well_formed K h \<longleftrightarrow> sp_replicas (hz_spec h) \<noteq> None \<and>
     sources_present (extra_volumes (propagated (pl_Propagate (el_pod K))
       (sp_extraMounts (hz_spec h)) HorizonPropagation))"

definition safe :: "env_lib \<Rightarrow> ('w rstate, 'a, 'r) proc \<Rightarrow> bool" where
  "safe K m \<longleftrightarrow> (\<forall>s. well_formed K (rs_inst s) \<longrightarrow>
     (case m s of (Panic p, t) \<Rightarrow> False | (_, t) \<Rightarrow> well_formed K (rs_inst t)))"

lemma well_formed_object: "object_rel h k \<Longrightarrow> well_formed K h \<Longrightarrow> well_formed K k"
  by (auto simp: well_formed_def object_rel_def)

named_theorems safe_rules \<open>procedures that do not panic on a well-formed object\<close>

lemma safe_keeps:
  fixes m :: "('w rstate, 'a, 'r) proc"
  assumes "keeps same_object m" and "\<And>s t p. m s \<noteq> (Panic p, t)"
  shows "safe K m"
  unfolding safe_def
proof (intro allI impI)
  fix s :: "'w rstate"
  assume w: "well_formed K (rs_inst s)"
  obtain f t where run: "m s = (f, t)" by fastforce
  have "well_formed K (rs_inst t)"
    using keepsD[OF assms(1) run] w by (auto simp: same_object_def intro: well_formed_object)
  then show "case m s of (Panic p, t) \<Rightarrow> False | (_, t) \<Rightarrow> well_formed K (rs_inst t)"
    using run assms(2) by (auto split: flow.split)
qed

lemma safeD:
  assumes "safe K m" and "well_formed K (rs_inst s)" and "m s = (f, t)"
  shows "well_formed K (rs_inst t)" and "f \<noteq> Panic p"
  using assms(1)[unfolded safe_def, rule_format, OF assms(2)] assms(3)
  by (auto split: flow.splits)

lemma safeI:
  assumes "\<And>s f t. well_formed K (rs_inst s) \<Longrightarrow> m s = (f, t) \<Longrightarrow>
      well_formed K (rs_inst t) \<and> (\<forall>p. f \<noteq> Panic p)"
  shows "safe K m"
  using assms by (auto simp: safe_def split: prod.split flow.split)

lemma safe_and_then [safe_rules]:
  assumes m: "safe K m" and f: "\<And>x. safe K (f x)"
  shows "safe K (and_then m f)"
proof (rule safeI)
  fix s y t
  assume w: "well_formed K (rs_inst s)" and run: "and_then m f s = (y, t)"
  obtain x u where first: "m s = (x, u)" by fastforce
  note u = safeD[OF m w first]
  show "well_formed K (rs_inst t) \<and> (\<forall>p. y \<noteq> Panic p)"
  proof (cases x)
    case (Next v)
    with run first have "f v u = (y, t)" by (simp add: and_then_apply)
    with f u(1) show ?thesis by (blast dest: safeD)
  qed (use run first u in \<open>auto simp: and_then_apply\<close>)
qed

lemma safe_call [safe_rules]:
  assumes "safe K m"
  shows "safe K (call_proc m)"
proof (rule safeI)
  fix s y t
  assume w: "well_formed K (rs_inst s)" and run: "call_proc m s = (y, t)"
  obtain x u where first: "m s = (x, u)" by fastforce
  show "well_formed K (rs_inst t) \<and> (\<forall>p. y \<noteq> Panic p)"
    using safeD[OF assms w first] run first by (cases x) (auto simp: call_proc_apply)
qed

lemma safe_simple [safe_rules]:
  "safe K (next_with x)" "safe K (return_with r)" "safe K the_inst" "safe K (cluster f)"
  "safe K (cluster_vars g)" "safe K (set_var k v)" "safe K (modify (\<lambda>s. s\<lparr>rs_vars := m\<rparr>))"
  by (auto simp: safe_def flow_simps split: prod.split)

lemma safe_mod_inst: "(\<And>h. well_formed K h \<Longrightarrow> well_formed K (f h)) \<Longrightarrow> safe K (mod_inst f)"
  by (simp add: safe_def flow_simps)

lemma safe_upd_status [safe_rules]: "safe K (mod_inst (upd_status f))"
  by (rule safe_mod_inst) (simp add: well_formed_def)

lemma safe_touch [safe_rules]: "safe K (mod_inst touch_override)"
  by (rule safe_mod_inst) (simp add: well_formed_def touch_override_spec)

lemma safe_conds [safe_rules]:
  "safe K (set_cond C c)" "safe K (mark_true C t m)" "safe K (mark_false C t r v msg)"
  "safe K (fail_with C t r v msg ret)"
  unfolding step_defs status_cond_def[abs_def] by (intro safe_rules)+

lemma safe_if [safe_rules]: "(b \<Longrightarrow> safe K m) \<Longrightarrow> (\<not> b \<Longrightarrow> safe K n) \<Longrightarrow> safe K (if b then m else n)"
  by simp

lemma safe_sum [safe_rules]:
  "(\<And>a. safe K (f a)) \<Longrightarrow> (\<And>b. safe K (g b)) \<Longrightarrow> safe K (case x of Inl a \<Rightarrow> f a | Inr b \<Rightarrow> g b)"
  by (simp split: sum.split)

lemma safe_option [safe_rules]:
  "safe K f \<Longrightarrow> (\<And>b. safe K (g b)) \<Longrightarrow> safe K (case x of None \<Rightarrow> f | Some b \<Rightarrow> g b)"
  by (simp split: option.split)

lemma safe_prod [safe_rules]: "(\<And>a b. safe K (f a b)) \<Longrightarrow> safe K (case x of (a, b) \<Rightarrow> f a b)"
  by (simp split: prod.split)

lemma safe_prod_fun [safe_rules]:
  "(\<And>a b. safe K (f a b y)) \<Longrightarrow> safe K ((case x of (a, b) \<Rightarrow> f a b) y)"
  by (simp split: prod.split)

section \<open>The two dereferences\<close>

text \<open>With the current object at hand, the pointers are not nil.\<close>

lemma safe_with_inst:
  assumes "\<And>i. well_formed K i \<Longrightarrow> safe K (f i)"
  shows "safe K (and_then the_inst f)"
  using assms unfolding safe_def by (auto simp: flow_simps)

lemma safe_pointer:
  assumes "x \<noteq> None" and "\<And>b. safe K (g b)"
  shows "safe K (case x of None \<Rightarrow> panic_with p | Some b \<Rightarrow> g b)"
  using assms by (auto split: option.split)

lemma safe_outcome:
  assumes "\<And>m. x \<noteq> Crash m" and "\<And>d. safe K (f d)" and "\<And>e. safe K (g e)"
  shows "safe K (case x of Value d \<Rightarrow> f d | Error e \<Rightarrow> g e | Crash m \<Rightarrow> panic_with m)"
  using assms by (auto split: outcome.split)

lemma well_formed_no_crash:
  "well_formed K i \<Longrightarrow> Deployment (el_pod K) i hash lbl ann en tp mc \<noteq> Crash m"
  using Deployment_Crash_iff[of "el_pod K" i hash lbl ann en tp mc] by (auto simp: well_formed_def)

lemma safe_verify: "safe K (verify_network C A lbl)"
  unfolding verify_network_def Let_def
  by (rule safe_with_inst, rule safe_pointer) (simp add: well_formed_def, intro safe_rules)

lemma safe_deployment: "safe K (deployment_step C K A hash lbl ann en tp mc)"
  unfolding deployment_step_def depl_failed_def
  by (rule safe_with_inst, rule safe_outcome) (erule well_formed_no_crash, (intro safe_rules)+)

section \<open>The stages\<close>

lemma safe_keystone [safe_rules]: "safe K (keystone_loop A ns svs en)"
  by (induction svs arbitrary: en) (auto intro!: safe_rules simp only: keystone_loop.simps)

lemma safe_nad_loop [safe_rules]: "safe K (nad_loop C A ns ats l)"
  by (induction ats arbitrary: l) (auto intro!: safe_rules simp only: nad_loop.simps)

lemma safe_hash [safe_rules]: "safe K' (createHashOfInputHashes K)"
  by (rule safe_keeps[OF keeps_hash])
    (auto simp: createHashOfInputHashes_def split: sum.splits prod.splits if_splits)

lemma safe_rbac: "safe K (rbac_step C A)"
proof -
  have "safe K (mod_inst (\<lambda>h. fold (\<lambda>c h. RbacConditionsSet C h c) cs h))" for cs
    by (rule safe_mod_inst) (use core_rbac_fold[of _ C cs] in \<open>auto simp: core_rel_def intro: well_formed_object\<close>)
  then show ?thesis
    unfolding rbac_step_def configureHorizonRbac_def by (intro safe_rules)
qed

lemma safe_inputs:
  "safe K (check_secret C A)" "safe K (check_memcached C A)" "safe K' (check_tls C K A)"
  unfolding check_secret_def check_memcached_def check_tls_def check_ca_def check_cert_def Let_def
  by (intro safe_rules)+

lemma safe_config: "safe K' (config_step C K A mc)"
  unfolding config_step_def config_failed_def generateServiceConfigMaps_def ensureHorizonSecret_def
  by (intro safe_rules)

lemma safe_rollout: "safe K (rollout C K A hp mc hash en)"
  unfolding rollout_def Let_def service_step_def reconcileInit_def nad_step_def ensureNAD_def
    update_steps_def reconcileUpdate_def reconcileUpgrade_def topology_step_def finish_step_def
  by (intro safe_rules safe_deployment safe_verify)

lemma safe_normal: "safe K (reconcileNormal C K A hp)"
  unfolding reconcileNormal_def enabled_services_def
  by (intro safe_rules safe_rbac safe_inputs safe_config safe_rollout)

lemma safe_finalizers [safe_rules]: "safe K (mod_inst (\<lambda>h. h\<lparr>hz_finalizers := g h\<rparr>))"
  by (rule safe_mod_inst) (simp add: well_formed_def)

lemma safe_body: "safe K (reconcile_body C K A hp new)"
  unfolding reconcile_body_def init_status_def add_finalizer_def init_hash_def reconcileDelete_def
    status_cond_def[abs_def] Let_def
  by (intro safe_rules safe_normal safe_mod_inst; simp add: well_formed_def)

lemma well_formed_start: "well_formed K (start_object h) \<longleftrightarrow> well_formed K h"
  by (simp add: well_formed_def start_object_def)

end
