(* ===== verification/Pass_Ready.thy ===== *)
theory Pass_Ready
  imports Pass_Trace
begin

text \<open>
  Who may report a finished rollout. Every stage before the last leaves DeploymentReady
  other than True if it was, so that a pass ends with it True only when the last stage was
  given a Deployment, just read back from the cluster, for which deployment.IsReady holds.
\<close>

section \<open>The relation\<close>

definition no_claim :: "'w rstate \<Rightarrow> bool" where
  "no_claim s \<longleftrightarrow> status_of (conds s) DeploymentReady \<noteq> Some CTrue"

definition claim_rel :: "'w rstate \<Rightarrow> 'w rstate \<Rightarrow> bool" where
  "claim_rel s t \<longleftrightarrow> (no_claim s \<longrightarrow> no_claim t)"

interpretation claim: frame_rel claim_rel
  by unfold_locales (auto simp: claim_rel_def)

named_theorems claim_rules \<open>procedures that do not report a finished rollout\<close>

declare claim.keeps_next [claim_rules] claim.keeps_return [claim_rules] claim.keeps_panic [claim_rules]
  claim.keeps_and_then [claim_rules] claim.keeps_call [claim_rules] claim.keeps_get [claim_rules]
  keeps_if [claim_rules] keeps_sum [claim_rules] keeps_option [claim_rules] keeps_prod [claim_rules]
  keeps_prod_fun [claim_rules] keeps_outcome [claim_rules]

lemma claim_simple [claim_rules]:
  "keeps claim_rel (cluster f)" "keeps claim_rel (cluster_vars g)" "keeps claim_rel (set_var k v)"
  "keeps claim_rel (modify (\<lambda>s. s\<lparr>rs_vars := m\<rparr>))"
  by (auto simp: keeps_def cluster_def cluster_vars_def set_var_def modify_def claim_rel_def no_claim_def
      conds_def split: prod.split)

lemma claim_the_inst [claim_rules]: "keeps claim_rel the_inst"
  unfolding the_inst_def by (rule claim_rules)

lemma claim_mod_inst:
  assumes "\<And>h. status_of (conds_of (hz_status h)) DeploymentReady \<noteq> Some CTrue \<Longrightarrow>
      status_of (conds_of (hz_status (f h))) DeploymentReady \<noteq> Some CTrue"
  shows "keeps claim_rel (mod_inst f)"
  using assms by (simp add: keeps_def mod_inst_def modify_def claim_rel_def no_claim_def conds_def)

lemma claim_upd_status [claim_rules]:
  "keeps claim_rel (mod_inst (upd_status (\<lambda>st. st\<lparr>st_endpoint := e\<rparr>)))"
  "keeps claim_rel (mod_inst (upd_status (\<lambda>st. st\<lparr>st_networkAttachments := n\<rparr>)))"
  "keeps claim_rel (mod_inst (upd_status (\<lambda>st. st\<lparr>st_lastAppliedTopology := tr\<rparr>)))"
  "keeps claim_rel (mod_inst (upd_status (\<lambda>st. st\<lparr>st_readyCount := rc\<rparr>)))"
  "keeps claim_rel (mod_inst touch_override)"
  by (rule claim_mod_inst; simp add: conds_of_def)+

lemma claim_hash [claim_rules]: "keeps claim_rel (createHashOfInputHashes K)"
  by (auto simp: keeps_def createHashOfInputHashes_def claim_rel_def no_claim_def conds_def conds_of_def
      split: sum.splits prod.splits)

section \<open>The stages before the last\<close>

lemma claim_status_cond:
  assumes "\<And>cs. status_of cs DeploymentReady \<noteq> Some CTrue \<Longrightarrow> status_of (f cs) DeploymentReady \<noteq> Some CTrue"
  shows "keeps claim_rel (mod_inst (status_cond f))"
  by (rule claim_mod_inst) (simp add: assms)

lemma claim_true:
  assumes "cond_laws C" and "t \<noteq> DeploymentReady"
  shows "keeps claim_rel (mark_true C t m)"
  unfolding mark_true_def
  by (rule claim_status_cond)
    (use assms in \<open>simp add: cond_list_laws(3) status_set cond_type_laws(3)\<close>)

lemma claim_false:
  assumes "cond_laws C"
  shows "keeps claim_rel (mark_false C t r v msg)" and "keeps claim_rel (set_cond C (cl_false C t r v msg))"
  unfolding mark_false_def set_cond_def
  by (rule claim_status_cond;
      use assms in \<open>simp add: cond_list_laws(4) status_set cond_type_laws(2) c_status_false\<close>)+

lemma claim_fail:
  assumes "cond_laws C"
  shows "keeps claim_rel (fail_with C t r v msg ret)"
  unfolding fail_with_def by (intro claim.keeps_and_then claim_false assms claim.keeps_return)

lemma claim_stages:
  assumes C: "cond_laws C"
  shows "keeps claim_rel (check_secret C A)" and "keeps claim_rel (check_memcached C A)"
    and "keeps claim_rel (check_tls C K A)" and "keeps claim_rel (config_step C K A mc)"
  unfolding check_secret_def check_memcached_def check_tls_def check_ca_def check_cert_def config_step_def
    config_failed_def generateServiceConfigMaps_def ensureHorizonSecret_def Let_def
  by (intro claim_rules claim_true[OF C] claim_false[OF C] claim_fail[OF C]; simp)+

lemma claim_keystone: "keeps claim_rel (keystone_loop A ns svs en)"
  by (induction svs arbitrary: en) (auto intro!: claim_rules simp only: keystone_loop.simps)

lemma claim_nad_loop:
  assumes "cond_laws C"
  shows "keeps claim_rel (nad_loop C A ns ats l)"
  by (induction ats arbitrary: l) (auto intro!: claim_rules claim_fail[OF assms] simp only: nad_loop.simps)

lemma claim_rollout_stages:
  assumes C: "cond_laws C"
  shows "keeps claim_rel (enabled_services A)" and "keeps claim_rel (service_step C K A lbl)"
    and "keeps claim_rel (nad_step C K A hp)" and "keeps claim_rel update_steps"
    and "keeps claim_rel (topology_step C K A lbl)"
    and "keeps claim_rel (deployment_step C K A hash lbl ann en tp mc)"
    and "keeps claim_rel (verify_network C A lbl)"
  unfolding enabled_services_def service_step_def reconcileInit_def nad_step_def ensureNAD_def
    update_steps_def reconcileUpdate_def reconcileUpgrade_def topology_step_def deployment_step_def
    depl_failed_def verify_network_def Let_def
  by (intro claim_rules claim_true[OF C] claim_false[OF C] claim_fail[OF C] claim_keystone
      claim_nad_loop[OF C]; simp)+

section \<open>The last stage\<close>

text \<open>The log shows that the Deployment was written and this is what came back.\<close>

definition read_back :: "live_deployment \<Rightarrow> 'w logged rstate \<Rightarrow> bool" where
  "read_back deploy s \<longleftrightarrow> (\<exists>d. WDeployment d ((res0, None), deploy) \<in> set (log_of s))"

definition confirmed :: "env_lib \<Rightarrow> 'w logged rstate \<Rightarrow> bool" where
  "confirmed K s \<longleftrightarrow> no_claim s \<or> (\<exists>deploy. read_back deploy s \<and> el_DeploymentIsReady K deploy)"

lemma no_claim_confirmed: "no_claim s \<Longrightarrow> confirmed K s"
  by (simp add: confirmed_def)

lemma claim_triple:
  assumes "keeps claim_rel m"
  shows "triple no_claim m (\<lambda>_. no_claim) (confirmed K)"
proof -
  have "triple no_claim m (\<lambda>_. no_claim) no_claim"
    using assms by (rule keeps_triple) (simp add: claim_rel_def)
  then show ?thesis by (rule triple_weaken) (auto intro: no_claim_confirmed)
qed

lemma deployment_step_reads:
  assumes "deployment_step C K (traced A) hash lbl ann en tp mc s = (Next deploy, s')"
  shows "read_back deploy s'"
  using assms unfolding deployment_step_def depl_failed_def read_back_def traced_writes
  by (auto simp: flow_simps step_defs writing_def log_of_def
      split: outcome.splits prod.splits option.splits if_splits; blast)

lemma read_back_quiet: "keeps same_log m \<Longrightarrow> triple (read_back deploy) m (\<lambda>_. read_back deploy) (read_back deploy)"
  by (rule keeps_triple[of same_log]) (auto simp: same_log_def read_back_def)

lemma finish_confirmed:
  assumes C: "cond_laws C"
  shows "triple (\<lambda>s. no_claim s \<and> read_back deploy s) (finish_step C K deploy)
    (\<lambda>_. confirmed K) (confirmed K)"
proof (cases "el_DeploymentIsReady K deploy")
  case True
  then have "read_back deploy s \<Longrightarrow> confirmed K s" for s :: "'w logged rstate"
    by (auto simp: confirmed_def)
  then show ?thesis
    by (intro triple_weaken[OF read_back_quiet[OF quiet_finish]]) auto
next
  case False
  then have "keeps claim_rel (finish_step C K deploy)"
    unfolding finish_step_def
    by (simp only: if_False) (intro claim_rules claim_true[OF C] claim_false[OF C]; simp)
  from claim_triple[OF this, of K] show ?thesis
    by (rule triple_weaken) (auto intro: no_claim_confirmed)
qed

lemma triple_both:
  assumes "triple P m (\<lambda>_. P') E" and "triple R m (\<lambda>_. R) R'"
  shows "triple (\<lambda>s. P s \<and> R s) m (\<lambda>_ s. P' s \<and> R s) E"
  using assms unfolding triple_def by (fastforce split: prod.splits flow.splits)

lemma verify_keeps:
  assumes C: "cond_laws C"
  shows "triple (\<lambda>s. no_claim s \<and> read_back deploy s) (verify_network C (traced A) lbl)
    (\<lambda>_ s. no_claim s \<and> read_back deploy s) (confirmed K)"
proof -
  have "triple no_claim (verify_network C (traced A) lbl) (\<lambda>_. no_claim) (confirmed K)"
    by (rule claim_triple[OF claim_rollout_stages(7)[OF C]])
  then show ?thesis using read_back_quiet[OF quiet_verify] by (rule triple_both)
qed

lemma confirmed_normal:
  assumes C: "cond_laws C" and A: "rbac_reports (traced A)"
  shows "triple (\<lambda>s. fresh (rs_inst s)) (reconcileNormal C K (traced (A :: 'w api)) hp)
    (\<lambda>_. confirmed K) (confirmed K)"
proof -
  have fr: "fresh (rs_inst s) \<Longrightarrow> no_claim s" for s :: "'w logged rstate"
    using fresh_stage[of s] by (auto simp: no_claim_def at_stage_def pipeline_def)
  have rbac: "triple (\<lambda>s. fresh (rs_inst s)) (rbac_step C (traced A)) (\<lambda>_. no_claim) (confirmed K)"
    by (rule triple_weaken[OF fresh_rbac[OF C A]]) (auto intro: fr no_claim_confirmed)
  have dep: "triple no_claim (deployment_step C K (traced A) hash lbl ann en tp mc)
      (\<lambda>deploy s. no_claim s \<and> read_back deploy s) (confirmed K)" for hash lbl ann en tp mc
  proof -
    have "triple no_claim (deployment_step C K (traced A) hash lbl ann en tp mc) (\<lambda>_. no_claim) (confirmed K)"
      by (rule claim_triple[OF claim_rollout_stages(6)[OF C]])
    then show ?thesis
      unfolding triple_def using deployment_step_reads by (fastforce split: prod.splits flow.splits)
  qed
  show ?thesis
    unfolding reconcileNormal_def rollout_def Let_def
    by (rule rbac dep verify_keeps[OF C] finish_confirmed[OF C] triple_and_then triple_the_inst
        claim_triple[OF claim_stages(1)[OF C]] claim_triple[OF claim_stages(2)[OF C]]
        claim_triple[OF claim_stages(3)[OF C]] claim_triple[OF claim_stages(4)[OF C]]
        claim_triple[OF claim_rollout_stages(1)[OF C]] claim_triple[OF claim_rollout_stages(2)[OF C]]
        claim_triple[OF claim_rollout_stages(3)[OF C]] claim_triple[OF claim_rollout_stages(4)[OF C]]
        claim_triple[OF claim_rollout_stages(5)[OF C]])+
qed

lemma confirmed_body:
  assumes C: "cond_laws C" and A: "rbac_reports (traced A)"
  shows "triple P (reconcile_body C K (traced (A :: 'w api)) hp new) (\<lambda>_. confirmed K) (confirmed K)"
proof -
  have fr: "fresh (rs_inst s) \<Longrightarrow> confirmed K s" for s :: "'w logged rstate"
    using fresh_stage[of s] by (auto simp: confirmed_def no_claim_def at_stage_def pipeline_def)
  have del: "triple (\<lambda>s. fresh (rs_inst s)) (call_proc (reconcileDelete K (traced A) hp))
      (\<lambda>_. confirmed K) (confirmed K)"
    by (rule triple_call[OF triple_delete]) (auto intro: fr)
  have norm: "triple (\<lambda>s. fresh (rs_inst s)) (call_proc (reconcileNormal C K (traced A) hp))
      (\<lambda>_. confirmed K) (confirmed K)"
    by (rule triple_call[OF confirmed_normal[OF assms]]) auto
  have ret: "triple (\<lambda>s. fresh (rs_inst s)) (return_with r) Q (confirmed K)"
    for r and Q :: "_ \<Rightarrow> 'w logged rstate \<Rightarrow> bool"
    by (simp add: triple_def flow_simps fr)
  show ?thesis
    unfolding reconcile_body_def Let_def
    by (rule triple_and_then triple_init_status[OF C] triple_add_finalizer triple_if ret
        triple_init_hash triple_the_inst del norm)+
qed

lemma rbac_reports_traced: "rbac_reports A \<Longrightarrow> rbac_reports (traced A)"
  unfolding rbac_reports_def traced_writes
  by (auto simp: writing_def split: prod.splits)

lemma patch_keeps_claim:
  assumes "cond_laws C"
  shows "status_of (conds_of (hz_status (patch_object C saved i))) DeploymentReady =
    status_of (conds_of (hz_status i)) DeploymentReady"
  using assms by (simp add: patch_object_def Let_def status_set cond_type_laws(4) status_restore)

end
