(* ===== verification/Sample_Cluster.thy ===== *)
theory Sample_Cluster
  imports Horizon_Client Horizon_Webhook Watches Pass_Deploys Pass_Safety Pass_Ready
begin

text \<open>
  A concrete environment on which the properties are exercised: functions of the other
  packages that satisfy every law the development assumes, a cluster of a single fixed
  answer per call, and a Horizon object that a pass brings to Ready.
\<close>

section \<open>Objects\<close>

definition sample_tls :: tls_spec where
  "sample_tls = \<lparr>tls_secretName = Some ''cert'', tls_caBundleSecretName = ''ca''\<rparr>"

definition plain_tls :: tls_spec where
  "plain_tls = \<lparr>tls_secretName = None, tls_caBundleSecretName = ''''\<rparr>"

definition theme_mount :: volume_mount where
  "theme_mount = \<lparr>vm_name = ''logo'', vm_mountPath = ''/etc/openstack-dashboard/theme/logo.svg'',
     vm_readOnly = True, vm_subPath = ''logo.svg''\<rparr>"

definition theme_volume :: storage_volume where
  "theme_volume = \<lparr>sv_name = ''logo'', sv_core_source = Some (ConfigMapSource 420 ''logo'')\<rparr>"

definition theme_mounts :: vol_mounts where
  "theme_mounts = \<lparr>vs_extraVolType = ''Theme'', vs_propagation = [], vs_volumes = [theme_volume],
     vs_mounts = [theme_mount]\<rparr>"

definition stray_mounts :: vol_mounts where
  "stray_mounts = \<lparr>vs_extraVolType = ''theme'', vs_propagation = [], vs_volumes = [],
     vs_mounts = [theme_mount\<lparr>vm_mountPath := ''/etc/passwd''\<rparr>]\<rparr>"

definition sample_extra :: extra_vol_mounts where
  "sample_extra = \<lparr>ev_name = ''x'', ev_region = ''r'', ev_volMounts = [theme_mounts, stray_mounts]\<rparr>"

definition sample_spec :: horizon_spec where
  "sample_spec =
     \<lparr>sp_nodeSelector = None, sp_defaultConfigOverwrite = Map.empty,
      sp_resources = \<lparr>rq_limits = Map.empty, rq_requests = Map.empty\<rparr>,
      sp_override = \<lparr>os_service = None\<rparr>, sp_tls = sample_tls, sp_replicas = Some 1,
      sp_secret = ''osp-secret'', sp_customServiceConfig = '''', sp_memcachedInstance = ''memcached'',
      sp_preserveJobs = False, sp_extraMounts = [sample_extra], sp_networkAttachments = [''net''],
      sp_topologyRef = Some \<lparr>tr_name = ''zones'', tr_namespace = ''openstack''\<rparr>,
      sp_containerImage = ''image''\<rparr>"

definition sample_status :: horizon_status where
  "sample_status =
     \<lparr>st_hash = Some (Map.empty(''input'' \<mapsto> ''h1'')), st_endpoint = '''', st_conditions = Some [],
      st_readyCount = 0, st_observedGeneration = 1, st_networkAttachments = None,
      st_lastAppliedTopology = None\<rparr>"

definition sample_horizon :: horizon where
  "sample_horizon =
     \<lparr>hz_kind = ''Horizon'', hz_name = ''horizon'', hz_namespace = ''openstack'', hz_generation = 2,
      hz_deletionTimestamp = None, hz_finalizers = [''fin''], hz_spec = sample_spec,
      hz_status = sample_status\<rparr>"

section \<open>Other packages\<close>

definition env_keys :: "string list" where
  "env_keys = [''KOLLA_CONFIG_STRATEGY'', ''ENABLE_DESIGNATE'', ''ENABLE_HEAT'', ''ENABLE_IRONIC'',
      ''ENABLE_MANILA'', ''ENABLE_OCTAVIA'', ''ENABLE_CLOUDKITTY'', ''ENABLE_WATCHER'',
      ''CONFIG_HASH'', ''UNPACK_THEME'']"

definition sample_merge :: "smap \<Rightarrow> (string \<times> string) list" where
  "sample_merge m = concat (map (\<lambda>k. case m k of None \<Rightarrow> [] | Some v \<Rightarrow> [(k, v)]) env_keys)"

definition named_volume :: "string \<Rightarrow> volume" where
  "named_volume n = \<lparr>vol_name = n, vol_source = SecretSource 256 n\<rparr>"

definition named_mount :: "string \<Rightarrow> string \<Rightarrow> volume_mount" where
  "named_mount n p = \<lparr>vm_name = n, vm_mountPath = p, vm_readOnly = True, vm_subPath = ''''\<rparr>"

definition sample_tls_service :: tls_service where
  "sample_tls_service =
     \<lparr>ts_CreateVolume = (\<lambda>n. named_volume (n @ ''-tls-certs'')),
      ts_CreateVolumeMounts = (\<lambda>n. [named_mount (n @ ''-tls-certs'') ''/etc/pki/tls/certs''])\<rparr>"

definition sample_pod :: pod_lib where
  "sample_pod =
     \<lparr>pl_Propagate = (\<lambda>vm svc. [vm]),
      pl_tlsEnabled = (\<lambda>t. tls_secretName t \<noteq> None),
      pl_tlsToService = (\<lambda>t. case tls_secretName t of
         None \<Rightarrow> Inl (ApiError ''no secret'') | Some _ \<Rightarrow> Inr sample_tls_service),
      pl_caCreateVolume = (\<lambda>t. named_volume ''combined-ca-bundle''),
      pl_caCreateVolumeMounts = (\<lambda>t. [named_mount ''combined-ca-bundle'' ''/etc/pki/ca-trust'']),
      pl_MergeEnvs = sample_merge,
      pl_DistributePods = (\<lambda>sel vs key. ''spread''),
      pl_AppSelector = ''service'',
      pl_LabelHostname = ''kubernetes.io/hostname''\<rparr>"

definition sample_set_hash :: "smap \<Rightarrow> string \<Rightarrow> string \<Rightarrow> smap \<times> bool" where
  "sample_set_hash m k h = (if m k = Some h then (m, False) else (m(k \<mapsto> h), True))"

definition sample_env :: env_lib where
  "sample_env =
     \<lparr>el_pod = sample_pod,
      el_AddFinalizer = (\<lambda>fs f. if f \<in> set fs then (fs, False) else (fs @ [f], True)),
      el_RemoveFinalizer = (\<lambda>fs f. filter (\<lambda>g. g \<noteq> f) fs),
      el_GetLabels = (\<lambda>h g. Map.empty),
      el_GetLabelSelector = (\<lambda>m. ''service=horizon''),
      el_ObjectHash = (\<lambda>l. Inr ''h1''),
      el_SetHash = sample_set_hash,
      el_NewService = (\<lambda>d t ov. Inr \<lparr>svc_details = d, svc_type = ClusterIP,
         svc_hostname = ''horizon.openstack.svc'', svc_annotations = []\<rparr>),
      el_GetAPIEndpoint = (\<lambda>s u p path. Inr (case u of Some x \<Rightarrow> x | None \<Rightarrow>
         (if p = ProtocolHTTPS then ''https://horizon.openstack.svc'' else ''http://horizon.openstack.svc''))),
      el_EnsureNetworksAnnotation = (\<lambda>l. Inr (Map.empty(''k8s.v1.cni.cncf.io/networks'' \<mapsto> concat (map nad_name l)))),
      el_DeploymentIsReady = (\<lambda>d. ld_generation d = ld_observedGeneration d
         \<and> ld_specReplicas d = Some (ld_readyReplicas d)),
      el_ip_literal = (\<lambda>s. Inl (ApiError s)),
      el_CaMountPath = ''/ca'', el_CertMountPath = ''/cert'', el_KeyMountPath = ''/key'',
      el_OwnerSelector = ''owner'', el_InputHashName = ''input'', el_CABundleKey = ''ca'',
      el_TLSHashName = ''tls'', el_AnnotationEndpointKey = ''endpoint'', el_EndpointPublic = ''public'',
      el_AnnotationIngressCreateKey = ''ingress'', el_AnnotationHostnameKey = ''hostname''\<rparr>"

section \<open>The cluster\<close>

definition sample_memcached :: memcached where
  "sample_memcached = \<lparr>mc_name = ''memcached'', mc_IsReady = True, mc_serverListQuoted = ''m:11211'',
     mc_TLSSupport = True, mc_MTLSSecret = ''mtls'', mc_MTLSVolume = named_volume ''mtls'',
     mc_MTLSVolumeMounts = [named_mount ''mtls'' ''/mtls'']\<rparr>"

definition sample_live :: live_deployment where
  "sample_live = \<lparr>ld_generation = 3, ld_observedGeneration = 3, ld_specReplicas = Some 1,
     ld_replicas = 1, ld_readyReplicas = 1\<rparr>"

definition rbac_conditions :: "condition list" where
  "rbac_conditions = map (\<lambda>t. list_cond t CTrue ReadyReason SeverityNone (Msg ''ready'' []))
     [ServiceAccountReady, RoleReady, RoleBindingReady]"

definition sample_api :: "unit api" where
  "sample_api =
     \<lparr>ap_Get = (\<lambda>nm ns w. (Inr sample_horizon, w)),
      ap_NewHelper = (\<lambda>h w. (Inr \<lparr>hp_GetFinalizer = ''fin'', hp_before_namespace = hz_namespace h\<rparr>, w)),
      ap_PatchInstance = (\<lambda>h w. (None, w)),
      ap_EnsureDeletedTopologyRef = (\<lambda>r nm w. ((res0, None), w)),
      ap_ReconcileRbac = (\<lambda>ns nm rules w. ((rbac_conditions, (res0, None)), w)),
      ap_GetSecret = (\<lambda>nm ns w. (Inr (\<lparr>sec_name = nm, sec_data = Map.empty(''horizon-secret'' \<mapsto> ''key'')\<rparr>, ''sh''), w)),
      ap_GetMemcachedByName = (\<lambda>nm ns w. (Inr sample_memcached, w)),
      ap_ValidateCACertSecret = (\<lambda>nm ns w. (Inr ''cah'', w)),
      ap_ValidateCertSecret = (\<lambda>t ns w. (Inr ''certh'', w)),
      ap_GetKeystoneAPI = (\<lambda>ns w. (Inr \<lparr>ks_internalEndpoint = Inr ''http://keystone''\<rparr>, w)),
      ap_GetKeystoneServiceWithName = (\<lambda>nm ns w. ((nm = ''watcher'',
         if nm = ''watcher'' then None else Some (NotFound nm)), w)),
      ap_EnsureConfigMaps = (\<lambda>ts v w. ((None, v(''cm'' \<mapsto> ''x'')), w)),
      ap_EnsureSecrets = (\<lambda>ts v w. ((None, v), w)),
      ap_GeneratePassword = (\<lambda>n w. (Inr ''password'', w)),
      ap_ServiceCreateOrPatch = (\<lambda>s w. ((res0, None), w)),
      ap_GetNADWithName = (\<lambda>nm ns w. (Inr (Some \<lparr>nad_name = nm, nad_namespace = ns\<rparr>), w)),
      ap_EnsureServiceTopology = (\<lambda>r lat nm sel w. (Inr (Some (\<lambda>pt. pt\<lparr>pt_affinity := Some ''zones''\<rparr>)), w)),
      ap_DeploymentCreateOrPatch = (\<lambda>d n w. (((res0, None), sample_live), w)),
      ap_VerifyNetworkStatus = (\<lambda>na l n w. (Inr (True, None), w))\<rparr>"

section \<open>The laws hold\<close>

lemma sample_merge_set: "(k, v) \<in> set (sample_merge m) \<longleftrightarrow> k \<in> set env_keys \<and> m k = Some v"
  by (auto simp: sample_merge_def split: option.splits)

lemma getEnvVars_keys: "getEnvVars h en k = Some v \<Longrightarrow> k \<in> set env_keys"
  by (simp add: getEnvVars_def env_keys_def split: if_splits)

lemma sample_merge_law: "merge_envs_law sample_pod"
  using getEnvVars_keys by (auto simp: merge_envs_law_def sample_pod_def sample_merge_set)

lemma sample_set_hash_law: "set_hash_law sample_env"
  by (auto simp: set_hash_law_def sample_env_def sample_set_hash_def)

lemma sample_rbac: "rbac_reports sample_api"
  by (auto simp: rbac_reports_def sample_api_def rbac_conditions_def list_cond_def rbac_types_def)

lemma sample_topologies: "topologies_place sample_api"
  by (auto simp: topologies_place_def sample_api_def placement_only_def)

lemma sample_tls_law: "tls_mounts_law sample_pod"
  by (auto simp: tls_mounts_law_def sample_pod_def sample_tls_service_def named_volume_def named_mount_def
      split: option.splits)

lemma sample_mtls_law: "mtls_mounts_law sample_memcached"
  by (simp add: mtls_mounts_law_def sample_memcached_def named_volume_def named_mount_def)

end
