(* ===== verification/Api_Properties.thy ===== *)
theory Api_Properties
  imports Sample_Cluster
begin

text \<open>
  The properties of the surface of the operator: admission of Horizon objects, the helpers
  for other operators, and the mapping of cluster events to reconcile requests.
\<close>

section \<open>Admission\<close>

text \<open>
  Defaulting changes nothing but an empty container image, which becomes the default
  image of the process, and defaulting twice is defaulting once; an object of another type is
  refused with the invalid-type error.
\<close>

lemma Default_fills_only_image:
  "Default d h = h\<lparr>hz_spec := (hz_spec h)\<lparr>sp_containerImage :=
       (if sp_containerImage (hz_spec h) = '''' then hd_containerImageURL d
        else sp_containerImage (hz_spec h))\<rparr>\<rparr> \<and>
   Default d (Default d h) = Default d h \<and>
   custom_Default d (HorizonObj h) = Inr (HorizonObj (Default d h)) \<and>
   (\<exists>e. custom_Default d (OtherObj n) = Inl e \<and> errors_is e ErrInvalidObjectType)"
proof -
  have "hz_spec h = (hz_spec h)\<lparr>sp_containerImage := sp_containerImage (hz_spec h)\<rparr>" by simp
  then have "Default d h = h\<lparr>hz_spec := (hz_spec h)\<lparr>sp_containerImage :=
       (if sp_containerImage (hz_spec h) = '''' then hd_containerImageURL d
        else sp_containerImage (hz_spec h))\<rparr>\<rparr>"
    by (simp add: Default_def spec_Default_def core_Default_def)
  then show ?thesis
    by (intro conjI Default_idem) (simp_all add: custom_Default_def)
qed

text \<open>
  C34. Creation and update admit exactly the Horizon objects whose topology reference is valid
  in their own namespace; deletion admits every Horizon object; an object of another type is
  never admitted.
\<close>

lemma admission_iff_topology_valid:
  "(custom_ValidateCreate v obj = None \<longleftrightarrow>
      (\<exists>h. obj = HorizonObj h \<and> v (sp_topologyRef (hz_spec h)) ''spec.topologyRef'' (hz_namespace h) = [])) \<and>
   (custom_ValidateUpdate v old obj = None \<longleftrightarrow>
      (\<exists>h. obj = HorizonObj h \<and> v (sp_topologyRef (hz_spec h)) ''spec.topologyRef'' (hz_namespace h) = [])) \<and>
   (custom_ValidateDelete obj = None \<longleftrightarrow> (\<exists>h. obj = HorizonObj h))"
  using create.accepts_iff[of v obj] update.accepts_iff[of v old obj]
  by (cases obj) (auto simp: custom_ValidateDelete_def ValidateDelete_def)

text \<open>
  A refusal of a Horizon object carries all field errors of the topology check, under
  the name of the object; and defaulting an object first does not change the verdict.
\<close>

lemma refusal_lists_errors:
  assumes "v (sp_topologyRef (hz_spec h)) ''spec.topologyRef'' (hz_namespace h) = errs" and "errs \<noteq> []"
  shows "custom_ValidateCreate v (HorizonObj h) =
      Some (InvalidObject ''Horizon.horizon.openstack.org'' (hz_name h) errs) \<and>
    custom_ValidateUpdate v old (HorizonObj (Default d h)) =
      Some (InvalidObject ''Horizon.horizon.openstack.org'' (hz_name h) errs)"
proof -
  have "custom_ValidateUpdate v old (HorizonObj (Default d h)) = custom_ValidateUpdate v old (HorizonObj h)"
    by (rule update.after_default[of d]) (simp add: custom_Default_def)
  then show ?thesis
    using assms by (simp add: create.on_horizon update.on_horizon horizon_kind_def split: list.splits)
qed

lemma refusal_lists_errors_witness:
  "custom_ValidateCreate (\<lambda>r p ns. [p, ns]) (HorizonObj sample_horizon) =
     Some (InvalidObject ''Horizon.horizon.openstack.org'' ''horizon'' [''spec.topologyRef'', ''openstack''])"
  using refusal_lists_errors[of "\<lambda>r p ns. [p, ns]" sample_horizon "[''spec.topologyRef'', ''openstack'']"]
  by (simp add: sample_horizon_def)

section \<open>Helpers for other operators\<close>

text \<open>
  GetHorizon returns an object exactly when the namespace holds one, that object; it
  reports NotFound exactly when the namespace holds none, another error when it holds several,
  and passes an error of the list call on.
\<close>

lemma GetHorizon_unique:
  "fst (GetHorizon lst ns w) = (case fst (lst ns w) of
     Inl err \<Rightarrow> Inl err
   | Inr [] \<Rightarrow> Inl (NotFound (''No Horizon object found in namespace '' @ ns))
   | Inr [h] \<Rightarrow> Inr h
   | Inr (_ # _ # _) \<Rightarrow> Inl (Errorf ''More then one Horizon object found in namespace %s'' [ns])) \<and>
   snd (GetHorizon lst ns w) = snd (lst ns w)"
  by (auto simp: GetHorizon_def split: prod.split sum.split list.split)

text \<open>
  C35. The watch predicate lets an update through exactly when both sides are Horizon objects
  with different endpoints, and every deletion; so an operator that uses it misses no change
  of the endpoint and sees no other update.
\<close>

lemma endpoint_predicate_exact:
  "(endpoint_UpdateFunc ev \<longleftrightarrow>
     (\<exists>a b. ue_old ev = Some (HorizonObj a) \<and> ue_new ev = Some (HorizonObj b) \<and>
        st_endpoint (hz_status a) \<noteq> st_endpoint (hz_status b))) \<and>
   endpoint_DeleteFunc ob"
proof
  show "endpoint_UpdateFunc ev \<longleftrightarrow>
     (\<exists>a b. ue_old ev = Some (HorizonObj a) \<and> ue_new ev = Some (HorizonObj b) \<and>
        st_endpoint (hz_status a) \<noteq> st_endpoint (hz_status b))"
  proof (cases "ue_old ev"; cases "ue_new ev")
    fix x y
    assume "ue_old ev = Some x" and "ue_new ev = Some y"
    then show ?thesis by (cases x; cases y) (auto simp: endpoint_UpdateFunc_def)
  qed (auto simp: endpoint_UpdateFunc_def)
qed (simp add: endpoint_DeleteFunc_def)

text \<open>
  RbacConditionsSet, called on a value, still shows on the caller's object for a condition
  type the status already has: that type then has the new view, every other its old one.
\<close>

lemma RbacConditionsSet_visible:
  assumes "cond_laws C" and "st_conditions (hz_status h) = Some cs" and "status_of cs (c_type c) \<noteq> None"
  shows "cond_view (conds_of (hz_status (RbacConditionsSet C h c))) t =
    (if t = c_type c then Some (view_of c) else cond_view cs t)"
proof -
  have "cond_view cs (c_type c) \<noteq> None" using assms(3) by (auto simp: status_of_def)
  then show ?thesis
    using cond_set_shared[OF assms(1)] by (simp add: conds_of_RbacConditionsSet[OF assms(2)])
qed

definition unknown_role :: condition where
  "unknown_role = list_cond RoleReady CUnknown InitReason SeverityNone (Msg ''RoleReadyInitMessage'' [])"

definition true_role :: condition where
  "true_role = list_cond RoleReady CTrue ReadyReason SeverityNone (Msg ''RoleReadyMessage'' [])"

definition role_horizon :: horizon where
  "role_horizon = sample_horizon\<lparr>hz_status := sample_status\<lparr>st_conditions := Some [unknown_role]\<rparr>\<rparr>"

lemma RbacConditionsSet_visible_witness:
  "cond_view (conds_of (hz_status (RbacConditionsSet list_cond_lib role_horizon true_role))) RoleReady =
    Some (CTrue, ReadyReason, SeverityNone)"
proof -
  have "st_conditions (hz_status role_horizon) = Some [unknown_role]"
    by (simp add: role_horizon_def)
  moreover have "status_of [unknown_role] (c_type true_role) \<noteq> None" by code_simp
  ultimately show ?thesis
    using RbacConditionsSet_visible[OF list_cond_laws, of role_horizon "[unknown_role]" true_role RoleReady]
    by (simp add: true_role_def list_cond_def view_of_def)
qed

section \<open>Events\<close>

text \<open>
  C32. An event on a secret or a topology wakes exactly the Horizon objects of its namespace
  that name it as their OpenStack secret, their CA bundle, their certificate secret or their
  topology; every field looked up has an index that SetupWithManager registers.
\<close>

lemma findObjectsForSrc_exact:
  assumes "list_law ls items"
  shows "set (findObjectsForSrc ls src) = request_of ` {h \<in> set items. hz_namespace h = src_namespace src \<and>
      (src_name src \<noteq> '''' \<and> (sp_secret (hz_spec h) = src_name src \<or>
          tls_caBundleSecretName (sp_tls (hz_spec h)) = src_name src) \<or>
       tls_secretName (sp_tls (hz_spec h)) = Some (src_name src) \<or>
       (\<exists>r. sp_topologyRef (hz_spec h) = Some r \<and> tr_name r = src_name src))} \<and>
    set allWatchFields = fst ` set field_indexes"
  using input_source.exact[OF assms, of src]
  by (auto simp: uses_input_def allWatchFields_def field_indexes_def)

definition one_object_list :: hz_lister where
  "one_object_list ns sel = (case sel of
     None \<Rightarrow> Inr (filter (\<lambda>h. hz_namespace h = ns) [sample_horizon])
   | Some (f, v) \<Rightarrow> Inr (filter (\<lambda>h. hz_namespace h = ns \<and> v \<in> set (index_of f h)) [sample_horizon]))"

lemma one_object: "{h \<in> set [x]. P h} = (if P x then {x} else {})"
  by auto

lemma one_object_law: "list_law one_object_list [sample_horizon]"
  by (simp add: list_law_def one_object_list_def)

lemma findObjectsForSrc_exact_witness:
  "set (findObjectsForSrc one_object_list \<lparr>src_name = ''zones'', src_namespace = ''openstack''\<rparr>) =
     {(''openstack'', ''horizon'')} \<and>
   set (findObjectsForSrc one_object_list \<lparr>src_name = ''other'', src_namespace = ''openstack''\<rparr>) = {}"
  unfolding findObjectsForSrc_exact[OF one_object_law, THEN conjunct1] one_object
  by (simp add: sample_horizon_def sample_spec_def sample_tls_def request_of_def)

text \<open>
  An event on a Memcached or a network attachment definition wakes exactly the Horizon
  objects of its namespace that name it.
\<close>

lemma memcached_and_nad_exact:
  assumes "list_law ls items" and "\<And>x xs. inSlice x xs \<longleftrightarrow> x \<in> set xs"
  shows "set (memcachedFn ls src) = request_of ` {h \<in> set items. hz_namespace h = src_namespace src \<and>
      sp_memcachedInstance (hz_spec h) = src_name src} \<and>
    set (nadFn inSlice ls src) = request_of ` {h \<in> set items. hz_namespace h = src_namespace src \<and>
      src_name src \<in> set (sp_networkAttachments (hz_spec h))}"
proof -
  have "inSlice = (\<lambda>x xs. x \<in> set xs)" using assms(2) by auto
  then show ?thesis
    using memcached_source.exact[OF assms(1)] nad_source.exact[OF assms(1)] by simp
qed

lemma memcached_and_nad_exact_witness:
  "set (memcachedFn one_object_list \<lparr>src_name = ''memcached'', src_namespace = ''openstack''\<rparr>) =
     {(''openstack'', ''horizon'')} \<and>
   set (nadFn (\<lambda>x xs. x \<in> set xs) one_object_list \<lparr>src_name = ''net'', src_namespace = ''elsewhere''\<rparr>) = {}"
  unfolding memcached_and_nad_exact[OF one_object_law refl, THEN conjunct1]
    memcached_and_nad_exact[OF one_object_law refl, THEN conjunct2] one_object
  by (simp add: sample_horizon_def sample_spec_def request_of_def)

text \<open>
  C33. An event on a Keystone service wakes every Horizon object of the namespace when the
  service is cloudkitty or watcher and none otherwise; an event on the Keystone API wakes
  every Horizon object of its namespace.
\<close>

lemma keystone_events_exact:
  assumes "list_law ls items"
  shows "set (keystoneServiceFn ls src) =
      (if src_name src = ''cloudkitty'' \<or> src_name src = ''watcher''
       then request_of ` {h \<in> set items. hz_namespace h = src_namespace src} else {}) \<and>
    set (findObjectForSrc ls src) = request_of ` {h \<in> set items. hz_namespace h = src_namespace src}"
  using keystone_service_source.exact[OF assms, of src] keystone_api_source.exact[OF assms, of src]
  by (auto simp: keystoneServicesWatch_def)

lemma keystone_events_exact_witness:
  "set (keystoneServiceFn one_object_list \<lparr>src_name = ''watcher'', src_namespace = ''openstack''\<rparr>) =
     {(''openstack'', ''horizon'')}"
  unfolding keystone_events_exact[OF one_object_law, THEN conjunct1] one_object
  by (simp add: sample_horizon_def request_of_def)

text \<open>
  Where a list call fails, the mappers lose wake-ups but never invent one: what
  findObjectsForSrc returns then is a prefix of what it returns when every call succeeds.
\<close>

lemma findObjectsForSrc_error_prefix:
  assumes "\<And>f. f \<in> set allWatchFields \<Longrightarrow> ls (src_namespace src) (Some (f, src_name src)) = Inr (items f)"
    and "\<And>ns sel. ls' ns sel = ls ns sel \<or> (\<exists>err. ls' ns sel = Inl err)"
  shows "prefix (findObjectsForSrc ls' src) (findObjectsForSrc ls src)"
proof -
  have "prefix (fields_loop ls' src fs res) (fields_loop ls src fs res)"
    if "\<And>f. f \<in> set fs \<Longrightarrow> ls (src_namespace src) (Some (f, src_name src)) = Inr (items f)" for fs res
    using that
  proof (induction fs arbitrary: res)
    case Nil
    then show ?case by simp
  next
    case (Cons f fs)
    have ok: "ls (src_namespace src) (Some (f, src_name src)) = Inr (items f)" using Cons.prems by simp
    have all: "\<And>g. g \<in> set fs \<Longrightarrow> ls (src_namespace src) (Some (g, src_name src)) = Inr (items g)"
      using Cons.prems by simp
    have whole: "fields_loop ls src (f # fs) res = res @ map request_of (items f)
        @ concat (map (\<lambda>f. map request_of (items f)) fs)"
      using ok all by (simp add: request_loop_spec fields_loop_spec)
    show ?case
    proof (cases "ls' (src_namespace src) (Some (f, src_name src))")
      case (Inl err)
      then show ?thesis by (simp add: whole prefix_def del: fields_loop.simps(2)) (simp add: Inl)
    next
      case (Inr its)
      with assms(2)[of "src_namespace src" "Some (f, src_name src)"] ok have "its = items f" by auto
      then show ?thesis using Inr ok Cons.IH[OF all] by simp
    qed
  qed
  then show ?thesis using assms(1) unfolding findObjectsForSrc_def by blast
qed

lemma findObjectsForSrc_error_prefix_witness:
  "prefix (findObjectsForSrc (\<lambda>ns sel. case sel of Some (f, v) \<Rightarrow>
        (if f = topologyField then Inl (ApiError ''gone'') else one_object_list ns sel) | None \<Rightarrow> one_object_list ns sel)
      \<lparr>src_name = ''zones'', src_namespace = ''openstack''\<rparr>)
    (findObjectsForSrc one_object_list \<lparr>src_name = ''zones'', src_namespace = ''openstack''\<rparr>)"
  by (rule findObjectsForSrc_error_prefix[of _ _ "\<lambda>f. filter (\<lambda>h. hz_namespace h = ''openstack'' \<and> ''zones'' \<in> set (index_of f h)) [sample_horizon]"])
    (auto simp: one_object_list_def split: option.splits)

text \<open>
  Setting the controller up registers the four indexes in order and hands the watches to
  the builder; the first registration that fails is the result and no later step runs.
\<close>

lemma SetupWithManager_stops_at_error:
  assumes "field_indexes = earlier @ (f, ix) # rest"
    and "\<And>g jx m. (g, jx) \<in> set earlier \<Longrightarrow> reg g jx m = (None, g # m)"
    and "\<And>m. reg f ix m = (Some err, m)"
  shows "SetupWithManager reg complete [] = (Some err, rev (map fst earlier))"
proof -
  have "register_indexes reg (earlier @ (f, ix) # rest) m = (Some err, rev (map fst earlier) @ m)" for m
    using assms(2)
  proof (induction earlier arbitrary: m)
    case Nil
    then show ?case by (simp add: assms(3))
  next
    case (Cons p ps)
    obtain g jx where p: "p = (g, jx)" by fastforce
    with Cons.prems have "reg g jx m = (None, g # m)" by simp
    moreover have "register_indexes reg (ps @ (f, ix) # rest) (g # m) = (Some err, rev (map fst ps) @ g # m)"
      using Cons.prems by (intro Cons.IH) simp
    ultimately show ?case by (simp add: p)
  qed
  then show ?thesis by (simp add: SetupWithManager_def assms(1))
qed

lemma SetupWithManager_stops_at_error_witness:
  "SetupWithManager (\<lambda>f ix m. if f = tlsField then (Some (ApiError ''no''), m) else (None, f # m))
     (\<lambda>ws m. (None, m)) [] =
   (Some (ApiError ''no''), [caBundleSecretNameField, passwordSecretField])"
proof -
  let ?reg = "\<lambda>f ix m. if f = tlsField then (Some (ApiError ''no''), m) else (None, f # m)"
  let ?earlier = "[(passwordSecretField, index_secret), (caBundleSecretNameField, index_ca)]"
  have A: "field_indexes = ?earlier @ (tlsField, index_tls) # [(topologyField, index_topology)]"
    by (simp add: field_indexes_def)
  have B: "(g, jx) \<in> set ?earlier \<Longrightarrow> ?reg g jx m = (None, g # m)" for g jx m
    by (auto simp: tlsField_def passwordSecretField_def caBundleSecretNameField_def)
  show ?thesis
    using SetupWithManager_stops_at_error[of ?earlier tlsField index_tls "[(topologyField, index_topology)]" ?reg
        "ApiError ''no''" "\<lambda>ws m. (None, m)", OF A B] by simp
qed

end
