(* ===== verification/Stage_Properties.thy ===== *)
theory Stage_Properties
  imports Sample_Cluster
begin

text \<open>
  The properties of the single stages of reconcileNormal: for each, its outcome on every
  answer the cluster can give, and what it leaves in the status, the hash inputs and the
  cluster.
\<close>

text \<open>A state to run stages in: the sample object, with the conditions of a fresh pass.\<close>

definition sample_state :: "unit rstate" where
  "sample_state = \<lparr>rs_world = (), rs_inst = sample_horizon, rs_vars = Map.empty\<rparr>"

lemma sample_state_simps [simp]:
  "rs_inst sample_state = sample_horizon" "rs_world sample_state = ()" "rs_vars sample_state = Map.empty"
  by (simp_all add: sample_state_def)

lemma sample_fields [simp]:
  "hz_name sample_horizon = ''horizon''" "hz_namespace sample_horizon = ''openstack''"
  "hz_spec sample_horizon = sample_spec" "hz_status sample_horizon = sample_status"
  "sp_secret sample_spec = ''osp-secret''" "sp_tls sample_spec = sample_tls"
  "sp_networkAttachments sample_spec = [''net'']" "sp_replicas sample_spec = Some 1"
  "tls_secretName sample_tls = Some ''cert''" "tls_caBundleSecretName sample_tls = ''ca''"
  by (simp_all add: sample_horizon_def sample_spec_def sample_tls_def)

text \<open>The sample cluster with one answer replaced.\<close>

definition without_secrets :: "unit api" where
  "without_secrets = sample_api\<lparr>ap_GetSecret := (\<lambda>nm ns w. (Inl (NotFound nm), w))\<rparr>"

definition without_nads :: "unit api" where
  "without_nads = sample_api\<lparr>ap_GetNADWithName := (\<lambda>nm ns w. (Inl (NotFound nm), w))\<rparr>"

section \<open>Inputs\<close>

text \<open>
  The OpenStack secret: without a name the stage fails with ErrNoOpenstackSecret before any
  call; a secret that is not there is waited for (ten seconds, no error); any other error is
  returned; otherwise InputReady becomes True and the hash of the secret is the only hash
  input so far. In each failing case InputReady is False with the reason of the case.
\<close>

lemma check_secret_outcomes:
  assumes "cond_laws C"
    and "ap_GetSecret A (sp_secret (hz_spec (rs_inst s))) (hz_namespace (rs_inst s)) (rs_world s) = (got, w)"
    and "check_secret C A s = (f, t)"
  shows "if sp_secret (hz_spec (rs_inst s)) = ''''
    then rs_world t = rs_world s \<and>
      cond_view (conds t) InputReady = Some (CFalse, OtherReason ''missing dependencies'', SeverityInfo) \<and>
      (\<exists>e. f = Return (res0, Some e) \<and> errors_is e ErrNoOpenstackSecret)
    else rs_world t = w \<and>
      (case got of
         Inl err \<Rightarrow> cond_view (conds t) InputReady = Some (CFalse, ErrorReason, SeverityWarning) \<and>
           f = Return (if is_not_found err then (requeue_in 10, None) else (res0, Some err))
       | Inr (sec, hash) \<Rightarrow> f = Next () \<and> status_of (conds t) InputReady = Some CTrue \<and>
           rs_vars t = [sec_name sec \<mapsto> hash])"
  using assms(2,3)
  by (auto simp: check_secret_def flow_simps step_defs conds_def cond_list_laws[OF assms(1)]
      cond_type_laws(2,3)[OF assms(1)] cond_status_laws[OF assms(1)] status_set[OF assms(1)]
      ErrNoOpenstackSecret_def split: sum.splits prod.splits if_splits)

lemma check_secret_outcomes_witness:
  "fst (check_secret list_cond_lib without_secrets sample_state) = Return (requeue_in 10, None)"
proof -
  obtain f t where run: "check_secret list_cond_lib without_secrets sample_state = (f, t)" by fastforce
  have "ap_GetSecret without_secrets (sp_secret (hz_spec (rs_inst sample_state)))
      (hz_namespace (rs_inst sample_state)) (rs_world sample_state) = (Inl (NotFound ''osp-secret''), ())"
    by (simp add: without_secrets_def)
  from check_secret_outcomes[OF list_cond_laws this run] show ?thesis by (simp add: run)
qed

text \<open>
  Memcached: the stage falls through with the object only if it exists and is ready; while
  it is missing or not ready the pass is repeated after ten seconds without an error, and
  any other error of the lookup is returned.
\<close>

lemma check_memcached_outcomes:
  assumes "cond_laws C"
    and "ap_GetMemcachedByName A (sp_memcachedInstance (hz_spec (rs_inst s))) (hz_namespace (rs_inst s))
      (rs_world s) = (got, w)"
    and "check_memcached C A s = (f, t)"
  shows "rs_world t = w \<and> rs_vars t = rs_vars s \<and>
    (case got of
       Inl err \<Rightarrow> cond_view (conds t) MemcachedReady = Some (CFalse, ErrorReason, SeverityWarning) \<and>
         f = Return (if is_not_found err then (requeue_in 10, None) else (res0, Some err))
     | Inr mc \<Rightarrow>
         if mc_IsReady mc then f = Next mc \<and> status_of (conds t) MemcachedReady = Some CTrue
         else f = Return (requeue_in 10, None) \<and>
           cond_view (conds t) MemcachedReady = Some (CFalse, RequestedReason, SeverityInfo))"
  using assms(2,3)
  by (auto simp: check_memcached_def flow_simps step_defs conds_def cond_list_laws[OF assms(1)]
      cond_type_laws(2,3)[OF assms(1)] cond_status_laws[OF assms(1)] status_set[OF assms(1)]
      split: sum.splits if_splits)

lemma check_memcached_outcomes_witness:
  "fst (check_memcached list_cond_lib sample_api sample_state) = Next sample_memcached"
proof -
  obtain f t where run: "check_memcached list_cond_lib sample_api sample_state = (f, t)" by fastforce
  have "ap_GetMemcachedByName sample_api (sp_memcachedInstance (hz_spec (rs_inst sample_state)))
      (hz_namespace (rs_inst sample_state)) (rs_world sample_state) = (Inr sample_memcached, ())"
    by (simp add: sample_api_def)
  from check_memcached_outcomes[OF list_cond_laws this run] show ?thesis
    by (simp add: run sample_memcached_def)
qed

text \<open>What the two halves of the TLS stage do.\<close>

lemma check_ca_run:
  assumes C: "cond_laws C" and run: "check_ca C K A s = (f, t)"
  shows "if tls_caBundleSecretName (sp_tls (hz_spec (rs_inst s))) = '''' then f = Next () \<and> t = s
    else \<exists>got w. ap_ValidateCACertSecret A (tls_caBundleSecretName (sp_tls (hz_spec (rs_inst s))))
            (hz_namespace (rs_inst s)) (rs_world s) = (got, w) \<and>
      (case got of
         Inl err \<Rightarrow> f = Return (res0, if is_not_found err then None else Some err) \<and>
           status_of (conds t) TLSInputReady = Some CFalse
       | Inr hash \<Rightarrow> f = Next () \<and> rs_inst t = rs_inst s)"
proof -
  obtain got w where got: "ap_ValidateCACertSecret A (tls_caBundleSecretName (sp_tls (hz_spec (rs_inst s))))
      (hz_namespace (rs_inst s)) (rs_world s) = (got, w)" by fastforce
  show ?thesis
    using run got
    by (cases got)
      (auto simp: check_ca_def Let_def flow_simps step_defs conds_def status_set[OF C] cond_type_laws(2)[OF C]
        c_status_false[OF C] split: if_splits)
qed

lemma check_cert_run:
  assumes C: "cond_laws C" and run: "check_cert C K A s = (f, t)"
  shows "if \<not> tls_enabled K (rs_inst s) then f = Next () \<and> t = s
    else \<exists>got w. ap_ValidateCertSecret A (sp_tls (hz_spec (rs_inst s))) (hz_namespace (rs_inst s))
            (rs_world s) = (got, w) \<and>
      (case got of
         Inl err \<Rightarrow> f = Return (res0, if is_not_found err then None else Some err) \<and>
           status_of (conds t) TLSInputReady = Some CFalse
       | Inr hash \<Rightarrow> f = Next () \<and> rs_inst t = rs_inst s \<and> rs_vars t (el_TLSHashName K) = Some hash)"
proof -
  obtain got w where got: "ap_ValidateCertSecret A (sp_tls (hz_spec (rs_inst s))) (hz_namespace (rs_inst s))
      (rs_world s) = (got, w)" by fastforce
  show ?thesis
    using run got
    by (cases got)
      (auto simp: check_cert_def flow_simps step_defs conds_def status_set[OF C] cond_type_laws(2)[OF C]
        c_status_false[OF C] split: if_splits)
qed

text \<open>
  C38. TLS inputs: when the stage falls through, the CA bundle secret and the certificate
  secret were valid if the TLS section names them, the hash of the certificate is a hash
  input, and TLSInputReady is True; otherwise TLSInputReady is False and the pass ends with no
  requeue, and without an error when a secret is missing (its watch starts the next pass).
\<close>

lemma check_tls_outcomes:
  assumes C: "cond_laws C" and run: "check_tls C K A s = (f, t)"
  shows "case f of
      Next _ \<Rightarrow> status_of (conds t) TLSInputReady = Some CTrue \<and>
        (tls_caBundleSecretName (sp_tls (hz_spec (rs_inst s))) \<noteq> '''' \<longrightarrow>
          (\<exists>hash w. ap_ValidateCACertSecret A (tls_caBundleSecretName (sp_tls (hz_spec (rs_inst s))))
              (hz_namespace (rs_inst s)) (rs_world s) = (Inr hash, w))) \<and>
        (tls_enabled K (rs_inst s) \<longrightarrow>
          (\<exists>hash w w'. ap_ValidateCertSecret A (sp_tls (hz_spec (rs_inst s))) (hz_namespace (rs_inst s)) w
              = (Inr hash, w') \<and> rs_vars t (el_TLSHashName K) = Some hash))
    | Return (r, e) \<Rightarrow> r = res0 \<and> status_of (conds t) TLSInputReady = Some CFalse \<and>
        (\<forall>err. e = Some err \<longrightarrow> \<not> is_not_found err)
    | Panic p \<Rightarrow> False"
proof -
  obtain f1 t1 where ca: "check_ca C K A s = (f1, t1)" by fastforce
  obtain f2 t2 where cert: "check_cert C K A t1 = (f2, t2)" by fastforce
  note car = check_ca_run[OF C ca] and certr = check_cert_run[OF C cert]
  have all: "check_tls C K A s = (case f1 of
      Next _ \<Rightarrow> (case f2 of
          Next _ \<Rightarrow> mark_true C TLSInputReady ''InputReadyMessage'' t2
        | Return r \<Rightarrow> (Return r, t2) | Panic p \<Rightarrow> (Panic p, t2))
    | Return r \<Rightarrow> (Return r, t1) | Panic p \<Rightarrow> (Panic p, t1))"
    by (simp add: check_tls_def flow_simps ca cert split: flow.split)
  show ?thesis
  proof (cases f1)
    case (Next x)
    then have inst: "rs_inst t1 = rs_inst s" using car by (auto split: if_splits sum.splits)
    show ?thesis
    proof (cases f2)
      case (Next y)
      then have "(f, t) = mark_true C TLSInputReady ''InputReadyMessage'' t2"
        using all run \<open>f1 = Next x\<close> by simp
      then have "f = Next ()" and "status_of (conds t) TLSInputReady = Some CTrue" and "rs_vars t = rs_vars t2"
        by (auto simp: mark_true_def flow_simps conds_def cond_list_laws(3)[OF C] status_set[OF C]
            cond_type_laws(3)[OF C] cond_status_laws(2)[OF C])
      then show ?thesis
        using car certr Next \<open>f1 = Next x\<close> inst by (auto split: if_splits sum.splits)
    qed (use all run \<open>f1 = Next x\<close> certr in \<open>auto split: if_splits sum.splits\<close>)
  qed (use all run car in \<open>auto split: if_splits sum.splits\<close>)
qed

lemma check_tls_outcomes_witness:
  "\<exists>t. check_tls list_cond_lib sample_env sample_api sample_state = (Next (), t) \<and>
     status_of (conds t) TLSInputReady = Some CTrue \<and> rs_vars t ''tls'' = Some ''certh''"
proof -
  obtain f t where run: "check_tls list_cond_lib sample_env sample_api sample_state = (f, t)" by fastforce
  have "f = Next () \<and> rs_vars t ''tls'' = Some ''certh''"
    using run by (auto simp: check_tls_def check_ca_def check_cert_def Let_def flow_simps step_defs
        sample_api_def sample_env_def sample_pod_def tls_enabled_def)
  with run check_tls_outcomes[OF list_cond_laws run] show ?thesis by auto
qed

section \<open>Configuration\<close>

text \<open>
  C17. A stored SECRET_KEY is never replaced: when the secret exists and holds a non-empty key,
  ensureHorizonSecret succeeds and its only call is the lookup.
\<close>

lemma secret_key_kept:
  assumes "ap_GetSecret A ''horizon'' (hz_namespace (rs_inst s)) (rs_world s) = (Inr (scrt, h), w)"
    and "sec_data scrt ''horizon-secret'' = Some key" and "key \<noteq> ''''"
  shows "ensureHorizonSecret K A s = (Next None, s\<lparr>rs_world := w\<rparr>)"
  using assms
  by (simp add: ensureHorizonSecret_def flow_simps needs_secret_def validateHorizonSecret_def map_get_def
      ServiceName_def)

lemma secret_key_kept_witness:
  "ensureHorizonSecret sample_env sample_api sample_state = (Next None, sample_state\<lparr>rs_world := ()\<rparr>)"
  by (rule secret_key_kept[of _ _ "\<lparr>sec_name = ''horizon'', sec_data = Map.empty(''horizon-secret'' \<mapsto> ''key'')\<rparr>" "''sh''" _ "''key''"])
    (simp_all add: sample_api_def)

text \<open>
  C18. When the secret is missing, or holds no key, a generated password of length 50 is stored
  in the secret "horizon" of the namespace under the name horizon-secret; the result is that
  of the write, and a failing generator is reported wrapped.
\<close>

lemma secret_key_created:
  assumes "ap_GetSecret A ''horizon'' (hz_namespace (rs_inst s)) (rs_world s) = (got, w)"
    and "case got of Inl err \<Rightarrow> is_not_found err
      | Inr (scrt, h) \<Rightarrow> sec_data scrt ''horizon-secret'' \<in> {None, Some ''''}"
    and "ap_GeneratePassword A 50 w = (pw, w1)"
  shows "case pw of
      Inl err \<Rightarrow> \<exists>e. fst (ensureHorizonSecret K A s) = Return (Some e) \<and> errors_is e err
    | Inr key \<Rightarrow> \<exists>tm. tm_name tm = ''horizon'' \<and> tm_namespace tm = hz_namespace (rs_inst s) \<and>
        tm_customData tm = [''horizon-secret'' \<mapsto> key] \<and>
        ensureHorizonSecret K A s =
          (case ap_EnsureSecrets A [tm] (rs_vars s) w1 of
             ((err, v), w2) \<Rightarrow> (Next err, s\<lparr>rs_world := w2, rs_vars := v\<rparr>))"
proof -
  have needs: "needs_secret got"
    using assms(2) by (auto simp: needs_secret_def validateHorizonSecret_def map_get_def split: sum.splits prod.splits)
  have found: "\<And>err. got = Inl err \<Longrightarrow> is_not_found err" using assms(2) by simp
  have run: "ensureHorizonSecret K A s = (case pw of
      Inl err \<Rightarrow> (Return (Some (Wrapped ''generating Horizon SECRET_KEY: %w'' [] err)), s\<lparr>rs_world := w1\<rparr>)
    | Inr key \<Rightarrow> (case ap_EnsureSecrets A [secret_template K (rs_inst s) key] (rs_vars s) w1 of
        ((err, v), w2) \<Rightarrow> (Next err, s\<lparr>rs_world := w2, rs_vars := v\<rparr>)))"
    using assms(1,3) needs found
    by (cases got; cases pw) (simp_all add: ensureHorizonSecret_def flow_simps ServiceName_def)
  show ?thesis
  proof (cases pw)
    case (Inl err)
    then show ?thesis by (simp add: run)
  next
    case (Inr key)
    then show ?thesis
      by (simp add: run) (rule exI[of _ "secret_template K (rs_inst s) key"],
        simp add: secret_template_def ServiceName_def)
  qed
qed

lemma secret_key_created_witness:
  "fst (ensureHorizonSecret sample_env without_secrets sample_state) = Next None"
proof -
  have "ap_GetSecret without_secrets ''horizon'' (hz_namespace (rs_inst sample_state)) (rs_world sample_state)
      = (Inl (NotFound ''horizon''), ())"
    and "ap_GeneratePassword without_secrets 50 () = (Inr ''password'', ())"
    by (simp_all add: without_secrets_def sample_api_def)
  moreover have "ap_EnsureSecrets without_secrets ts v () = ((None, v), ())" for ts v
    by (simp add: without_secrets_def sample_api_def)
  moreover note secret_key_created[of without_secrets sample_state "Inl (NotFound ''horizon'')" "()" "Inr ''password''" "()" sample_env]
  ultimately show ?thesis by auto
qed

text \<open>
  C16. The configuration stage goes on exactly when the hash of the inputs is the one the
  status records, and then hands it on with ServiceConfigReady True; a new hash is recorded
  and ends the pass without error, with ServiceConfigReady untouched.
\<close>

lemma config_stage_by_hash:
  assumes C: "cond_laws C" and K: "set_hash_law K"
    and gen: "generateServiceConfigMaps K A mc s = (Next None, s1)"
    and sec: "ensureHorizonSecret K A s1 = (Next None, s2)"
    and hash: "el_ObjectHash K (pl_MergeEnvs (el_pod K) (rs_vars s2)) = Inr h"
    and run: "config_step C K A mc s = (f, t)"
  shows "if hash_map (hz_status (rs_inst s2)) (el_InputHashName K) = Some h
    then f = Next h \<and> status_of (conds t) ServiceConfigReady = Some CTrue \<and>
      st_hash (hz_status (rs_inst t)) = st_hash (hz_status (rs_inst s2))
    else f = Return (res0, None) \<and> conds t = conds s2 \<and> rs_world t = rs_world s2 \<and>
      hash_map (hz_status (rs_inst t)) (el_InputHashName K) = Some h"
proof -
  obtain m ch where set: "el_SetHash K (hash_map (hz_status (rs_inst s2))) (el_InputHashName K) h = (m, ch)"
    by fastforce
  note sh = set_hashD[OF K set]
  have body: "config_step C K A mc s = and_then (createHashOfInputHashes K) (\<lambda>(inputHash, hashChanged, e3).
     if e3 \<noteq> None \<or> hashChanged then return_with (res0, e3)
     else and_then (mark_true C ServiceConfigReady ''ServiceConfigReadyMessage'') (\<lambda>_.
          next_with inputHash)) s2"
    by (simp add: config_step_def flow_simps gen sec)
  show ?thesis
  proof (cases ch)
    case True
    then have "createHashOfInputHashes K s2 =
        ((Next (h, True, None) :: (_, ret) flow), s2\<lparr>rs_inst := upd_status (\<lambda>st. st\<lparr>st_hash := Some m\<rparr>) (rs_inst s2)\<rparr>)"
      by (simp add: createHashOfInputHashes_def hash set)
    with run body have "f = Return (res0, None)"
      and "t = s2\<lparr>rs_inst := upd_status (\<lambda>st. st\<lparr>st_hash := Some m\<rparr>) (rs_inst s2)\<rparr>"
      by (auto simp: flow_simps)
    with True sh show ?thesis by (simp add: conds_def conds_of_def hash_map_def)
  next
    case False
    then have "createHashOfInputHashes K s2 = ((Next (h, False, None) :: (_, ret) flow), s2)"
      by (simp add: createHashOfInputHashes_def hash set)
    with run body have "f = Next h"
      and "t = s2\<lparr>rs_inst := status_cond (\<lambda>cs. cl_mark_true C cs ServiceConfigReady (Msg ''ServiceConfigReadyMessage'' [])) (rs_inst s2)\<rparr>"
      by (auto simp: flow_simps mark_true_def)
    with False sh show ?thesis
      by (simp add: conds_def cond_list_laws(3)[OF C] status_set[OF C] cond_type_laws(3)[OF C] cond_status_laws(2)[OF C])
  qed
qed

lemma config_stage_by_hash_witness:
  "fst (config_step list_cond_lib sample_env sample_api sample_memcached sample_state) = Next ''h1''"
proof -
  obtain f t where run: "config_step list_cond_lib sample_env sample_api sample_memcached sample_state = (f, t)"
    by fastforce
  let ?s1 = "sample_state\<lparr>rs_vars := [''cm'' \<mapsto> ''x'']\<rparr>"
  have url: "url_Parse (\<lambda>s. Inl (ApiError s)) '''' = Inr \<lparr>u_Scheme = '''', u_Host = ''''\<rparr>" by code_simp
  have gen: "generateServiceConfigMaps sample_env sample_api sample_memcached sample_state = (Next None, ?s1)"
    using url by (simp add: generateServiceConfigMaps_def flow_simps sample_api_def sample_env_def sample_status_def)
  have sec: "ensureHorizonSecret sample_env sample_api ?s1 = (Next None, ?s1)"
    by (simp add: ensureHorizonSecret_def flow_simps sample_api_def needs_secret_def validateHorizonSecret_def map_get_def)
  have "hash_map (hz_status (rs_inst ?s1)) (el_InputHashName sample_env) = Some ''h1''"
    by (simp add: hash_map_def sample_status_def sample_env_def)
  moreover have "el_ObjectHash sample_env (pl_MergeEnvs (el_pod sample_env) (rs_vars ?s1)) = Inr ''h1''"
    by (simp add: sample_env_def)
  ultimately show ?thesis
    using config_stage_by_hash[OF list_cond_laws sample_set_hash_law gen sec _ run] run by auto
qed

end
