(* ===== verification/Pod_Properties.thy ===== *)
theory Pod_Properties
  imports Sample_Cluster
begin

text \<open>
  The properties of the pure part of the operator: what runs in the pod, what admission
  accepts, what other operators see of a Horizon object, and which objects an event wakes.
  Each property is followed by its application to the objects of \<open>Sample_Cluster\<close> where it
  has hypotheses.
\<close>

section \<open>The pod template\<close>

definition sample_deployment :: deployment where
  "sample_deployment =
     (case Deployment sample_pod sample_horizon ''h1'' Map.empty Map.empty
             (Map.empty(''watcher'' \<mapsto> ''yes'', ''cloudkitty'' \<mapsto> ''no'')) None sample_memcached of
        Value d \<Rightarrow> d)"

lemma sample_deployment_value:
  "Deployment sample_pod sample_horizon ''h1'' Map.empty Map.empty
     (Map.empty(''watcher'' \<mapsto> ''yes'', ''cloudkitty'' \<mapsto> ''no'')) None sample_memcached = Value sample_deployment"
proof -
  let ?run = "Deployment sample_pod sample_horizon ''h1'' Map.empty Map.empty
     (Map.empty(''watcher'' \<mapsto> ''yes'', ''cloudkitty'' \<mapsto> ''no'')) None sample_memcached"
  have "case ?run of Value d \<Rightarrow> True | _ \<Rightarrow> False" by code_simp
  then show ?thesis by (cases ?run) (simp_all add: sample_deployment_def)
qed

lemma no_topology_places: "placement_only None"
  by (simp add: placement_only_def)





text \<open>
  C29. The dashboard container listens on one port, 8443 with TLS and 8080 without, under the
  name the probes use; its readiness, liveness and startup probes ask for the login page of
  that port, over HTTPS exactly when TLS is enabled.
\<close>

lemma Deployment_port_and_probes:
  assumes "Deployment L h hash lbl ann en tp mc = Value d" and "placement_only tp"
  shows "\<exists>c. c \<in> set (pt_containers (dp_template d)) \<and> ct_name c = ServiceName \<and>
    ct_ports c = [\<lparr>cp_name = horizonContainerPortName,
      cp_containerPort = (if pl_tlsEnabled L (sp_tls (hz_spec h)) then 8443 else 8080)\<rparr>] \<and>
    (\<exists>live ready start. ct_livenessProbe c = Some live \<and> ct_readinessProbe c = Some ready \<and>
       ct_startupProbe c = Some start \<and>
       list_all (\<lambda>p. hg_port (pr_httpGet p) = horizonContainerPortName \<and>
         hg_path (pr_httpGet p) = horizonDashboardURL \<and>
         hg_scheme (pr_httpGet p) =
           (if pl_tlsEnabled L (sp_tls (hz_spec h)) then SchemeHTTPS else SchemeUnset)) [live, ready, start])"
proof -
  from assms(1) obtain t t' where t: "plain_options L h = Some t"
    and t': "(if pl_tlsEnabled L (sp_tls (hz_spec h)) then formatTLSOptions L t h else Inr t) = Inr t'"
    and d: "d = build_deployment L h lbl ann (getEnvVars hash en) tp (add_mtls mc t')"
    by (rule Deployment_Value)
  note base = plain_options_spec[OF t]
  let ?c = "horizon_container L h (getEnvVars hash en) (add_mtls mc t')"
  have "?c \<in> set (pt_containers (dp_template d))"
    by (simp add: d build_deployment_pods[OF assms(2)])
  moreover have "to_containerPort t' = \<lparr>cp_name = horizonContainerPortName,
      cp_containerPort = (if pl_tlsEnabled L (sp_tls (hz_spec h)) then 8443 else 8080)\<rparr>"
    using t' base
    by (intro container_port.equality)
      (auto simp: HorizonPort_def HorizonPortTLS_def dest: formatTLSOptions_spec(1,2) split: if_splits)
  ultimately show ?thesis
    using t' base
    by (intro exI[of _ ?c])
      (auto simp: horizon_container_def https_probe_def formatProbes_def formatStartupProbe_def
        dashboard_get_def dest: formatTLSOptions_spec(3-5) split: if_splits)
qed

lemma Deployment_port_and_probes_witness:
  "\<exists>c. c \<in> set (pt_containers (dp_template sample_deployment)) \<and>
     map cp_containerPort (ct_ports c) = [8443]"
  using Deployment_port_and_probes[OF sample_deployment_value no_topology_places]
  by (auto simp: sample_pod_def sample_horizon_def sample_spec_def sample_tls_def)

text \<open>
  C30. Building the Deployment panics exactly when an extra volume that propagates to the pod
  has no source, since the code dereferences the pointer it gets for the source unchecked.
\<close>

lemma Deployment_panics_iff:
  "(\<exists>m. Deployment L h hash lbl ann en tp mc = Crash m) \<longleftrightarrow>
     list_ex (\<lambda>v. sv_core_source v = None)
       (concat (map vs_volumes (concat (map (\<lambda>exv. Propagate (pl_Propagate L) exv HorizonPropagation)
          (sp_extraMounts (hz_spec h))))))"
  unfolding Deployment_Crash_iff sources_present_def extra_volumes_def propagated_def
  by (auto simp: list_ex_iff)

text \<open>
  Building the Deployment returns an error exactly when TLS is enabled, its secret cannot
  be turned into a TLS service, and no extra volume lacks its source (that case panics
  first); the error is the one of the conversion.
\<close>

lemma Deployment_error_iff:
  "Deployment L h hash lbl ann en tp mc = Error e \<longleftrightarrow>
     pl_tlsEnabled L (sp_tls (hz_spec h)) \<and> pl_tlsToService L (sp_tls (hz_spec h)) = Inl e \<and>
     \<not> list_ex (\<lambda>v. sv_core_source v = None)
         (concat (map vs_volumes (concat (map (\<lambda>exv. Propagate (pl_Propagate L) exv HorizonPropagation)
            (sp_extraMounts (hz_spec h))))))"
proof -
  have src: "sources_present (extra_volumes (propagated (pl_Propagate L) (sp_extraMounts (hz_spec h)) HorizonPropagation))
      \<longleftrightarrow> \<not> list_ex (\<lambda>v. sv_core_source v = None)
         (concat (map vs_volumes (concat (map (\<lambda>exv. Propagate (pl_Propagate L) exv HorizonPropagation)
            (sp_extraMounts (hz_spec h))))))"
    by (auto simp: list_ex_iff sources_present_def extra_volumes_def propagated_def)
  have tls: "formatTLSOptions L t h = Inl e \<longleftrightarrow> pl_tlsToService L (sp_tls (hz_spec h)) = Inl e" for t
    by (auto simp: formatTLSOptions_def Let_def split: sum.splits)
  show ?thesis
    unfolding src[symmetric]
    using tls by (auto simp: Deployment_def Let_def plain_options_def getVolumes_spec split: option.splits sum.splits if_splits)
qed

text \<open>
  Both containers of the pod see the same environment: the configuration hash, and the two
  dashboard switches ENABLE_CLOUDKITTY and ENABLE_WATCHER as decided by the lookup of the
  Keystone services.
\<close>

lemma Deployment_environment:
  assumes "Deployment L h hash lbl ann en tp mc = Value d" and "merge_envs_law L" and "placement_only tp"
    and "en ''cloudkitty'' = Some ck" and "en ''watcher'' = Some wt"
  shows "map ct_name (pt_containers (dp_template d)) = [hz_name h @ ''-log'', ServiceName] \<and>
    (\<forall>c \<in> set (pt_containers (dp_template d)).
       (''CONFIG_HASH'', hash) \<in> set (ct_env c) \<and> (''ENABLE_CLOUDKITTY'', ck) \<in> set (ct_env c) \<and>
       (''ENABLE_WATCHER'', wt) \<in> set (ct_env c))"
proof -
  from assms(1) obtain t' where
    d: "d = build_deployment L h lbl ann (getEnvVars hash en) tp (add_mtls mc t')"
    by (rule Deployment_Value)
  have "getEnvVars hash en ''CONFIG_HASH'' = Some hash" "getEnvVars hash en ''ENABLE_CLOUDKITTY'' = Some ck"
    "getEnvVars hash en ''ENABLE_WATCHER'' = Some wt"
    using assms(4,5) by (simp_all add: getEnvVars_def map_get_def)
  then show ?thesis
    using assms(2)
    by (simp add: d build_deployment_pods[OF assms(3)] log_container_def horizon_container_def merge_envs_law_def)
qed

lemma Deployment_environment_witness:
  "map ct_name (pt_containers (dp_template sample_deployment)) = [''horizon-log'', ''horizon''] \<and>
   list_all (\<lambda>c.
      (''CONFIG_HASH'', ''h1'') \<in> set (ct_env c) \<and> (''ENABLE_CLOUDKITTY'', ''no'') \<in> set (ct_env c) \<and>
      (''ENABLE_WATCHER'', ''yes'') \<in> set (ct_env c)) (pt_containers (dp_template sample_deployment))"
  using Deployment_environment[OF sample_deployment_value sample_merge_law no_topology_places, of "''no''" "''yes''"]
  by (simp add: sample_horizon_def ServiceName_def list_all_iff)

text \<open>
  The Deployment selects exactly the labels its pods carry, lives in the namespace of the
  object, asks for the replicas of the spec, and runs under the service account that
  role-based access was configured for.
\<close>

lemma Deployment_identity:
  assumes "Deployment L h hash lbl ann en tp mc = Value d" and "placement_only tp"
  shows "dp_matchLabels d = pt_labels (dp_template d) \<and> dp_namespace d = hz_namespace h \<and>
    dp_replicas d = sp_replicas (hz_spec h) \<and> pt_annotations (dp_template d) = ann \<and>
    pt_serviceAccountName (dp_template d) = RbacResourceName h"
proof -
  from assms(1) obtain t' where
    "d = build_deployment L h lbl ann (getEnvVars hash en) tp (add_mtls mc t')"
    by (rule Deployment_Value)
  then show ?thesis by (simp add: build_deployment_def place_pods_frame[OF assms(2)])
qed

lemma Deployment_identity_witness:
  "dp_matchLabels sample_deployment = pt_labels (dp_template sample_deployment) \<and>
   dp_replicas sample_deployment = Some 1 \<and>
   pt_serviceAccountName (dp_template sample_deployment) = ''horizon-horizon''"
  using Deployment_identity[OF sample_deployment_value no_topology_places]
  by (simp add: sample_horizon_def sample_spec_def RbacResourceName_def)

text \<open>
  Without TLS the CA bundle never reaches the pod: two objects that differ only in their
  TLS section, and have TLS disabled, get the same Deployment, although the reconciler
  validates and hashes the bundle whenever it is named.
\<close>

lemma Deployment_ignores_ca_without_tls:
  assumes "\<not> pl_tlsEnabled L (sp_tls (hz_spec h))" and "\<not> pl_tlsEnabled L tls'"
  shows "Deployment L (h\<lparr>hz_spec := (hz_spec h)\<lparr>sp_tls := tls'\<rparr>\<rparr>) hash lbl ann en tp mc =
    Deployment L h hash lbl ann en tp mc"
  using assms
  by (simp add: Deployment_def plain_options_def build_deployment_def log_container_def horizon_container_def
      RbacResourceName_def Let_def split: option.splits)

lemma Deployment_ignores_ca_without_tls_witness:
  "Deployment sample_pod (sample_horizon\<lparr>hz_spec := sample_spec\<lparr>sp_tls := plain_tls\<lparr>tls_caBundleSecretName := ''ca''\<rparr>\<rparr>\<rparr>)
     ''h1'' Map.empty Map.empty Map.empty None sample_memcached =
   Deployment sample_pod (sample_horizon\<lparr>hz_spec := sample_spec\<lparr>sp_tls := plain_tls\<rparr>\<rparr>)
     ''h1'' Map.empty Map.empty Map.empty None sample_memcached"
  using Deployment_ignores_ca_without_tls[of sample_pod "sample_horizon\<lparr>hz_spec := sample_spec\<lparr>sp_tls := plain_tls\<rparr>\<rparr>"
      "plain_tls\<lparr>tls_caBundleSecretName := ''ca''\<rparr>" "''h1''" Map.empty Map.empty Map.empty None sample_memcached]
  by (simp add: sample_pod_def plain_tls_def)

text \<open>
  The volume of the scripts and the config map of the scripts agree only for an object
  called "horizon": the volume is fixed to horizon-scripts, the config map carries the name of
  the object.
\<close>

lemma scripts_volume_matches_iff:
  "vol_source getScriptVolume = ConfigMapSource scriptsVolumeDefaultMode
       (tm_name (config_templates K i params ! 1)) \<longleftrightarrow> hz_name i = ''horizon''"
  by (auto simp: getScriptVolume_def config_templates_def ServiceName_def)

section \<open>Extra mounts\<close>

text \<open>
  C36. Which extra mounts reach the pod: all of them, in order, except an entry of a theme type
  (the word theme in any case) with a mount whose path contains neither the theme directory
  nor the local settings directory; such an entry is dropped as a whole.
\<close>

lemma Propagate_filters_themes:
  "Propagate prop c svc = concat (map (\<lambda>gv. prop gv svc) (filter (\<lambda>gv.
     \<not> (sublist ''theme'' (to_lower (vs_extraVolType gv)) \<and>
        list_ex (\<lambda>m. \<not> sublist ''/etc/openstack-dashboard/theme'' (vm_mountPath m) \<and>
                     \<not> sublist ''/etc/openstack-dashboard/local_settings.d'' (vm_mountPath m))
          (vs_mounts gv))) (ev_volMounts c)))"
proof -
  have "mounts_accepted = (\<lambda>gv. \<not> (sublist ''theme'' (to_lower (vs_extraVolType gv)) \<and>
        list_ex (\<lambda>m. \<not> sublist ''/etc/openstack-dashboard/theme'' (vm_mountPath m) \<and>
                     \<not> sublist ''/etc/openstack-dashboard/local_settings.d'' (vm_mountPath m))
          (vs_mounts gv)))"
    by (rule ext) (auto simp: mounts_accepted_def theme_type_def theme_path_def go_contains_sublist list_ex_iff
        HorizonThemeExtraVolType_def HorizonCustomThemeMountPath_def HorizonCustomThemeSetting_def)
  then show ?thesis by (simp only: Propagate_spec)
qed

end
