(* ===== verification/Rollout_Properties.thy ===== *)
theory Rollout_Properties
  imports Stage_Properties Pod_Properties
begin

text \<open>
  The properties of the stages from the Keystone lookup to the end of reconcileNormal: the
  Kubernetes service and endpoint, network attachments, topology, the Deployment and the
  conditions that close the pass.
\<close>

section \<open>Keystone services\<close>

text \<open>
  The dashboard switches: when every lookup of a Keystone service answers with the service
  or with NotFound, cloudkitty and watcher are "yes" exactly when found, and nothing else
  changes.
\<close>

lemma enabled_services_flags:
  assumes "\<And>sv w. ap_GetKeystoneServiceWithName A sv (hz_namespace (rs_inst s)) w = ((found sv, err sv), w)"
    and "\<And>sv e. err sv = Some e \<Longrightarrow> is_not_found e"
  shows "enabled_services A s = (Next
    [''cloudkitty'' \<mapsto> (if found ''cloudkitty'' then ''yes'' else ''no''),
     ''watcher'' \<mapsto> (if found ''watcher'' then ''yes'' else ''no'')], s)"
proof -
  have ok: "\<not> (case err sv of None \<Rightarrow> False | Some e \<Rightarrow> \<not> is_not_found e)" for sv
    using assms(2)[of sv] by (auto split: option.split)
  show ?thesis
    by (simp add: enabled_services_def keystoneServicesWatch_def flow_simps assms(1) ok)
qed

lemma enabled_services_flags_witness:
  "enabled_services sample_api sample_state = (Next [''cloudkitty'' \<mapsto> ''no'', ''watcher'' \<mapsto> ''yes''], sample_state)"
proof -
  have look: "ap_GetKeystoneServiceWithName sample_api sv (hz_namespace (rs_inst sample_state)) w =
      ((sv = ''watcher'', if sv = ''watcher'' then None else Some (NotFound sv)), w)" for sv w
    by (simp add: sample_api_def)
  have "is_not_found e" if "(if sv = ''watcher'' then None else Some (NotFound sv)) = Some e" for sv e
    using that by (auto split: if_splits)
  from enabled_services_flags[OF look this] show ?thesis by simp
qed

section \<open>The Kubernetes service\<close>



text \<open>
  C31. One port, three places: the target port of the Kubernetes service is a port of a
  container of the Deployment and the port the rendered configuration listens on, and the
  service selects the labels the pods carry, with TLS and without.
\<close>

lemma service_reaches_pods:
  assumes "Deployment (el_pod K) i hash lbl ann en tp mc = Value d" and "placement_only tp"
  shows "map sport_targetPort (sd_ports (service_request K i lbl)) =
      [if tls_enabled K i then HorizonPortTLS else HorizonPort] \<and>
    templateParameters K i mc' authURL url ''Port'' =
      Some (PInt (if tls_enabled K i then HorizonPortTLS else HorizonPort)) \<and>
    (\<exists>c. c \<in> set (pt_containers (dp_template d)) \<and>
       map cp_containerPort (ct_ports c) = [if tls_enabled K i then HorizonPortTLS else HorizonPort]) \<and>
    sd_selector (service_request K i lbl) = pt_labels (dp_template d)"
proof -
  from assms(1) obtain t t' where t: "plain_options (el_pod K) i = Some t"
    and t': "(if pl_tlsEnabled (el_pod K) (sp_tls (hz_spec i)) then formatTLSOptions (el_pod K) t i else Inr t) = Inr t'"
    and d: "d = build_deployment (el_pod K) i lbl ann (getEnvVars hash en) tp (add_mtls mc t')"
    by (rule Deployment_Value)
  have "map cp_containerPort (ct_ports (horizon_container (el_pod K) i (getEnvVars hash en) (add_mtls mc t'))) =
      [if tls_enabled K i then HorizonPortTLS else HorizonPort]"
    using t' plain_options_spec(1)[OF t]
    by (auto simp: horizon_container_def tls_enabled_def dest: formatTLSOptions_spec(1) split: if_splits)
  moreover have "horizon_container (el_pod K) i (getEnvVars hash en) (add_mtls mc t') \<in> set (pt_containers (dp_template d))"
    by (simp add: d build_deployment_pods[OF assms(2)])
  moreover have "pt_labels (dp_template d) = lbl"
    by (simp add: d build_deployment_def place_pods_frame[OF assms(2)])
  ultimately show ?thesis
    by (auto simp: service_request_def servicePort_def Let_def templateParameters_port)
qed

lemma service_reaches_pods_witness:
  "map sport_targetPort (sd_ports (service_request sample_env sample_horizon Map.empty)) = [8443]"
proof -
  have "Deployment (el_pod sample_env) sample_horizon ''h1'' Map.empty Map.empty
     (Map.empty(''watcher'' \<mapsto> ''yes'', ''cloudkitty'' \<mapsto> ''no'')) None sample_memcached = Value sample_deployment"
    using sample_deployment_value by (simp add: sample_env_def)
  from service_reaches_pods[OF this no_topology_places] show ?thesis
    by (simp add: tls_enabled_def sample_env_def sample_pod_def HorizonPortTLS_def)
qed

text \<open>
  How the service is exposed: the public endpoint annotation first; then a route is
  requested for a ClusterIP service only, and the host name annotation is added for a
  LoadBalancer service only. Nothing else about the service changes.
\<close>

lemma annotate_service_exposure:
  "annotate_service K svc = svc\<lparr>svc_annotations := svc_annotations svc @
     [[el_AnnotationEndpointKey K \<mapsto> el_EndpointPublic K],
      [el_AnnotationIngressCreateKey K \<mapsto> (if svc_type svc = ClusterIP then ''true'' else ''false'')]] @
     (if svc_type svc = LoadBalancer then [[el_AnnotationHostnameKey K \<mapsto> svc_hostname svc]] else [])\<rparr>"
  by (simp add: annotate_service_def AddAnnotation_def Let_def)

section \<open>The rendered configuration\<close>

text \<open>
  C37. The endpoint in the configuration: for an endpoint made of http or https, a host with an
  optional port and a plain path, url.Parse succeeds, the configuration gets that endpoint and
  exactly that host, and isPublicHTTPS says whether the scheme is https.
\<close>

lemma rendered_endpoint:
  assumes "st_endpoint (hz_status i) = sch @ ''://'' @ host @ path"
    and "sch = ''http'' \<or> sch = ''https''" and "plain_host host" and "plain_path path"
  shows "\<exists>url. url_Parse iplit (st_endpoint (hz_status i)) = Inr url \<and>
    templateParameters K i mc authURL url ''horizonEndpoint'' = Some (PStr (sch @ ''://'' @ host @ path)) \<and>
    templateParameters K i mc authURL url ''horizonEndpointHost'' = Some (PStr host) \<and>
    templateParameters K i mc authURL url ''isPublicHTTPS'' = Some (PBool (sch = ''https''))"
  using url_Parse_plain[OF assms(2-4), of iplit] assms(1)
  by (simp add: templateParameters_endpoint)

lemma rendered_endpoint_witness:
  "\<exists>url. url_Parse (\<lambda>s. Inl (ApiError s)) ''https://horizon-openstack.apps:8443/dashboard'' = Inr url \<and>
     templateParameters sample_env
       (sample_horizon\<lparr>hz_status := sample_status\<lparr>st_endpoint := ''https://horizon-openstack.apps:8443/dashboard''\<rparr>\<rparr>)
       sample_memcached ''http://keystone'' url ''horizonEndpointHost'' = Some (PStr ''horizon-openstack.apps:8443'')"
proof -
  have name: "list_all name_char ''horizon-openstack.apps''" by code_simp
  have port: "valid_optional_port '':8443''" by code_simp
  have "plain_host (''horizon-openstack.apps'' @ '':8443'')"
    unfolding plain_host_def using name port by blast
  then have host: "plain_host ''horizon-openstack.apps:8443''" by simp
  have "list_all (\<lambda>c. name_char c \<or> c = CHR ''/'' \<or> c = CHR ''_'') ''dashboard''" by code_simp
  then have path: "plain_path ''/dashboard''" by (simp add: plain_path_def)
  let ?i = "sample_horizon\<lparr>hz_status := sample_status\<lparr>st_endpoint := ''https://horizon-openstack.apps:8443/dashboard''\<rparr>\<rparr>"
  have "st_endpoint (hz_status ?i) = ''https'' @ ''://'' @ ''horizon-openstack.apps:8443'' @ ''/dashboard''" by simp
  from rendered_endpoint[OF this _ host path, of "\<lambda>s. Inl (ApiError s)" sample_env sample_memcached "''http://keystone''"]
  show ?thesis by auto
qed

text \<open>
  A file of DefaultConfigOverwrite called 9999_custom_settings.py replaces the content of
  CustomServiceConfig; otherwise that content is kept, and every other file is taken over.
\<close>

lemma customData_precedence:
  "customData i f = (case sp_defaultConfigOverwrite (hz_spec i) f of
     Some content \<Rightarrow> Some content
   | None \<Rightarrow> if f = ''9999_custom_settings.py'' then Some (sp_customServiceConfig (hz_spec i)) else None)"
  by (simp add: customData_def maps_copy_apply split: option.split)

section \<open>Network attachments\<close>

lemma nad_loop_found:
  assumes "\<And>n w. n \<in> set ats \<Longrightarrow> ap_GetNADWithName A n ns w = (Inr (nads n), w)"
  shows "nad_loop C A ns ats l s = (Next (l @ List.map_filter nads ats), s)"
  using assms
proof (induction ats arbitrary: l)
  case Nil
  then show ?case by (simp add: flow_simps)
next
  case (Cons a ats)
  have "ap_GetNADWithName A a ns (rs_world s) = (Inr (nads a), rs_world s)" using Cons.prems by simp
  then show ?case
    using Cons.IH Cons.prems
    by (simp add: nad_loop_step List.map_filter_simps del: nad_loop.simps(2) split: option.split)
qed

lemma nad_loop_append:
  assumes "\<And>n w. n \<in> set pre \<Longrightarrow> ap_GetNADWithName A n ns w = (Inr (nads n), w)"
  shows "nad_loop C A ns (pre @ ats) l s = nad_loop C A ns ats (l @ List.map_filter nads pre) s"
  using assms
proof (induction pre arbitrary: l)
  case Nil
  then show ?case by simp
next
  case (Cons a pre)
  have "ap_GetNADWithName A a ns (rs_world s) = (Inr (nads a), rs_world s)" using Cons.prems by simp
  then show ?case
    using Cons.IH Cons.prems
    by (simp add: nad_loop_step List.map_filter_simps del: nad_loop.simps(2) split: option.split)
qed

text \<open>
  When every attachment of the spec can be looked up, the definitions found are passed in
  the order of the spec to the function that builds the annotation; its map becomes the
  annotations of the pods and NetworkAttachmentsReady is True, its error is returned wrapped and
  sets the condition False.
\<close>

lemma attachments_annotated:
  assumes C: "cond_laws C"
    and found: "\<And>n w. n \<in> set (sp_networkAttachments (hz_spec (rs_inst s))) \<Longrightarrow>
      ap_GetNADWithName A n (hp_before_namespace hp) w = (Inr (nads n), w)"
    and run: "nad_step C K A hp s = (f, t)"
  shows "rs_world t = rs_world s \<and>
    (case el_EnsureNetworksAnnotation K (List.map_filter nads (sp_networkAttachments (hz_spec (rs_inst s)))) of
       Inr ann \<Rightarrow> f = Next ann \<and> status_of (conds t) NetworkAttachmentsReady = Some CTrue
     | Inl e \<Rightarrow> (\<exists>err. f = Return (res0, Some err) \<and> errors_is err e) \<and>
         status_of (conds t) NetworkAttachmentsReady = Some CFalse)"
  using run
  by (auto simp: nad_step_def ensureNAD_def flow_simps nad_loop_found[OF found] mark_true_def mark_false_def
      conds_def cond_list_laws(3,4)[OF C] status_set[OF C] cond_type_laws(2,3)[OF C]
      cond_status_laws(2)[OF C] c_status_false[OF C] split: sum.splits)

lemma attachments_annotated_witness:
  "fst (nad_step list_cond_lib sample_env sample_api \<lparr>hp_GetFinalizer = ''fin'', hp_before_namespace = ''openstack''\<rparr> sample_state)
     = Next [''k8s.v1.cni.cncf.io/networks'' \<mapsto> ''net'']"
proof -
  let ?hp = "\<lparr>hp_GetFinalizer = ''fin'', hp_before_namespace = ''openstack''\<rparr>"
  obtain f t where run: "nad_step list_cond_lib sample_env sample_api ?hp sample_state = (f, t)" by fastforce
  have "ap_GetNADWithName sample_api n (hp_before_namespace ?hp) w = (Inr (Some \<lparr>nad_name = n, nad_namespace = ''openstack''\<rparr>), w)" for n w
    by (simp add: sample_api_def)
  from attachments_annotated[OF list_cond_laws this run] run show ?thesis
    by (simp add: sample_env_def List.map_filter_simps)
qed

text \<open>
  C40. A network attachment definition whose lookup fails, for whatever reason, does not stop
  the pass: the caller looks at the error result only, which is nil, drops the requested
  requeue, sets NetworkAttachmentsReady to True and goes on with no annotations at all, even for
  the attachments found before.
\<close>

lemma failed_attachment_ignored:
  assumes C: "cond_laws C"
    and spec: "sp_networkAttachments (hz_spec (rs_inst s)) = pre @ a # post"
    and found: "\<And>n w. n \<in> set pre \<Longrightarrow> ap_GetNADWithName A n (hp_before_namespace hp) w = (Inr (nads n), w)"
    and failed: "ap_GetNADWithName A a (hp_before_namespace hp) (rs_world s) = (Inl err, w)"
    and run: "nad_step C K A hp s = (f, t)"
  shows "f = Next Map.empty \<and> status_of (conds t) NetworkAttachmentsReady = Some CTrue \<and> rs_world t = w"
proof -
  obtain s' where loop: "nad_loop C A (hp_before_namespace hp) (pre @ a # post) [] s
      = (Return (Map.empty, requeue_in 10, None), s')" and w: "rs_world s' = w"
    using nad_loop_missing[OF failed, of C post "List.map_filter nads pre"] nad_loop_append[OF found, of pre]
    by (metis append_Nil)
  show ?thesis
    using run w
    by (auto simp: nad_step_def ensureNAD_def flow_simps spec loop mark_true_def conds_def
        cond_list_laws(3)[OF C] status_set[OF C] cond_type_laws(3)[OF C] cond_status_laws(2)[OF C])
qed

lemma failed_attachment_ignored_witness:
  "fst (nad_step list_cond_lib sample_env without_nads \<lparr>hp_GetFinalizer = ''fin'', hp_before_namespace = ''openstack''\<rparr> sample_state)
     = Next Map.empty"
proof -
  let ?hp = "\<lparr>hp_GetFinalizer = ''fin'', hp_before_namespace = ''openstack''\<rparr>"
  obtain f t where run: "nad_step list_cond_lib sample_env without_nads ?hp sample_state = (f, t)" by fastforce
  have none: "\<And>n w. n \<in> set [] \<Longrightarrow> ap_GetNADWithName without_nads n (hp_before_namespace ?hp) w = (Inr None, w)"
    by simp
  have spec: "sp_networkAttachments (hz_spec (rs_inst sample_state)) = [] @ ''net'' # []" by simp
  have failed: "ap_GetNADWithName without_nads ''net'' (hp_before_namespace ?hp) (rs_world sample_state) = (Inl (NotFound ''net''), ())"
    by (simp add: without_nads_def)
  from failed_attachment_ignored[OF list_cond_laws spec none failed run] run show ?thesis by simp
qed

text \<open>
  After the rollout, the network status of the pods is verified only for a positive replica
  count: a failing check and a mismatch both end the pass with an error and
  NetworkAttachmentsReady False, the mismatch after storing the status that was observed;
  with all interfaces in place the condition is True. A nil replica count panics here.
\<close>

lemma verify_network_outcomes:
  assumes C: "cond_laws C"
    and got: "ap_VerifyNetworkStatus A (sp_networkAttachments (hz_spec (rs_inst s))) lbl
      (st_readyCount (hz_status (rs_inst s))) (rs_world s) = (got, w)"
    and run: "verify_network C A lbl s = (f, t)"
  shows "case sp_replicas (hz_spec (rs_inst s)) of
      None \<Rightarrow> t = s \<and> (\<exists>p. f = Panic p)
    | Some n \<Rightarrow>
        if n \<le> 0 then t = s \<and> f = Next ()
        else rs_world t = w \<and>
          (case got of
             Inl e \<Rightarrow> (\<exists>err. f = Return (res0, Some err) \<and> errors_is err e) \<and>
               status_of (conds t) NetworkAttachmentsReady = Some CFalse
           | Inr (ready, seen) \<Rightarrow> st_networkAttachments (hz_status (rs_inst t)) = seen \<and>
               (if ready then f = Next () \<and> status_of (conds t) NetworkAttachmentsReady = Some CTrue
                else (\<exists>err. f = Return (res0, Some err) \<and> errors_is err ErrNetworkAttachmentConfig) \<and>
                  status_of (conds t) NetworkAttachmentsReady = Some CFalse))"
  using run got
  by (auto simp: verify_network_def Let_def flow_simps step_defs conds_def
      cond_list_laws(3,4)[OF C] status_set[OF C] cond_type_laws(2,3)[OF C] cond_status_laws(2)[OF C]
      c_status_false[OF C] split: option.splits sum.splits if_splits)

lemma verify_network_outcomes_witness:
  "fst (verify_network list_cond_lib sample_api Map.empty sample_state) = Next ()"
proof -
  obtain f t where run: "verify_network list_cond_lib sample_api Map.empty sample_state = (f, t)" by fastforce
  have "ap_VerifyNetworkStatus sample_api (sp_networkAttachments (hz_spec (rs_inst sample_state))) Map.empty
      (st_readyCount (hz_status (rs_inst sample_state))) (rs_world sample_state) = (Inr (True, None), ())"
    by (simp add: sample_api_def)
  from verify_network_outcomes[OF list_cond_laws this run] run show ?thesis by simp
qed

section \<open>Topology\<close>

text \<open>
  The topology stage: an error sets TopologyReady False and is returned wrapped, with the
  last applied topology untouched; otherwise the status records exactly the reference of the
  spec, nil included, and TopologyReady becomes True when there is one and stays as it was
  when there is none.
\<close>

lemma topology_outcomes:
  assumes C: "cond_laws C"
    and got: "ap_EnsureServiceTopology A (sp_topologyRef (hz_spec (rs_inst s)))
      (st_lastAppliedTopology (hz_status (rs_inst s))) (hz_name (rs_inst s)) (el_GetLabelSelector K lbl)
      (rs_world s) = (got, w)"
    and run: "topology_step C K A lbl s = (f, t)"
  shows "rs_world t = w \<and>
    (case got of
       Inl e \<Rightarrow> (\<exists>err. f = Return (res0, Some err) \<and> errors_is err e) \<and>
         status_of (conds t) TopologyReady = Some CFalse \<and>
         st_lastAppliedTopology (hz_status (rs_inst t)) = st_lastAppliedTopology (hz_status (rs_inst s))
     | Inr tp \<Rightarrow> f = Next tp \<and>
         st_lastAppliedTopology (hz_status (rs_inst t)) = sp_topologyRef (hz_spec (rs_inst s)) \<and>
         status_of (conds t) TopologyReady =
           (if sp_topologyRef (hz_spec (rs_inst s)) = None then status_of (conds s) TopologyReady else Some CTrue))"
  using run got
  by (cases "sp_topologyRef (hz_spec (rs_inst s))")
    (auto simp: topology_step_def Let_def flow_simps step_defs conds_def conds_of_def status_cond_def upd_status_def
      cond_list_laws(3)[OF C] status_set[OF C] cond_type_laws(2,3)[OF C] cond_status_laws(2)[OF C]
      c_status_false[OF C] split: sum.splits)

lemma topology_outcomes_witness:
  "\<exists>t. snd (topology_step list_cond_lib sample_env sample_api Map.empty sample_state) = t \<and>
     st_lastAppliedTopology (hz_status (rs_inst t)) = Some \<lparr>tr_name = ''zones'', tr_namespace = ''openstack''\<rparr>"
proof -
  obtain f t where run: "topology_step list_cond_lib sample_env sample_api Map.empty sample_state = (f, t)" by fastforce
  obtain tp where "ap_EnsureServiceTopology sample_api (sp_topologyRef (hz_spec (rs_inst sample_state)))
      (st_lastAppliedTopology (hz_status (rs_inst sample_state))) (hz_name (rs_inst sample_state))
      (el_GetLabelSelector sample_env Map.empty) (rs_world sample_state) = (Inr tp, ())"
    by (simp add: sample_api_def)
  from topology_outcomes[OF list_cond_laws this run] run show ?thesis by (simp add: sample_spec_def)
qed

section \<open>The Deployment and the end of the pass\<close>

text \<open>
  Writing the Deployment: an error of building or of writing it sets DeploymentReady False
  and is returned; a requeue requested by the write is passed on with the condition False;
  otherwise the stage goes on with the Deployment read back, and takes its ready replicas
  over into ReadyCount exactly when the Deployment controller has observed its generation.
\<close>

lemma deployment_outcomes:
  assumes C: "cond_laws C"
    and depl: "Deployment (el_pod K) (rs_inst s) hash lbl ann en tp mc = Value d"
    and patch: "ap_DeploymentCreateOrPatch A d 5 (rs_world s) = (((r, err), live), w)"
    and run: "deployment_step C K A hash lbl ann en tp mc s = (f, t)"
  shows "rs_world t = w \<and>
    (case err of
       Some e \<Rightarrow> f = Return (r, Some e) \<and> cond_view (conds t) DeploymentReady = Some (CFalse, ErrorReason, SeverityWarning)
     | None \<Rightarrow>
         if r \<noteq> res0
         then f = Return (r, None) \<and> cond_view (conds t) DeploymentReady = Some (CFalse, RequestedReason, SeverityInfo)
         else f = Next live \<and> conds t = conds s \<and>
           st_readyCount (hz_status (rs_inst t)) =
             (if ld_generation live = ld_observedGeneration live then ld_readyReplicas live
              else st_readyCount (hz_status (rs_inst s))))"
  using run
  by (cases err)
    (auto simp: deployment_step_def depl_failed_def depl patch flow_simps step_defs conds_def conds_of_def
      status_cond_def upd_status_def cond_list_laws(2)[OF C] cond_type_laws(2)[OF C] cond_status_laws(3)[OF C]
      split: if_splits)

lemma deployment_outcomes_witness:
  "fst (deployment_step list_cond_lib sample_env sample_api ''h1'' Map.empty Map.empty
     (Map.empty(''watcher'' \<mapsto> ''yes'', ''cloudkitty'' \<mapsto> ''no'')) None sample_memcached sample_state) = Next sample_live"
proof -
  obtain f t where run: "deployment_step list_cond_lib sample_env sample_api ''h1'' Map.empty Map.empty
     (Map.empty(''watcher'' \<mapsto> ''yes'', ''cloudkitty'' \<mapsto> ''no'')) None sample_memcached sample_state = (f, t)"
    by fastforce
  have "Deployment (el_pod sample_env) (rs_inst sample_state) ''h1'' Map.empty Map.empty
     (Map.empty(''watcher'' \<mapsto> ''yes'', ''cloudkitty'' \<mapsto> ''no'')) None sample_memcached = Value sample_deployment"
    using sample_deployment_value by (simp add: sample_env_def)
  moreover have "ap_DeploymentCreateOrPatch sample_api sample_deployment 5 (rs_world sample_state)
      = (((res0, None), sample_live), ())"
    by (simp add: sample_api_def)
  ultimately show ?thesis
    using deployment_outcomes[OF list_cond_laws _ _ run] run by simp
qed

text \<open>
  The end of the pass decides DeploymentReady by deployment.IsReady of the Deployment read
  back, always returns without error or requeue, and turns Ready to True exactly when every
  other condition is True then; otherwise Ready keeps its status.
\<close>

lemma finish_outcomes:
  assumes C: "cond_laws C" and run: "finish_step C K deploy s = (f, t)"
  shows "f = Next (res0, None) \<and> rs_world t = rs_world s \<and>
    status_of (conds t) DeploymentReady = Some (if el_DeploymentIsReady K deploy then CTrue else CFalse) \<and>
    (\<exists>cs. (\<forall>u. u \<noteq> Ready \<longrightarrow> status_of (conds t) u = status_of cs u) \<and>
      status_of (conds t) Ready = (if others_true cs Ready then Some CTrue else status_of (conds s) Ready))"
proof -
  let ?c = "if el_DeploymentIsReady K deploy then cl_true C DeploymentReady (Msg ''DeploymentReadyMessage'' [])
    else cl_false C DeploymentReady RequestedReason SeverityInfo (Msg ''DeploymentReadyRunningMessage'' [])"
  let ?cs = "cl_set C (conds s) ?c"
  let ?ds = "if others_true ?cs Ready then cl_set C ?cs (cl_true C Ready (Msg ''ReadyMessage'' [])) else ?cs"
  have c: "c_type ?c = DeploymentReady" "c_status ?c = (if el_DeploymentIsReady K deploy then CTrue else CFalse)"
    by (simp_all add: cond_type_laws(2,3)[OF C] cond_status_laws(2)[OF C] c_status_false[OF C])
  have t: "f = Next (res0, None)" "rs_world t = rs_world s" "conds t = ?ds"
    using run by (auto simp: finish_step_def flow_simps mark_true_def set_cond_def conds_def
        cond_list_laws(3,8)[OF C] split: if_splits)
  show ?thesis
    unfolding t by (intro conjI exI[of _ ?cs]) 
      (simp_all add: status_set[OF C] c cond_type_laws(2,3)[OF C] cond_status_laws(2)[OF C] c_status_false[OF C])
qed

lemma finish_outcomes_witness:
  "\<exists>t. finish_step list_cond_lib sample_env sample_live sample_state = (Next (res0, None), t) \<and>
     status_of (conds t) DeploymentReady = Some CTrue"
proof -
  obtain f t where run: "finish_step list_cond_lib sample_env sample_live sample_state = (f, t)" by fastforce
  from finish_outcomes[OF list_cond_laws run] run show ?thesis
    by (simp add: sample_env_def sample_live_def)
qed

end
