(* ===== verification/Pass_Open.thy ===== *)
theory Pass_Open
  imports Pass_Frame
begin

text \<open>
  How a pass opens: the object as it stands once the conditions were initialised and the
  finalizer was added, and the rest of the body as a function of that object. The later
  theories run passes from here.
\<close>

text \<open>What a pass over \<open>inst\<close> with finalizers \<open>fs\<close> to write leaves of the object.\<close>

definition kept :: "horizon \<Rightarrow> string list \<Rightarrow> horizon \<Rightarrow> bool" where
  "kept inst fs h \<longleftrightarrow>
     hz_kind h = hz_kind inst \<and> hz_name h = hz_name inst \<and> hz_namespace h = hz_namespace inst \<and>
     hz_generation h = hz_generation inst \<and> hz_deletionTimestamp h = hz_deletionTimestamp inst \<and>
     hz_finalizers h = fs \<and> st_observedGeneration (hz_status h) = hz_generation inst \<and>
     hz_spec h \<in> {hz_spec inst, touch_spec (hz_spec inst)}"

lemma kept_object: "object_rel h k \<Longrightarrow> kept inst fs h \<Longrightarrow> kept inst fs k"
  by (auto simp: kept_def object_rel_def)

lemma kept_patch: "kept inst fs h \<Longrightarrow> kept inst fs (patch_object C saved h)"
  by (simp add: kept_def patch_object_def Let_def)

text \<open>The part of the body after the finalizer was added.\<close>

definition pass_rest :: "cond_lib \<Rightarrow> env_lib \<Rightarrow> 'w api \<Rightarrow> helper \<Rightarrow> bool \<Rightarrow> ('w, ret) body" where
  "pass_rest C K A hp deleting =
     and_then init_hash (\<lambda>_. if deleting then call_proc (reconcileDelete K A hp)
        else call_proc (reconcileNormal C K A hp))"

definition opened :: "cond_lib \<Rightarrow> env_lib \<Rightarrow> helper \<Rightarrow> horizon \<Rightarrow> horizon" where
  "opened C K hp inst =
     (let i = start_object inst;
          i1 = upd_status (\<lambda>st. st\<lparr>st_observedGeneration := hz_generation i\<rparr>)
                 (status_cond (\<lambda>cs. cl_init C cs (init_list C)) i)
      in if is_zero_time (hz_deletionTimestamp inst)
         then i1\<lparr>hz_finalizers := fst (el_AddFinalizer K (hz_finalizers inst) (hp_GetFinalizer hp))\<rparr>
         else i1)"

definition first_pass :: "env_lib \<Rightarrow> helper \<Rightarrow> horizon \<Rightarrow> bool" where
  "first_pass K hp inst \<longleftrightarrow> is_new inst \<or> is_zero_time (hz_deletionTimestamp inst) \<and>
     snd (el_AddFinalizer K (hz_finalizers inst) (hp_GetFinalizer hp))"

lemma start_object_frame [simp]:
  "hz_name (start_object i) = hz_name i" "hz_namespace (start_object i) = hz_namespace i"
  "hz_kind (start_object i) = hz_kind i" "hz_spec (start_object i) = hz_spec i"
  "hz_generation (start_object i) = hz_generation i" "hz_finalizers (start_object i) = hz_finalizers i"
  "hz_deletionTimestamp (start_object i) = hz_deletionTimestamp i"
  "st_hash (hz_status (start_object i)) = st_hash (hz_status i)"
  "st_lastAppliedTopology (hz_status (start_object i)) = st_lastAppliedTopology (hz_status i)"
  by (simp_all add: start_object_def)

lemma body_opened:
  "reconcile_body C K A hp (is_new inst) (start_state inst w) =
     (if first_pass K hp inst
      then (Return (res0, None), (start_state inst w)\<lparr>rs_inst := opened C K hp inst\<rparr>)
      else pass_rest C K A hp (\<not> is_zero_time (hz_deletionTimestamp inst))
             ((start_state inst w)\<lparr>rs_inst := opened C K hp inst\<rparr>))"
proof (cases "el_AddFinalizer K (hz_finalizers inst) (hp_GetFinalizer hp)")
  case (Pair fs added)
  then show ?thesis
    by (auto simp: reconcile_body_def init_status_def add_finalizer_def pass_rest_def init_hash_def
        first_pass_def opened_def Let_def flow_simps is_zero_time_def)
qed

lemma conds_opened: "conds_of (hz_status (opened C K hp inst)) = cl_init C (saved_of inst) (init_list C)"
  by (simp add: opened_def Let_def saved_of_def conds_of_def status_cond_def)

lemma opened_kept:
  "kept inst (if is_zero_time (hz_deletionTimestamp inst)
     then fst (el_AddFinalizer K (hz_finalizers inst) (hp_GetFinalizer hp)) else hz_finalizers inst)
     (opened C K hp inst)"
  by (simp add: kept_def opened_def Let_def)

text \<open>The rest of a pass keeps the object, deletion apart, which may take the finalizer off.\<close>

lemma kept_rest:
  "triple (\<lambda>s. kept inst fs (rs_inst s)) (pass_rest C K A hp False)
     (\<lambda>_ s. kept inst fs (rs_inst s)) (\<lambda>s. kept inst fs (rs_inst s))"
proof -
  have "keeps same_object init_hash"
    by (auto simp: keeps_def init_hash_def flow_simps same_object_def object_rel_def)
  then have "keeps same_object (pass_rest C K A hp False)"
    unfolding pass_rest_def if_False
    by (intro obj.keeps_and_then obj.keeps_call keeps_normal)
  then show ?thesis
    unfolding triple_def keeps_def same_object_def
    by (fastforce dest: kept_object split: flow.splits prod.splits)
qed

lemma delete_run:
  assumes "ap_EnsureDeletedTopologyRef A (st_lastAppliedTopology (hz_status (rs_inst s)))
      (hz_name (rs_inst s)) (rs_world s) = ((r, err), w)"
  shows "\<exists>f t. pass_rest C K A hp True s = (f, t) \<and> 
    f = Next (if err = None then (res0, None) else (r, err)) \<and> rs_world t = w \<and>
    conds t = conds s \<and>
    hz_finalizers (rs_inst t) = (if err = None
      then el_RemoveFinalizer K (hz_finalizers (rs_inst s)) (hp_GetFinalizer hp)
      else hz_finalizers (rs_inst s))"
  using assms
  by (auto simp: pass_rest_def init_hash_def reconcileDelete_def flow_simps upd_status_def conds_def conds_of_def)

end
