(* ===== verification/Pass_Properties.thy ===== *)
theory Pass_Properties
  imports Rollout_Properties Pass_Open
begin

text \<open>
  The properties of a whole reconcile pass: what a reader of the patched status may rely on,
  what a pass writes to the cluster and in which order, which part of the object it leaves
  alone, and when it can panic. Each follows from a contract of the body by Reconcile_ends.
\<close>

section \<open>A whole pass on the sample\<close>

lemma sample_pass_value:
  "case Reconcile list_cond_lib sample_env (traced sample_api) ''horizon'' ''openstack'' ((), []) of
     (Patched r h, (u, l)) \<Rightarrow> r = (res0, None) \<and> status_of (conds_of (hz_status h)) Ready = Some CTrue \<and>
       map phase l = [0, 1, 3, 4, 5, 6]
   | _ \<Rightarrow> False"
  by code_simp

lemma sample_pass:
  obtains h u l where "Reconcile list_cond_lib sample_env (traced sample_api) ''horizon'' ''openstack'' ((), [])
      = (Patched (res0, None) h, (u, l))"
    and "status_of (conds_of (hz_status h)) Ready = Some CTrue" and "map phase l = [0, 1, 3, 4, 5, 6]"
proof -
  obtain e u l where run: "Reconcile list_cond_lib sample_env (traced sample_api) ''horizon'' ''openstack'' ((), [])
      = (e, (u, l))"
    by (metis prod.collapse)
  show thesis
    using sample_pass_value run that by (cases e) (auto split: prod.splits)
qed


lemma traced_get:
  "ap_Get (traced A) nm ns (w, l) = (got, v) \<longleftrightarrow> (\<exists>w1. ap_Get A nm ns w = (got, w1) \<and> v = (w1, l))"
  "ap_NewHelper (traced A) i (w, l) = (hp, v) \<longleftrightarrow> (\<exists>w1. ap_NewHelper A i w = (hp, w1) \<and> v = (w1, l))"
  by (auto simp: traced_def reading_def split: prod.splits)

lemma traced_patch:
  "ap_PatchInstance (traced A) i (w, l) = (err, v) \<longleftrightarrow>
     (\<exists>w1. ap_PatchInstance A i w = (err, w1) \<and> v = (w1, l @ [WPatch i]))"
  by (auto simp: traced_def writing_def split: prod.splits)

lemma start_below: "below 0 (start_state i (w, []))"
  by (simp add: below_def log_of_def)

section \<open>The status\<close>

text \<open>
  C7. Whatever the cluster answers, the status a pass writes is truthful: the conditions of
  the pipeline form a staircase (a condition decided True or False has only True ones before
  it), and Ready is True only when every other condition present, and every condition of the
  pipeline, is True.
\<close>

lemma Reconcile_truthful:
  assumes "cond_laws C" and "rbac_reports A" and "Reconcile C K A nm ns w = (Patched r h, w')"
  shows "truthful (conds_of (hz_status h))"
  using assms(3)
proof (rule Reconcile_ends[where Q = "\<lambda>_. settled"])
  fix inst w1 r' err and s :: "'a rstate"
  assume "settled s" and "Patched r h = Patched (case err of None \<Rightarrow> r' | Some x \<Rightarrow> (fst r', Some x))
    (patch_object C (saved_of inst) (rs_inst s))"
  then show ?thesis
    using patch_truthful[OF assms(1)] by (simp add: settled_def conds_def)
qed (use body_settled[OF assms(1,2)] in auto)

lemma Reconcile_truthful_witness:
  "\<exists>r h w. Reconcile list_cond_lib sample_env (traced sample_api) ''horizon'' ''openstack'' ((), []) =
       (Patched r h, w) \<and> status_of (conds_of (hz_status h)) Ready = Some CTrue \<and>
     status_of (conds_of (hz_status h)) TLSInputReady = Some CTrue"
proof (rule sample_pass)
  fix h u l
  assume run: "Reconcile list_cond_lib sample_env (traced sample_api) ''horizon'' ''openstack'' ((), [])
      = (Patched (res0, None) h, (u, l))"
    and ready: "status_of (conds_of (hz_status h)) Ready = Some CTrue"
  from Reconcile_truthful[OF list_cond_laws rbac_reports_traced[OF sample_rbac] run] run ready
  show ?thesis by (auto simp: truthful_def pipeline_def)
qed

text \<open>
  C8. Ready is never reported on hearsay: when the status a pass writes has Ready True, the pass
  itself wrote a Deployment, without error or requeue, and deployment.IsReady held of what came
  back from the cluster.
\<close>

lemma Reconcile_ready_confirmed:
  assumes "cond_laws C" and "rbac_reports A"
    and "Reconcile C K (traced A) nm ns (w, []) = (Patched r h, (w', l))"
    and "status_of (conds_of (hz_status h)) Ready = Some CTrue"
  shows "\<exists>d live. WDeployment d ((res0, None), live) \<in> set l \<and> el_DeploymentIsReady K live"
proof -
  note A = rbac_reports_traced[OF assms(2)]
  from assms(3) show ?thesis
  proof (rule Reconcile_ends[where Q = "\<lambda>_ s. settled s \<and> confirmed K s"])
    fix inst w1 r' err and s :: "'a logged rstate"
    let ?i = "patch_object C (saved_of inst) (rs_inst s)"
    assume Q: "settled s \<and> confirmed K s"
      and patch: "ap_PatchInstance (traced A) ?i (rs_world s) = (err, w', l)"
      and "Patched r h = Patched (case err of None \<Rightarrow> r' | Some x \<Rightarrow> (fst r', Some x)) ?i"
    then have h: "h = ?i" by simp
    have "truthful (conds_of (hz_status h))"
      using Q patch_truthful[OF assms(1)] by (simp add: h settled_def conds_def)
    then have "status_of (conds_of (hz_status h)) DeploymentReady = Some CTrue"
      using assms(4) by (simp add: truthful_def pipeline_def)
    then have "\<not> no_claim s"
      using patch_keeps_claim[OF assms(1)] by (simp add: h no_claim_def conds_def)
    with Q show ?thesis
      using patch by (cases "rs_world s") (auto simp: confirmed_def read_back_def log_of_def traced_patch)
  qed (use triple_conj[OF body_settled[OF assms(1) A] confirmed_body[OF assms(1) A]] in auto)
qed

lemma Reconcile_ready_confirmed_witness:
  "\<exists>r h w l d live. Reconcile list_cond_lib sample_env (traced sample_api) ''horizon'' ''openstack'' ((), []) =
       (Patched r h, (w, l)) \<and> WDeployment d ((res0, None), live) \<in> set l \<and> el_DeploymentIsReady sample_env live"
proof (rule sample_pass)
  fix h u l
  assume run: "Reconcile list_cond_lib sample_env (traced sample_api) ''horizon'' ''openstack'' ((), [])
      = (Patched (res0, None) h, (u, l))"
    and ready: "status_of (conds_of (hz_status h)) Ready = Some CTrue"
  from Reconcile_ready_confirmed[OF list_cond_laws sample_rbac run ready] run show ?thesis by blast
qed

section \<open>Writes to the cluster\<close>

text \<open>
  C10. The writes of a pass: at most one of each kind, always in the order role-based access,
  config maps, secret, service, topology, Deployment, status (a deletion releases the topology
  and patches). A pass that reports a result ends with the patch of the object it reports; one
  that panics or cannot read the object never patches, and the latter writes nothing at all.
\<close>

lemma Reconcile_writes_in_order:
  assumes "Reconcile C K (traced A) nm ns (w, []) = (e, (w', l))"
  shows "sorted_wrt (<) (map phase l) \<and>
    (case e of
       NotPatched r \<Rightarrow> l = []
     | Panicked p \<Rightarrow> \<forall>h. WPatch h \<notin> set l
     | Patched r h \<Rightarrow> \<exists>l'. l = l' @ [WPatch h] \<and> (\<forall>k. WPatch k \<notin> set l'))"
  using assms
proof (rule Reconcile_ends[where Q = "\<lambda>_. below 6"])
  fix inst w1 hp and w2 :: "'a logged"
  assume "ap_Get (traced A) nm ns (w, []) = (Inr inst, w1)" and "ap_NewHelper (traced A) inst w1 = (Inr hp, w2)"
  then have "below 0 (start_state inst w2)" by (auto simp: traced_get start_below)
  then show "triple (\<lambda>s. s = start_state inst w2) (reconcile_body C K (traced A) hp (is_new inst))
      (\<lambda>_. below 6) (below 6)"
    by (intro triple_weaken[OF place_body]) auto
next
  fix p inst w1 and s :: "'a logged rstate"
  assume "e = Panicked p" and "below 6 s" and "(w', l) = rs_world s"
  then show ?thesis by (cases "rs_world s") (auto simp: below_def log_of_def)
next
  fix inst w1 r err and s :: "'a logged rstate"
  assume "below 6 s" and "ap_PatchInstance (traced A) (patch_object C (saved_of inst) (rs_inst s)) (rs_world s) = (err, w', l)"
    and "e = Patched (case err of None \<Rightarrow> r | Some x \<Rightarrow> (fst r, Some x)) (patch_object C (saved_of inst) (rs_inst s))"
  then show ?thesis
    by (cases "rs_world s") (auto simp: below_def log_of_def traced_patch sorted_wrt_append)
qed (auto simp: traced_get)

lemma Reconcile_writes_in_order_witness:
  "\<exists>r h w l. Reconcile list_cond_lib sample_env (traced sample_api) ''horizon'' ''openstack'' ((), []) =
       (Patched r h, (w, l)) \<and> sorted_wrt (<) (map phase l) \<and> last l = WPatch h"
proof (rule sample_pass)
  fix h u l
  assume run: "Reconcile list_cond_lib sample_env (traced sample_api) ''horizon'' ''openstack'' ((), [])
      = (Patched (res0, None) h, (u, l))"
  from Reconcile_writes_in_order[OF run] run show ?thesis by auto
qed

text \<open>
  C9. No rollout without recorded inputs: a Deployment is written only by a pass whose fetched
  object already records an input hash, and every container of it carries exactly that hash as
  CONFIG_HASH; a pass that computes a new hash only records it.
\<close>

lemma Reconcile_deploys_recorded_hash:
  assumes K: "set_hash_law K" "merge_envs_law (el_pod K)" and A: "topologies_place A"
    and got: "ap_Get A nm ns w = (Inr inst, w1)"
    and run: "Reconcile C K (traced A) nm ns (w, []) = (e, (w', l))"
    and d: "WDeployment d x \<in> set l"
  shows "\<exists>h. hash_map (hz_status inst) (el_InputHashName K) = Some h \<and> stamped h d"
proof -
  define h0 where "h0 = hash_map (hz_status inst) (el_InputHashName K)"
  have ok: "\<exists>h. h0 = Some h \<and> stamped h d"
    if "deploys_ok h0 s" and "WDeployment d x \<in> set (log_of s)" for s :: "'a logged rstate"
    using that unfolding deploys_ok_def deployments_def by blast
  from run show ?thesis
  proof (rule Reconcile_ends[where Q = "\<lambda>_. deploys_ok h0"])
    fix i w1' hp and w2 :: "'a logged"
    assume "ap_Get (traced A) nm ns (w, []) = (Inr i, w1')" and "ap_NewHelper (traced A) i w1' = (Inr hp, w2)"
    then have "before_rollout K h0 0 (start_state i w2)"
      using got by (auto simp: traced_get start_below before_rollout_def recorded_def h0_def start_object_def hash_map_def)
    then show "triple (\<lambda>s. s = start_state i w2) (reconcile_body C K (traced A) hp (is_new i))
        (\<lambda>_. deploys_ok h0) (deploys_ok h0)"
      by (intro triple_weaken[OF deploys_body[OF K A]]) auto
  next
    fix p i w1' and s :: "'a logged rstate"
    assume "deploys_ok h0 s" and "(w', l) = rs_world s"
    with d ok show ?thesis unfolding h0_def by (metis log_of_def snd_conv)
  next
    fix i w1' r err and s :: "'a logged rstate"
    assume "deploys_ok h0 s"
      and "ap_PatchInstance (traced A) (patch_object C (saved_of i) (rs_inst s)) (rs_world s) = (err, w', l)"
    with d ok[of s] show ?thesis
      unfolding h0_def by (cases "rs_world s") (auto simp: log_of_def traced_patch)
  qed (use d in \<open>auto simp: traced_get\<close>)
qed

lemma sample_deploys:
  assumes "map phase l = [0, 1, 3, 4, 5, 6]"
  obtains d x where "WDeployment d x \<in> set l"
proof -
  have "5 \<in> set (map phase l)" using assms by simp
  then obtain e where "e \<in> set l" and "phase e = 5" by (metis imageE set_map)
  from \<open>phase e = 5\<close> have "\<exists>d x. e = WDeployment d x" by (cases e) simp_all
  with \<open>e \<in> set l\<close> show thesis by (auto intro: that)
qed

lemma Reconcile_deploys_recorded_hash_witness:
  "\<exists>r h w l d x. Reconcile list_cond_lib sample_env (traced sample_api) ''horizon'' ''openstack'' ((), []) =
       (Patched r h, (w, l)) \<and> WDeployment d x \<in> set l \<and> stamped ''h1'' d"
proof (rule sample_pass)
  fix h u l
  assume run: "Reconcile list_cond_lib sample_env (traced sample_api) ''horizon'' ''openstack'' ((), [])
      = (Patched (res0, None) h, (u, l))" and phases: "map phase l = [0, 1, 3, 4, 5, 6]"
  from phases obtain d x where d: "WDeployment d x \<in> set l" by (rule sample_deploys)
  have got: "ap_Get sample_api ''horizon'' ''openstack'' () = (Inr sample_horizon, ())"
    by (simp add: sample_api_def)
  have "merge_envs_law (el_pod sample_env)"
    using sample_merge_law by (simp add: sample_env_def)
  moreover have "hash_map (hz_status sample_horizon) (el_InputHashName sample_env) = Some ''h1''"
    by (simp add: hash_map_def sample_status_def sample_env_def)
  ultimately have "stamped ''h1'' d"
    using Reconcile_deploys_recorded_hash[OF sample_set_hash_law _ sample_topologies got run d] by simp
  with run d show ?thesis by blast
qed

section \<open>Safety\<close>

text \<open>
  C11. A pass over a Horizon object with a replica count, whose propagated extra volumes have
  their sources, never panics, whatever the cluster and the other packages answer.
\<close>

lemma Reconcile_no_panic:
  assumes "ap_Get A nm ns w = (Inr inst, w1)" and "well_formed K inst"
  shows "fst (Reconcile C K A nm ns w) \<noteq> Panicked p"
proof
  assume "fst (Reconcile C K A nm ns w) = Panicked p"
  then obtain w' where "Reconcile C K A nm ns w = (Panicked p, w')" by (metis prod.collapse)
  then show False
  proof (cases rule: Reconcile_run)
    case (run i w1' hp w2 f s)
    with assms(1) have "well_formed K (rs_inst (start_state i w2))"
      using assms(2) by (simp add: well_formed_start)
    with safeD[OF safe_body _ run(3)] have "\<not> (\<exists>q. f = Panic q)" by auto
    with run(4) show False by (auto simp: deferred_patch_eq split: flow.splits prod.splits)
  qed auto
qed

lemma Reconcile_no_panic_witness:
  "fst (Reconcile list_cond_lib sample_env sample_api ''horizon'' ''openstack'' ()) \<noteq> Panicked ''nil pointer''"
proof -
  have "well_formed sample_env sample_horizon" by code_simp
  moreover have "ap_Get sample_api ''horizon'' ''openstack'' () = (Inr sample_horizon, ())"
    by (simp add: sample_api_def)
  ultimately show ?thesis by (intro Reconcile_no_panic)
qed

section \<open>The object\<close>



text \<open>
  C14. The first pass over a new object, and any pass that adds the finalizer, does nothing but
  write the object back: the finalizer is in place, every condition of the pipeline is Unknown,
  nothing else is written to the cluster and no error is made up.
\<close>

lemma Reconcile_first_pass:
  assumes C: "cond_laws C"
    and "ap_Get A nm ns w = (Inr inst, w1)" and "ap_NewHelper A inst w1 = (Inr hp, w2)"
    and first: "st_conditions (hz_status inst) = None \<or> hz_deletionTimestamp inst = None \<and>
      snd (el_AddFinalizer K (hz_finalizers inst) (hp_GetFinalizer hp))"
  shows "\<exists>h err w3. Reconcile C K (traced A) nm ns (w, []) = (Patched (res0, err) h, (w3, [WPatch h])) \<and>
    ap_PatchInstance A h w2 = (err, w3) \<and> hz_spec h = hz_spec inst \<and>
    (hz_deletionTimestamp inst = None \<longrightarrow>
       hz_finalizers h = fst (el_AddFinalizer K (hz_finalizers inst) (hp_GetFinalizer hp))) \<and>
    (\<forall>t \<in> pipeline. status_of (conds_of (hz_status h)) t = Some CUnknown)"
proof -
  let ?i = "opened C K hp inst"
  let ?h = "patch_object C (saved_of inst) ?i"
  have fp: "first_pass K hp inst" using first by (auto simp: first_pass_def is_new_def is_zero_time_def)
  obtain err w3 where patch: "ap_PatchInstance A ?h w2 = (err, w3)" by fastforce
  have got: "ap_Get (traced A) nm ns (w, []) = (Inr inst, (w1, []))"
    and hp: "ap_NewHelper (traced A) inst (w1, []) = (Inr hp, (w2, []))"
    and written: "ap_PatchInstance (traced A) ?h (w2, []) = (err, (w3, [WPatch ?h]))"
    using assms(2,3) patch by (simp_all add: traced_get traced_patch)
  have run: "Reconcile C K (traced A) nm ns (w, []) = (Patched (res0, err) ?h, (w3, [WPatch ?h]))"
    by (cases err) (simp_all add: Reconcile_got[OF got hp] body_opened fp deferred_patch_eq written)
  have "status_of (conds_of (hz_status ?i)) t = Some CUnknown" if "t \<in> pipeline" for t
    using status_after_init(1)[OF C, of t] that init_types_cases
    by (auto simp: conds_opened)
  then have "status_of (conds_of (hz_status ?h)) t = Some CUnknown" if "t \<in> pipeline" for t
    using that pipeline_not_Ready
    by (auto simp: patch_object_def Let_def status_set[OF C] cond_type_laws(4)[OF C] status_restore[OF C])
  moreover have "hz_spec ?h = hz_spec inst" and "hz_deletionTimestamp inst = None \<Longrightarrow>
      hz_finalizers ?h = fst (el_AddFinalizer K (hz_finalizers inst) (hp_GetFinalizer hp))"
    by (simp_all add: patch_object_def opened_def Let_def is_zero_time_def)
  ultimately show ?thesis
    using run patch by (intro exI[of _ ?h] exI[of _ err] exI[of _ w3]) auto
qed

definition new_horizon :: horizon where
  "new_horizon = sample_horizon\<lparr>hz_finalizers := [],
     hz_status := sample_status\<lparr>st_hash := None, st_conditions := None\<rparr>\<rparr>"

definition new_object_api :: "unit api" where
  "new_object_api = sample_api\<lparr>ap_Get := (\<lambda>nm ns w. (Inr new_horizon, w))\<rparr>"

lemma Reconcile_first_pass_witness:
  "\<exists>h. Reconcile list_cond_lib sample_env (traced new_object_api) ''horizon'' ''openstack'' ((), []) =
       (Patched (res0, None) h, ((), [WPatch h])) \<and> hz_finalizers h = [''fin''] \<and>
     status_of (conds_of (hz_status h)) DeploymentReady = Some CUnknown"
proof -
  have got: "ap_Get new_object_api ''horizon'' ''openstack'' () = (Inr new_horizon, ())"
    by (simp add: new_object_api_def)
  have hp: "ap_NewHelper new_object_api new_horizon () =
      (Inr \<lparr>hp_GetFinalizer = ''fin'', hp_before_namespace = ''openstack''\<rparr>, ())"
    by (simp add: new_object_api_def sample_api_def new_horizon_def)
  have new: "st_conditions (hz_status new_horizon) = None" "hz_deletionTimestamp new_horizon = None"
    by (simp_all add: new_horizon_def sample_horizon_def)
  have fin: "fst (el_AddFinalizer sample_env (hz_finalizers new_horizon) ''fin'') = [''fin'']"
    by (simp add: sample_env_def new_horizon_def)
  have patch: "ap_PatchInstance new_object_api h u = (None, u)" for h u
    by (simp add: new_object_api_def sample_api_def)
  have dep: "DeploymentReady \<in> pipeline" by (simp add: pipeline_def)
  show ?thesis
    using Reconcile_first_pass[OF list_cond_laws got hp disjI1[OF new(1)], of sample_env] new fin patch dep
    by auto
qed





end
