(* ===== verification/Operator_Start.thy ===== *)
theory Operator_Start
  imports Horizon_Webhook Watches "HOL-Library.Sublist"
begin

text \<open>
  The entry point of the operator (cmd/main.go): the command line, the TLS options of the two
  servers, and the set-up of the manager, each of whose steps ends the process when it fails.
  Slices of TLS options are kept as Go has them, a window on a shared array, because main
  appends to two copies of one slice header. Calls of controller-runtime are events whose
  outcome is a parameter.
\<close>

section \<open>The command line\<close>

record flags =
  fl_metricsAddr :: string
  fl_probeAddr :: string
  fl_enableLeaderElection :: bool
  fl_secureMetrics :: bool
  fl_webhookCertPath :: string
  fl_webhookCertName :: string
  fl_webhookCertKey :: string
  fl_metricsCertPath :: string
  fl_metricsCertName :: string
  fl_metricsCertKey :: string
  fl_pprofBindAddress :: string
  fl_webhookPort :: int
  fl_enableHTTP2 :: bool

definition flags0 :: flags where
  "flags0 = \<lparr>fl_metricsAddr = ''0'', fl_probeAddr = '':8081'', fl_enableLeaderElection = False,
     fl_secureMetrics = True, fl_webhookCertPath = '''', fl_webhookCertName = ''tls.crt'',
     fl_webhookCertKey = ''tls.key'', fl_metricsCertPath = '''', fl_metricsCertName = ''tls.crt'',
     fl_metricsCertKey = ''tls.key'', fl_pprofBindAddress = '''', fl_webhookPort = 9443,
     fl_enableHTTP2 = False\<rparr>"

text \<open>What a flag is bound to: its kind decides whether a value has to follow.\<close>

datatype flag_var =
    StringVar "string \<Rightarrow> flags \<Rightarrow> flags"
  | BoolVar "bool \<Rightarrow> flags \<Rightarrow> flags"
  | IntVar "int \<Rightarrow> flags \<Rightarrow> flags"

definition flag_table :: "(string \<times> flag_var) list" where
  "flag_table =
     [(''metrics-bind-address'', StringVar (\<lambda>v fl. fl\<lparr>fl_metricsAddr := v\<rparr>)),
      (''health-probe-bind-address'', StringVar (\<lambda>v fl. fl\<lparr>fl_probeAddr := v\<rparr>)),
      (''leader-elect'', BoolVar (\<lambda>v fl. fl\<lparr>fl_enableLeaderElection := v\<rparr>)),
      (''metrics-secure'', BoolVar (\<lambda>v fl. fl\<lparr>fl_secureMetrics := v\<rparr>)),
      (''webhook-cert-path'', StringVar (\<lambda>v fl. fl\<lparr>fl_webhookCertPath := v\<rparr>)),
      (''webhook-cert-name'', StringVar (\<lambda>v fl. fl\<lparr>fl_webhookCertName := v\<rparr>)),
      (''webhook-cert-key'', StringVar (\<lambda>v fl. fl\<lparr>fl_webhookCertKey := v\<rparr>)),
      (''metrics-cert-path'', StringVar (\<lambda>v fl. fl\<lparr>fl_metricsCertPath := v\<rparr>)),
      (''metrics-cert-name'', StringVar (\<lambda>v fl. fl\<lparr>fl_metricsCertName := v\<rparr>)),
      (''metrics-cert-key'', StringVar (\<lambda>v fl. fl\<lparr>fl_metricsCertKey := v\<rparr>)),
      (''pprof-bind-address'', StringVar (\<lambda>v fl. fl\<lparr>fl_pprofBindAddress := v\<rparr>)),
      (''webhook-bind-address'', IntVar (\<lambda>v fl. fl\<lparr>fl_webhookPort := v\<rparr>)),
      (''enable-http2'', BoolVar (\<lambda>v fl. fl\<lparr>fl_enableHTTP2 := v\<rparr>))]"

text \<open>strconv.ParseBool.\<close>

definition ParseBool :: "string \<Rightarrow> bool option" where
  "ParseBool s =
     (if s \<in> set [''1'', ''t'', ''T'', ''TRUE'', ''true'', ''True''] then Some True
      else if s \<in> set [''0'', ''f'', ''F'', ''FALSE'', ''false'', ''False''] then Some False
      else None)"

text \<open>
  Setting a flag to a value. The flags that BindFlags of the zap options adds are a parameter
  (whether such a flag exists, is boolean, and accepts the value): they only configure logging.
  \<open>num\<close> is strconv.ParseInt with base 0.
\<close>

record flag_env =
  fe_num :: "string \<Rightarrow> int option"
  fe_zap :: "string \<Rightarrow> bool option"
  fe_zap_accepts :: "string \<Rightarrow> string \<Rightarrow> bool"

definition is_bool_flag :: "flag_env \<Rightarrow> string \<Rightarrow> bool option" where
  "is_bool_flag E name = (case map_of flag_table name of
     Some (BoolVar f) \<Rightarrow> Some True
   | Some (StringVar f) \<Rightarrow> Some False
   | Some (IntVar f) \<Rightarrow> Some False
   | None \<Rightarrow> fe_zap E name)"

definition set_flag :: "flag_env \<Rightarrow> string \<Rightarrow> string \<Rightarrow> flags \<Rightarrow> flags option" where
  "set_flag E name v fl = (case map_of flag_table name of
     Some (StringVar f) \<Rightarrow> Some (f v fl)
   | Some (BoolVar f) \<Rightarrow> map_option (\<lambda>b. f b fl) (ParseBool v)
   | Some (IntVar f) \<Rightarrow> map_option (\<lambda>n. f n fl) (fe_num E v)
   | None \<Rightarrow> if fe_zap_accepts E name v then Some fl else None)"

text \<open>The name of a flag up to the first equals sign that is not its first character.\<close>

fun split_eq :: "string \<Rightarrow> string \<times> string option" where
  "split_eq [] = ([], None)"
| "split_eq (c # cs) = (if c = CHR ''='' then ([], Some cs)
     else (case split_eq cs of (n, v) \<Rightarrow> (c # n, v)))"

text \<open>
  The flag package: one argument is a flag, a terminator or the first positional argument. An
  error ends the process with status 2, asking for help with status 0.
\<close>

datatype arg = NotFlag | BadFlag | Flag string "string option"

definition parse_arg :: "string \<Rightarrow> arg" where
  "parse_arg s =
     (if length s < 2 \<or> hd s \<noteq> CHR ''-'' then NotFlag
      else let two = (s ! 1 = CHR ''-''); name = drop (if two then 2 else 1) s in
        if two \<and> length s = 2 then NotFlag
        else if name = [] \<or> hd name = CHR ''-'' \<or> hd name = CHR ''='' then BadFlag
        else (case split_eq name of (n, v) \<Rightarrow> Flag n v))"

fun parse_flags :: "flag_env \<Rightarrow> string list \<Rightarrow> flags \<Rightarrow> int + flags" where
  "parse_flags E [] fl = Inr fl"
| "parse_flags E (s # args) fl = (case parse_arg s of
     NotFlag \<Rightarrow> Inr fl
   | BadFlag \<Rightarrow> Inl 2
   | Flag name v \<Rightarrow>
       (case is_bool_flag E name of
          None \<Rightarrow> if name = ''help'' \<or> name = ''h'' then Inl 0 else Inl 2
        | Some True \<Rightarrow>
            (case set_flag E name (case v of Some x \<Rightarrow> x | None \<Rightarrow> ''true'') fl of
               None \<Rightarrow> Inl 2 | Some fl' \<Rightarrow> parse_flags E args fl')
        | Some False \<Rightarrow>
            (case v of
               Some x \<Rightarrow> (case set_flag E name x fl of None \<Rightarrow> Inl 2 | Some fl' \<Rightarrow> parse_flags E args fl')
             | None \<Rightarrow>
                 (case args of
                    [] \<Rightarrow> Inl 2
                  | x # args' \<Rightarrow>
                      (case set_flag E name x fl of None \<Rightarrow> Inl 2 | Some fl' \<Rightarrow> parse_flags E args' fl')))))"

section \<open>Slices of TLS options\<close>

text \<open>The functions main appends: the first disables HTTP/2, the others serve a certificate.\<close>

datatype tls_opt = DisableHTTP2 | ServeCertificate string string

record tls_config =
  tc_NextProtos :: "string list"
  tc_GetCertificate :: "(string \<times> string) option"

fun apply_tls_opt :: "tls_opt \<Rightarrow> tls_config \<Rightarrow> tls_config" where
  "apply_tls_opt DisableHTTP2 c = c\<lparr>tc_NextProtos := [''http/1.1'']\<rparr>"
| "apply_tls_opt (ServeCertificate crt key) c = c\<lparr>tc_GetCertificate := Some (crt, key)\<rparr>"

record slice =
  sl_array :: nat
  sl_len :: nat
  sl_cap :: nat

record arrays =
  ar_next :: nat
  ar_cells :: "nat \<Rightarrow> nat \<Rightarrow> tls_opt"

definition nil_slice :: slice where
  "nil_slice = \<lparr>sl_array = 0, sl_len = 0, sl_cap = 0\<rparr>"

text \<open>
  append with one element: in place while the capacity lasts, otherwise into a new array of
  the capacity \<open>grow\<close> chooses for the new length.
\<close>

definition go_append :: "(nat \<Rightarrow> nat) \<Rightarrow> slice \<Rightarrow> tls_opt \<Rightarrow> arrays \<Rightarrow> slice \<times> arrays" where
  "go_append grow s x h =
     (if sl_len s < sl_cap s
      then (s\<lparr>sl_len := Suc (sl_len s)\<rparr>,
            h\<lparr>ar_cells := (ar_cells h)(sl_array s := (ar_cells h (sl_array s))(sl_len s := x))\<rparr>)
      else let a = ar_next h in
        (\<lparr>sl_array = a, sl_len = Suc (sl_len s), sl_cap = grow (Suc (sl_len s))\<rparr>,
         h\<lparr>ar_next := Suc a, ar_cells := (ar_cells h)(a := (ar_cells h (sl_array s))(sl_len s := x))\<rparr>))"

definition slice_list :: "arrays \<Rightarrow> slice \<Rightarrow> tls_opt list" where
  "slice_list h s = map (ar_cells h (sl_array s)) [0..<sl_len s]"

section \<open>The manager\<close>

record metrics_options =
  mo_BindAddress :: string
  mo_SecureServing :: bool
  mo_TLSOpts :: slice
  mo_FilterProvider :: bool

text \<open>ctrl.Options, with the port and the TLS options its webhook server was made with.\<close>

record ctrl_options =
  co_Metrics :: metrics_options
  co_WebhookPort :: int
  co_WebhookTLSOpts :: slice
  co_HealthProbeBindAddress :: string
  co_PprofBindAddress :: string
  co_LeaderElection :: bool
  co_LeaderElectionID :: string

datatype checker = Ping | StartedChecker

text \<open>The calls of main whose only result is an error.\<close>

datatype start_event =
    NewCertWatcher string string
  | GetConfigOrDie
  | NewManager ctrl_options
  | GetConfig
  | NewForConfig
  | IndexField string "horizon \<Rightarrow> string list"
  | CompleteController "watch list"
  | SetupWebhook
  | AddWatcher string string
  | AddHealthzCheck string checker
  | AddReadyzCheck string checker
  | StartManager

text \<open>\<open>ml_Join\<close> is filepath.Join, \<open>ml_Getenv\<close> os.Getenv, \<open>ml_GetEnvVar\<close> util.GetEnvVar.\<close>

record 'w main_lib =
  ml_act :: "start_event \<Rightarrow> 'w \<Rightarrow> gerr option \<times> 'w"
  ml_SetManagerOptions :: "ctrl_options \<Rightarrow> 'w \<Rightarrow> (gerr + ctrl_options) \<times> 'w"
  ml_Getenv :: "string \<Rightarrow> string"
  ml_GetEnvVar :: "string \<Rightarrow> string \<Rightarrow> string"
  ml_Join :: "string \<Rightarrow> string \<Rightarrow> string"
  ml_grow :: "nat \<Rightarrow> nat"

record 'w mstate =
  ms_world :: 'w
  ms_arrays :: arrays
  ms_defaults :: horizon_defaults

type_synonym ('w, 'a) step = "('w mstate, 'a, nat) proc"

text \<open>The pattern "if err := call; err != nil { os.Exit(1) }".\<close>

definition must :: "'w main_lib \<Rightarrow> start_event \<Rightarrow> ('w, unit) step" where
  "must L e = (\<lambda>s. case ml_act L e (ms_world s) of
     (None, w) \<Rightarrow> (Next (), s\<lparr>ms_world := w\<rparr>)
   | (Some err, w) \<Rightarrow> (Return 1, s\<lparr>ms_world := w\<rparr>))"

definition append_opt :: "'w main_lib \<Rightarrow> slice \<Rightarrow> tls_opt \<Rightarrow> ('w, slice) step" where
  "append_opt L sl x = (\<lambda>s. case go_append (ml_grow L) sl x (ms_arrays s) of
     (sl', h) \<Rightarrow> (Next sl', s\<lparr>ms_arrays := h\<rparr>))"

definition base_opts :: "'w main_lib \<Rightarrow> flags \<Rightarrow> ('w, slice) step" where
  "base_opts L fl = (if \<not> fl_enableHTTP2 fl then append_opt L nil_slice DisableHTTP2
     else next_with nil_slice)"

text \<open>
  A certificate watcher, when a path is given: its files, and the options with its function
  appended. The watcher is None when there is none.
\<close>

definition cert_watcher ::
  "'w main_lib \<Rightarrow> string \<Rightarrow> string \<Rightarrow> string \<Rightarrow> slice \<Rightarrow> ('w, (string \<times> string) option \<times> slice) step" where
  "cert_watcher L path nm key opts =
     (if length path > 0
      then and_then (must L (NewCertWatcher (ml_Join L path nm) (ml_Join L path key))) (\<lambda>_.
           and_then (append_opt L opts (ServeCertificate (ml_Join L path nm) (ml_Join L path key))) (\<lambda>opts'.
           next_with (Some (ml_Join L path nm, ml_Join L path key), opts')))
      else next_with (None, opts))"

definition metrics_server :: "flags \<Rightarrow> slice \<Rightarrow> metrics_options" where
  "metrics_server fl opts =
     (let o1 = \<lparr>mo_BindAddress = fl_metricsAddr fl, mo_SecureServing = fl_secureMetrics fl,
        mo_TLSOpts = opts, mo_FilterProvider = False\<rparr>
      in if fl_secureMetrics fl then o1\<lparr>mo_FilterProvider := True\<rparr> else o1)"

definition manager_options :: "flags \<Rightarrow> metrics_options \<Rightarrow> slice \<Rightarrow> ctrl_options" where
  "manager_options fl metrics webhookOpts =
     \<lparr>co_Metrics = metrics,
      co_WebhookPort = fl_webhookPort fl,
      co_WebhookTLSOpts = webhookOpts,
      co_HealthProbeBindAddress = fl_probeAddr fl,
      co_PprofBindAddress = fl_pprofBindAddress fl,
      co_LeaderElection = fl_enableLeaderElection fl,
      co_LeaderElectionID = ''5ad2eba0.openstack.org''\<rparr>"

definition set_manager_options :: "'w main_lib \<Rightarrow> ctrl_options \<Rightarrow> ('w, ctrl_options) step" where
  "set_manager_options L opts = (\<lambda>s. case ml_SetManagerOptions L opts (ms_world s) of
     (Inr opts', w) \<Rightarrow> (Next opts', s\<lparr>ms_world := w\<rparr>)
   | (Inl err, w) \<Rightarrow> (Return 1, s\<lparr>ms_world := w\<rparr>))"

text \<open>SetupWithManager of the controller, over the manager.\<close>

definition setup_controller :: "'w main_lib \<Rightarrow> ('w, unit) step" where
  "setup_controller L = (\<lambda>s.
     case SetupWithManager (\<lambda>f ix. ml_act L (IndexField f ix)) (\<lambda>ws. ml_act L (CompleteController ws))
            (ms_world s) of
       (None, w) \<Rightarrow> (Next (), s\<lparr>ms_world := w\<rparr>)
     | (Some err, w) \<Rightarrow> (Return 1, s\<lparr>ms_world := w\<rparr>))"

definition setup_webhooks :: "'w main_lib \<Rightarrow> ('w, checker) step" where
  "setup_webhooks L =
     (if ml_Getenv L ''ENABLE_WEBHOOKS'' \<noteq> ''false''
      then and_then (must L SetupWebhook) (\<lambda>_. next_with StartedChecker)
      else next_with Ping)"

definition add_watcher :: "'w main_lib \<Rightarrow> (string \<times> string) option \<Rightarrow> ('w, unit) step" where
  "add_watcher L w = (case w of None \<Rightarrow> next_with () | Some (crt, key) \<Rightarrow> must L (AddWatcher crt key))"

text \<open>The manager from its options to the end of the process.\<close>

definition run_manager ::
  "'w main_lib \<Rightarrow> ctrl_options \<Rightarrow> (string \<times> string) option \<Rightarrow> (string \<times> string) option \<Rightarrow> ('w, unit) step" where
  "run_manager L opts metricsCertWatcher webhookCertWatcher =
     and_then (set_manager_options L opts) (\<lambda>options.
     and_then (must L GetConfigOrDie) (\<lambda>_.
     and_then (must L (NewManager options)) (\<lambda>_.
     and_then (must L GetConfig) (\<lambda>_.
     and_then (must L NewForConfig) (\<lambda>_.
     and_then (setup_controller L) (\<lambda>_.
     and_then (modify (\<lambda>s. s\<lparr>ms_defaults := SetupDefaults (ml_GetEnvVar L) (ms_defaults s)\<rparr>)) (\<lambda>_.
     and_then (setup_webhooks L) (\<lambda>checker.
     and_then (add_watcher L metricsCertWatcher) (\<lambda>_.
     and_then (add_watcher L webhookCertWatcher) (\<lambda>_.
     and_then (must L (AddHealthzCheck ''healthz'' checker)) (\<lambda>_.
     and_then (must L (AddReadyzCheck ''readyz'' checker)) (\<lambda>_.
     must L StartManager))))))))))))"

text \<open>
  The options of the manager, with the two certificate watchers: the webhook server and the
  metrics server start from the same slice of TLS options.
\<close>

definition tls_setup ::
  "'w main_lib \<Rightarrow> flags
   \<Rightarrow> ('w, ctrl_options \<times> (string \<times> string) option \<times> (string \<times> string) option) step" where
  "tls_setup L fl =
     and_then (base_opts L fl) (\<lambda>tlsOpts.
     and_then (cert_watcher L (fl_webhookCertPath fl) (fl_webhookCertName fl) (fl_webhookCertKey fl) tlsOpts)
       (\<lambda>(webhookCertWatcher, webhookTLSOpts).
     let metricsServerOptions = metrics_server fl tlsOpts in
     and_then (cert_watcher L (fl_metricsCertPath fl) (fl_metricsCertName fl) (fl_metricsCertKey fl)
                 (mo_TLSOpts metricsServerOptions))
       (\<lambda>(metricsCertWatcher, metricsTLSOpts).
     next_with (manager_options fl (metricsServerOptions\<lparr>mo_TLSOpts := metricsTLSOpts\<rparr>) webhookTLSOpts,
       metricsCertWatcher, webhookCertWatcher))))"

definition run_operator :: "'w main_lib \<Rightarrow> flags \<Rightarrow> ('w, unit) step" where
  "run_operator L fl = and_then (tls_setup L fl) (\<lambda>(opts, metricsCertWatcher, webhookCertWatcher).
     run_manager L opts metricsCertWatcher webhookCertWatcher)"

text \<open>The exit status of the process and what it did.\<close>

definition operator_main :: "flag_env \<Rightarrow> 'w main_lib \<Rightarrow> string list \<Rightarrow> 'w \<Rightarrow> int \<times> 'w mstate" where
  "operator_main E L args w =
     (let s = \<lparr>ms_world = w, ms_arrays = \<lparr>ar_next = 1, ar_cells = (\<lambda>a i. DisableHTTP2)\<rparr>,
        ms_defaults = horizonDefaults0\<rparr>
      in case parse_flags E args flags0 of
           Inl status \<Rightarrow> (status, s)
         | Inr fl \<Rightarrow> (case run_operator L fl s of
             (Next u, t) \<Rightarrow> (0, t)
           | (Return c, t) \<Rightarrow> (int c, t)
           | (Panic p, t) \<Rightarrow> (2, t)))"

section \<open>The scheme\<close>

text \<open>
  The API groups whose types the scheme knows; init adds them in this order and panics at the
  first that cannot be added; the error of the panic is the result. \<open>add\<close> is AddToScheme of the
  package.
\<close>

datatype api_group = ClientGo | NetworkGroup | HorizonGroup | KeystoneGroup | MemcachedGroup | TopologyGroup

definition scheme_groups :: "api_group list" where
  "scheme_groups = [ClientGo, NetworkGroup, HorizonGroup, KeystoneGroup, MemcachedGroup, TopologyGroup]"

fun add_groups ::
  "(api_group \<Rightarrow> 's \<Rightarrow> gerr option \<times> 's) \<Rightarrow> api_group list \<Rightarrow> 's \<Rightarrow> gerr option \<times> 's" where
  "add_groups add [] s = (None, s)"
| "add_groups add (g # gs) s = (case add g s of
     (None, s') \<Rightarrow> add_groups add gs s'
   | (Some err, s') \<Rightarrow> (Some err, s'))"

definition init_scheme :: "(api_group \<Rightarrow> 's \<Rightarrow> gerr option \<times> 's) \<Rightarrow> 's \<Rightarrow> gerr option \<times> 's" where
  "init_scheme add = add_groups add scheme_groups"

text \<open>The package of a kind the controller watches, as horizon_controller.go imports it.\<close>

fun group_of :: "kind \<Rightarrow> api_group" where
  "group_of KHorizon = HorizonGroup"
| "group_of KMemcached = MemcachedGroup"
| "group_of KNetworkAttachmentDefinition = NetworkGroup"
| "group_of KKeystoneService = KeystoneGroup"
| "group_of KKeystoneAPI = KeystoneGroup"
| "group_of KTopology = TopologyGroup"
| "group_of _ = ClientGo"

fun watched_kind :: "watch \<Rightarrow> kind" where
  "watched_kind (For k) = k"
| "watched_kind (Owns k) = k"
| "watched_kind (Watches k m f) = k"

section \<open>The TLS options of the two servers\<close>

lemma go_append_list:
  assumes "go_append grow s x h = (s', h')"
  shows "slice_list h' s' = slice_list h s @ [x]"
  using assms by (auto simp: go_append_def slice_list_def Let_def split: if_splits)

text \<open>
  Appending to \<open>s\<close> leaves another slice alone unless it is longer and shares the array in
  which \<open>s\<close> still has capacity.
\<close>

lemma go_append_other:
  assumes "go_append grow s x h = (s', h')" and "sl_array t < ar_next h"
    and "sl_len s < sl_cap s \<Longrightarrow> sl_array t = sl_array s \<Longrightarrow> sl_len t \<le> sl_len s"
  shows "slice_list h' t = slice_list h t"
  using assms by (auto simp: go_append_def slice_list_def Let_def split: if_splits)

lemma go_append_frame:
  assumes "go_append grow s x h = (s', h')"
  shows "ar_next h \<le> ar_next h'" and "sl_array s < ar_next h \<Longrightarrow> sl_array s' < ar_next h'"
    and "sl_len s' = Suc (sl_len s)"
  using assms by (auto simp: go_append_def Let_def split: if_splits)

text \<open>The certificate a server is meant to serve.\<close>

definition wanted_cert :: "'w main_lib \<Rightarrow> string \<Rightarrow> string \<Rightarrow> string \<Rightarrow> (string \<times> string) option" where
  "wanted_cert L path nm key =
     (if path = '''' then None else Some (ml_Join L path nm, ml_Join L path key))"

definition wanted_opts :: "flags \<Rightarrow> (string \<times> string) option \<Rightarrow> tls_opt list" where
  "wanted_opts fl w = (if fl_enableHTTP2 fl then [] else [DisableHTTP2]) @
     (case w of None \<Rightarrow> [] | Some (crt, key) \<Rightarrow> [ServeCertificate crt key])"

lemma must_run: "must L e s = (f, t) \<Longrightarrow> ms_arrays t = ms_arrays s \<and> ms_defaults t = ms_defaults s"
  by (auto simp: must_def split: prod.splits option.splits)

lemma cert_watcher_run:
  assumes "cert_watcher L path nm key opts s = (Next (w, opts'), t)"
  shows "w = wanted_cert L path nm key \<and>
    (case w of
       None \<Rightarrow> opts' = opts \<and> ms_arrays t = ms_arrays s
     | Some (crt, k) \<Rightarrow> go_append (ml_grow L) opts (ServeCertificate crt k) (ms_arrays s) = (opts', ms_arrays t))"
proof (cases "path = ''''")
  case True
  with assms show ?thesis by (simp add: cert_watcher_def wanted_cert_def flow_simps)
next
  case False
  let ?e = "NewCertWatcher (ml_Join L path nm) (ml_Join L path key)"
  obtain f1 s1 where m: "must L ?e s = (f1, s1)" by fastforce
  from must_run[OF m] have arr: "ms_arrays s1 = ms_arrays s" by simp
  show ?thesis
    using assms False m
    by (auto simp: cert_watcher_def wanted_cert_def flow_simps append_opt_def arr
        split: flow.splits prod.splits)
qed

text \<open>The slice both servers start from, in a fresh process.\<close>

lemma base_opts_run:
  assumes "base_opts L fl s = (Next opts, t)" and "ms_arrays s = \<lparr>ar_next = 1, ar_cells = c\<rparr>"
  shows "slice_list (ms_arrays t) opts = (if fl_enableHTTP2 fl then [] else [DisableHTTP2])"
    and "sl_array opts < ar_next (ms_arrays t)" and "sl_len opts = (if fl_enableHTTP2 fl then 0 else 1)"
    and "sl_cap opts = (if fl_enableHTTP2 fl then 0 else ml_grow L 1)"
  using assms
  by (auto simp: base_opts_def append_opt_def go_append_def nil_slice_def Let_def slice_list_def flow_simps
      split: if_splits)

lemma tls_setup_run:
  assumes "tls_setup L fl s = (Next (opts, mw, ww), t)"
  obtains o1 s1 wo s2 mo where "base_opts L fl s = (Next o1, s1)"
    and "cert_watcher L (fl_webhookCertPath fl) (fl_webhookCertName fl) (fl_webhookCertKey fl) o1 s1 = (Next (ww, wo), s2)"
    and "cert_watcher L (fl_metricsCertPath fl) (fl_metricsCertName fl) (fl_metricsCertKey fl) o1 s2 = (Next (mw, mo), t)"
    and "co_WebhookTLSOpts opts = wo" and "mo_TLSOpts (co_Metrics opts) = mo"
proof -
  have tls: "mo_TLSOpts (metrics_server fl x) = x" for x by (simp add: metrics_server_def Let_def)
  show thesis
    using assms that
    by (auto simp: tls_setup_def flow_simps Let_def manager_options_def tls split: flow.splits prod.splits)
qed

text \<open>Both lists of options, in every combination of watchers.\<close>

lemma tls_setup_lists:
  assumes run: "tls_setup L fl s = (Next (opts, mw, ww), t)" and fresh: "ms_arrays s = \<lparr>ar_next = 1, ar_cells = c\<rparr>"
  shows "ww = wanted_cert L (fl_webhookCertPath fl) (fl_webhookCertName fl) (fl_webhookCertKey fl)"
    and "mw = wanted_cert L (fl_metricsCertPath fl) (fl_metricsCertName fl) (fl_metricsCertKey fl)"
    and "slice_list (ms_arrays t) (mo_TLSOpts (co_Metrics opts)) = wanted_opts fl mw"
    and "slice_list (ms_arrays t) (co_WebhookTLSOpts opts) =
      (if ml_grow L 1 \<le> 1 \<or> fl_enableHTTP2 fl \<or> ww = None \<or> mw = None then wanted_opts fl ww else wanted_opts fl mw)"
proof -
  let ?base = "if fl_enableHTTP2 fl then [] else [DisableHTTP2]"
  from run obtain o1 s1 wo s2 mo where b: "base_opts L fl s = (Next o1, s1)"
    and w: "cert_watcher L (fl_webhookCertPath fl) (fl_webhookCertName fl) (fl_webhookCertKey fl) o1 s1 = (Next (ww, wo), s2)"
    and m: "cert_watcher L (fl_metricsCertPath fl) (fl_metricsCertName fl) (fl_metricsCertKey fl) o1 s2 = (Next (mw, mo), t)"
    and o: "co_WebhookTLSOpts opts = wo" "mo_TLSOpts (co_Metrics opts) = mo"
    by (rule tls_setup_run)
  note base = base_opts_run[OF b fresh] and wr = cert_watcher_run[OF w] and mr = cert_watcher_run[OF m]
  show "ww = wanted_cert L (fl_webhookCertPath fl) (fl_webhookCertName fl) (fl_webhookCertKey fl)"
    and "mw = wanted_cert L (fl_metricsCertPath fl) (fl_metricsCertName fl) (fl_metricsCertKey fl)"
    using wr mr by simp_all
  have mid: "slice_list (ms_arrays s2) o1 = ?base"
  proof (cases ww)
    case None
    then have "ms_arrays s2 = ms_arrays s1" using conjunct2[OF wr] by simp
    then show ?thesis using base(1) by simp
  next
    case (Some p)
    with wr base show ?thesis
      by (cases p) (auto dest: go_append_other[where t = o1])
  qed
  have next2: "ar_next (ms_arrays s1) \<le> ar_next (ms_arrays s2)" "sl_array wo < ar_next (ms_arrays s2)"
    using wr base(2) by (auto dest: go_append_frame split: option.splits)
  have webhook2: "slice_list (ms_arrays s2) wo = wanted_opts fl ww"
    using wr base(1) by (auto simp: wanted_opts_def dest: go_append_list split: option.splits)
  show "slice_list (ms_arrays t) (mo_TLSOpts (co_Metrics opts)) = wanted_opts fl mw"
    using mr mid unfolding o by (auto simp: wanted_opts_def dest: go_append_list split: option.splits)
  show "slice_list (ms_arrays t) (co_WebhookTLSOpts opts) =
      (if ml_grow L 1 \<le> 1 \<or> fl_enableHTTP2 fl \<or> ww = None \<or> mw = None then wanted_opts fl ww else wanted_opts fl mw)"
  proof (cases "mw = None \<or> ww = None \<or> sl_cap o1 \<le> sl_len o1")
    case True
    then have "slice_list (ms_arrays t) wo = slice_list (ms_arrays s2) wo"
      using mr wr next2(2) by (auto dest: go_append_other[where t = wo] split: option.splits)
    with True webhook2 base(3,4) show ?thesis
      unfolding o by (auto split: if_splits)
  next
    case False
    then have shared: "sl_array wo = sl_array o1" "sl_len wo = Suc (sl_len o1)"
      using wr by (auto simp: go_append_def split: option.splits if_splits)
    obtain crt key where mw: "mw = Some (crt, key)" using False by auto
    then have app: "go_append (ml_grow L) o1 (ServeCertificate crt key) (ms_arrays s2) = (mo, ms_arrays t)"
      using conjunct2[OF mr] by simp
    then have "sl_array mo = sl_array o1" "sl_len mo = Suc (sl_len o1)"
      using False by (auto simp: go_append_def split: if_splits)
    with shared have "slice_list (ms_arrays t) wo = slice_list (ms_arrays t) mo" by (simp add: slice_list_def)
    also have "\<dots> = wanted_opts fl mw"
      using go_append_list[OF app] mid by (simp add: wanted_opts_def mw)
    finally show ?thesis using False base(3,4) unfolding o by (auto split: if_splits)
  qed
qed

section \<open>The order of the steps\<close>

text \<open>A library that records its events, and the events a body performs.\<close>

definition traced_main :: "'w main_lib \<Rightarrow> ('w \<times> start_event list) main_lib" where
  "traced_main L =
     \<lparr>ml_act = (\<lambda>e (w, l). case ml_act L e w of (r, w') \<Rightarrow> (r, (w', l @ [e]))),
      ml_SetManagerOptions = (\<lambda>opts (w, l). case ml_SetManagerOptions L opts w of (r, w') \<Rightarrow> (r, (w', l))),
      ml_Getenv = ml_Getenv L, ml_GetEnvVar = ml_GetEnvVar L, ml_Join = ml_Join L, ml_grow = ml_grow L\<rparr>"

definition acted :: "('w \<times> start_event list) mstate \<Rightarrow> start_event list" where
  "acted s = snd (ms_world s)"

definition follows ::
  "('w \<times> start_event list, 'a) step \<Rightarrow> ('a \<Rightarrow> start_event list set) \<Rightarrow> bool" where
  "follows m P \<longleftrightarrow> (\<forall>s f t. m s = (f, t) \<longrightarrow> (\<exists>es. acted t = acted s @ es \<and>
     (case f of Next x \<Rightarrow> es \<in> P x | Return c \<Rightarrow> c = 1 \<and> (\<exists>x b. es @ b \<in> P x) | Panic p \<Rightarrow> False)))"

lemma follows_next: "[] \<in> P x \<Longrightarrow> follows (next_with x) P"
  by (simp add: follows_def flow_simps)

lemma follows_then:
  assumes m: "follows m P" and g: "\<And>x a. a \<in> P x \<Longrightarrow> follows (g x) (\<lambda>y. {b. a @ b \<in> Q y})"
    and ex: "\<And>x a. a \<in> P x \<Longrightarrow> \<exists>y b. a @ b \<in> Q y"
  shows "follows (and_then m g) Q"
  unfolding follows_def
proof (intro allI impI)
  fix s f t assume run: "and_then m g s = (f, t)"
  obtain f1 s1 where ms: "m s = (f1, s1)" by fastforce
  with m obtain es where es: "acted s1 = acted s @ es"
    and f1: "case f1 of Next x \<Rightarrow> es \<in> P x | Return c \<Rightarrow> c = 1 \<and> (\<exists>x b. es @ b \<in> P x) | Panic p \<Rightarrow> False"
    unfolding follows_def by blast
  show "\<exists>es. acted t = acted s @ es \<and>
     (case f of Next x \<Rightarrow> es \<in> Q x | Return c \<Rightarrow> c = 1 \<and> (\<exists>x b. es @ b \<in> Q x) | Panic p \<Rightarrow> False)"
  proof (cases f1)
    case (Next x)
    with f1 have "es \<in> P x" by simp
    moreover have "g x s1 = (f, t)" using run ms Next by (simp add: flow_simps)
    ultimately obtain es' where "acted t = acted s1 @ es'"
      and "case f of Next y \<Rightarrow> es' \<in> {b. es @ b \<in> Q y}
        | Return c \<Rightarrow> c = 1 \<and> (\<exists>y b. es' @ b \<in> {b. es @ b \<in> Q y}) | Panic p \<Rightarrow> False"
      using g unfolding follows_def by blast
    then show ?thesis using es by (intro exI[of _ "es @ es'"]) (auto split: flow.splits)
  next
    case (Return c)
    with f1 obtain x b where "c = 1" "es @ b \<in> P x" by auto
    with ex have more: "\<exists>y b. es @ b \<in> Q y" by (metis append.assoc)
    from Return run ms have "f = Return c" "t = s1" by (simp_all add: flow_simps)
    with es more \<open>c = 1\<close> show ?thesis by (intro exI[of _ es]) simp
  qed (use f1 in simp)
qed

lemma follows_must: "[e] \<in> P () \<Longrightarrow> follows (must (traced_main L) e) P"
  by (auto simp: follows_def must_def traced_main_def acted_def split: prod.splits option.splits
      intro!: exI[of _ "[]"])

lemma follows_append: "[] \<in> P x \<Longrightarrow> (\<And>x. [] \<in> P x) \<Longrightarrow> follows (append_opt L sl o') P"
  by (auto simp: follows_def append_opt_def acted_def split: prod.splits)

lemma follows_modify: "[] \<in> P () \<Longrightarrow> (\<And>s. ms_world (g s) = ms_world s) \<Longrightarrow> follows (modify g) P"
  by (simp add: follows_def flow_simps acted_def)

lemma follows_set_options:
  assumes "\<And>o'. [] \<in> P o'"
  shows "follows (set_manager_options (traced_main L) opts) P"
  using assms by (auto simp: follows_def set_manager_options_def traced_main_def acted_def
      split: prod.splits sum.splits intro!: exI[of _ "[]"])

text \<open>The registrations of the controller, then its completion.\<close>

definition controller_events :: "start_event list" where
  "controller_events = map (\<lambda>(f, ix). IndexField f ix) field_indexes @ [CompleteController controller_watches]"

lemma register_events:
  assumes "register_indexes (\<lambda>f ix. ml_act (traced_main L) (IndexField f ix)) fs (w, l) = (r, (w', l'))"
  shows "\<exists>es. l' = l @ es \<and> (r = None \<longrightarrow> es = map (\<lambda>(f, ix). IndexField f ix) fs) \<and>
    (r \<noteq> None \<longrightarrow> (\<exists>b. es @ b = map (\<lambda>(f, ix). IndexField f ix) fs))"
  using assms
proof (induction fs arbitrary: w l)
  case Nil
  then show ?case by simp
next
  case (Cons p fs)
  obtain f ix where p: "p = (f, ix)" by fastforce
  obtain r1 w1 where act: "ml_act L (IndexField f ix) w = (r1, w1)" by fastforce
  show ?case
  proof (cases r1)
    case None
    then have "register_indexes (\<lambda>f ix. ml_act (traced_main L) (IndexField f ix)) fs (w1, l @ [IndexField f ix]) = (r, (w', l'))"
      using Cons.prems act by (simp add: p traced_main_def)
    from Cons.IH[OF this] show ?thesis by (auto simp: p)
  next
    case (Some err)
    then show ?thesis using Cons.prems act by (auto simp: p traced_main_def)
  qed
qed

lemma act_traced [simp]:
  "ml_act (traced_main L) e (w, l) = (case ml_act L e w of (r, w') \<Rightarrow> (r, (w', l @ [e])))"
  by (simp add: traced_main_def)

lemma setup_controller_events:
  assumes "setup_controller (traced_main L) s = (f, t)"
  obtains es where "acted t = acted s @ es"
    and "f = Next () \<and> es = controller_events \<or> f = Return 1 \<and> prefix es controller_events"
proof -
  let ?reg = "\<lambda>f ix. ml_act (traced_main L) (IndexField f ix)"
  let ?all = "map (\<lambda>(f, ix). IndexField f ix) field_indexes"
  obtain w l where s: "ms_world s = (w, l)" by fastforce
  obtain r w1 l1 where reg: "register_indexes ?reg field_indexes (w, l) = (r, (w1, l1))"
    by (metis surj_pair)
  from register_events[OF reg] obtain es where l1: "l1 = l @ es"
    and es: "r = None \<longrightarrow> es = ?all" "r \<noteq> None \<longrightarrow> prefix es ?all" by (metis prefixI)
  show thesis
  proof (cases r)
    case None
    obtain r2 w2 where "ml_act L (CompleteController controller_watches) w1 = (r2, w2)" by fastforce
    then have "acted t = l @ controller_events" and "f = (case r2 of None \<Rightarrow> Next () | Some e \<Rightarrow> Return 1)"
      using assms es None
      by (auto simp: setup_controller_def SetupWithManager_def s reg l1 controller_events_def acted_def
          split: option.splits)
    then show thesis by (intro that[of controller_events]) (auto simp: acted_def s split: option.splits)
  next
    case (Some err)
    then have "f = Return 1" "acted t = l @ es"
      using assms by (auto simp: setup_controller_def SetupWithManager_def s reg l1 acted_def)
    with es(2) Some show thesis
      by (intro that[of es]) (auto simp: acted_def s controller_events_def prefix_def)
  qed
qed

lemma follows_controller:
  assumes "controller_events \<in> P ()"
  shows "follows (setup_controller (traced_main L)) P"
  unfolding follows_def
proof (intro allI impI)
  fix s f t assume "setup_controller (traced_main L) s = (f, t)"
  then obtain es where "acted t = acted s @ es"
    and "f = Next () \<and> es = controller_events \<or> f = Return 1 \<and> prefix es controller_events"
    by (rule setup_controller_events)
  with assms show "\<exists>es. acted t = acted s @ es \<and>
     (case f of Next x \<Rightarrow> es \<in> P x | Return c \<Rightarrow> c = 1 \<and> (\<exists>x b. es @ b \<in> P x) | Panic p \<Rightarrow> False)"
    unfolding prefix_def by (intro exI[of _ es]) (auto, metis)
qed

text \<open>What main does when nothing fails.\<close>

definition watcher_events :: "(string \<times> string) option \<Rightarrow> start_event list" where
  "watcher_events w = (case w of None \<Rightarrow> [] | Some (crt, key) \<Rightarrow> [NewCertWatcher crt key])"

definition add_events :: "(string \<times> string) option \<Rightarrow> start_event list" where
  "add_events w = (case w of None \<Rightarrow> [] | Some (crt, key) \<Rightarrow> [AddWatcher crt key])"

definition webhooks_on :: "'w main_lib \<Rightarrow> bool" where
  "webhooks_on L \<longleftrightarrow> ml_Getenv L ''ENABLE_WEBHOOKS'' \<noteq> ''false''"

definition manager_plan ::
  "bool \<Rightarrow> (string \<times> string) option \<Rightarrow> (string \<times> string) option \<Rightarrow> ctrl_options \<Rightarrow> start_event list" where
  "manager_plan webhooks mw ww opts =
     [GetConfigOrDie, NewManager opts, GetConfig, NewForConfig] @ controller_events @
     (if webhooks then [SetupWebhook] else []) @ add_events mw @ add_events ww @
     [AddHealthzCheck ''healthz'' (if webhooks then StartedChecker else Ping),
      AddReadyzCheck ''readyz'' (if webhooks then StartedChecker else Ping), StartManager]"

lemma follows_watcher:
  assumes "watcher_events (wanted_cert L path nm key) \<in> P (wanted_cert L path nm key, x)"
    and "\<And>sl. P (wanted_cert L path nm key, sl) = P (wanted_cert L path nm key, x)"
  shows "follows (cert_watcher (traced_main L) path nm key opts) P"
proof (cases "path = ''''")
  case True
  then have "[] \<in> P (None, opts)"
    using assms(1) assms(2)[of opts] by (simp add: wanted_cert_def watcher_events_def)
  with True show ?thesis by (simp add: cert_watcher_def follows_next)
next
  case False
  let ?w = "(ml_Join L path nm, ml_Join L path key)"
  have join: "ml_Join (traced_main L) = ml_Join L" by (simp add: traced_main_def)
  have all: "[NewCertWatcher (fst ?w) (snd ?w)] \<in> P (Some ?w, sl)" for sl
    using assms(1) assms(2)[of sl] False by (simp add: wanted_cert_def watcher_events_def)
  show ?thesis
    unfolding cert_watcher_def join using False
    by (simp, intro follows_then[where P = "\<lambda>_. {[NewCertWatcher (fst ?w) (snd ?w)]}"]
        follows_then[where P = "\<lambda>_. {[]}"] follows_must follows_append follows_next)
      (use all in auto)
qed

text \<open>The manager follows its plan, and main as a whole performs a prefix of it.\<close>

lemma follows_manager:
  assumes "\<And>o'. manager_plan (webhooks_on L) mw ww o' \<in> P ()"
  shows "follows (run_manager (traced_main L) opts mw ww) P"
proof -
  let ?chk = "if webhooks_on L then StartedChecker else Ping"
  let ?hook = "if webhooks_on L then [SetupWebhook] else []"
  have env: "ml_Getenv (traced_main L) = ml_Getenv L" by (simp add: traced_main_def)
  have hooks: "follows (setup_webhooks (traced_main L)) (\<lambda>c. if c = ?chk then {?hook} else {})"
    unfolding setup_webhooks_def env webhooks_on_def
    by (auto intro!: follows_next follows_must follows_then[where P = "\<lambda>_. {[SetupWebhook]}"])
  have add: "follows (add_watcher (traced_main L) w) (\<lambda>_. {add_events w})" for w
    by (cases w) (auto simp: add_watcher_def add_events_def intro: follows_next follows_must)
  have one: "follows (must (traced_main L) e) (\<lambda>_. {[e]})" for e by (rule follows_must) simp
  have opt: "follows (set_manager_options (traced_main L) opts) (\<lambda>_. {[]})" by (rule follows_set_options) simp
  have ctl: "follows (setup_controller (traced_main L)) (\<lambda>_. {controller_events})" by (rule follows_controller) simp
  have def: "follows (modify (\<lambda>s. s\<lparr>ms_defaults := f (ms_defaults s)\<rparr>)) (\<lambda>_. {[]})" for f
    by (rule follows_modify) simp_all
  show ?thesis
    using assms unfolding run_manager_def manager_plan_def
    by (intro follows_then[OF opt] follows_then[OF one] follows_then[OF ctl] follows_then[OF def]
        follows_then[OF hooks] follows_then[OF add] follows_must)
      (auto split: if_splits)
qed

definition main_plan :: "'w main_lib \<Rightarrow> flags \<Rightarrow> ctrl_options \<Rightarrow> start_event list" where
  "main_plan L fl opts =
     (let ww = wanted_cert L (fl_webhookCertPath fl) (fl_webhookCertName fl) (fl_webhookCertKey fl);
          mw = wanted_cert L (fl_metricsCertPath fl) (fl_metricsCertName fl) (fl_metricsCertKey fl)
      in watcher_events ww @ watcher_events mw @ manager_plan (webhooks_on L) mw ww opts)"

end
