(* ===== verification/Start_Properties.thy ===== *)
theory Start_Properties
  imports Operator_Start
begin

text \<open>
  The properties of the entry point: how the command line is read, which options the two
  servers end up with, and what the process does before it serves.
\<close>

section \<open>The command line\<close>

text \<open>A command line that says everything, in the form --name=value.\<close>

definition render_bool :: "bool \<Rightarrow> string" where
  "render_bool b = (if b then ''true'' else ''false'')"

definition render_arg :: "string \<Rightarrow> string \<Rightarrow> string" where
  "render_arg name v = ''--'' @ name @ ''='' @ v"

definition render_flags :: "(int \<Rightarrow> string) \<Rightarrow> flags \<Rightarrow> string list" where
  "render_flags show_int fl =
     [render_arg ''metrics-bind-address'' (fl_metricsAddr fl),
      render_arg ''health-probe-bind-address'' (fl_probeAddr fl),
      render_arg ''leader-elect'' (render_bool (fl_enableLeaderElection fl)),
      render_arg ''metrics-secure'' (render_bool (fl_secureMetrics fl)),
      render_arg ''webhook-cert-path'' (fl_webhookCertPath fl),
      render_arg ''webhook-cert-name'' (fl_webhookCertName fl),
      render_arg ''webhook-cert-key'' (fl_webhookCertKey fl),
      render_arg ''metrics-cert-path'' (fl_metricsCertPath fl),
      render_arg ''metrics-cert-name'' (fl_metricsCertName fl),
      render_arg ''metrics-cert-key'' (fl_metricsCertKey fl),
      render_arg ''pprof-bind-address'' (fl_pprofBindAddress fl),
      render_arg ''webhook-bind-address'' (show_int (fl_webhookPort fl)),
      render_arg ''enable-http2'' (render_bool (fl_enableHTTP2 fl))]"

lemma split_eq_name: "CHR ''='' \<notin> set n \<Longrightarrow> split_eq (n @ CHR ''='' # v) = (n, Some v)"
  by (induction n) auto

lemma parse_render_arg:
  assumes "n \<noteq> []" and "CHR ''='' \<notin> set n" and "hd n \<noteq> CHR ''-''"
  shows "parse_arg (render_arg n v) = Flag n (Some v)"
  using assms split_eq_name[of n v]
  by (cases n) (auto simp: parse_arg_def render_arg_def Let_def)

lemma parse_flags_step:
  assumes "n \<noteq> []" and "CHR ''='' \<notin> set n" and "hd n \<noteq> CHR ''-''" and "is_bool_flag E n \<noteq> None"
    and "set_flag E n v fl = Some fl'"
  shows "parse_flags E (render_arg n v # args) fl = parse_flags E args fl'"
  using assms by (auto simp: parse_render_arg split: option.splits bool.splits)

lemma ParseBool_render [simp]: "ParseBool (render_bool b) = Some b"
  by (simp add: ParseBool_def render_bool_def)

text \<open>
  C23. The command line round trip: a command line that spells out every option is read back as
  exactly those options, whatever the defaults were.
\<close>

lemma flags_roundtrip:
  assumes "fe_num E (show_int (fl_webhookPort fl)) = Some (fl_webhookPort fl)"
  shows "parse_flags E (render_flags show_int fl) fl0 = Inr fl"
  using assms unfolding render_flags_def
  by (simp add: parse_flags_step is_bool_flag_def set_flag_def flag_table_def del: parse_flags.simps(2))

definition plain_env :: flag_env where
  "plain_env = \<lparr>fe_num = (\<lambda>s. if s = ''9443'' then Some 9443 else None), fe_zap = (\<lambda>n. None),
     fe_zap_accepts = (\<lambda>n v. False)\<rparr>"

lemma flags_roundtrip_witness:
  "parse_flags plain_env (render_flags (\<lambda>n. ''9443'') (flags0\<lparr>fl_enableHTTP2 := True\<rparr>)) flags0 =
     Inr (flags0\<lparr>fl_enableHTTP2 := True\<rparr>)"
  by (rule flags_roundtrip) (simp add: plain_env_def flags0_def)

section \<open>The two servers\<close>

text \<open>
  C22. The servers share no certificate by accident: main appends to two copies of one slice
  header, and the webhook server keeps its own certificate exactly because append to an empty
  slice leaves no spare capacity, or HTTP/2 is enabled, or one of the two watchers is absent.
  The metrics server always gets its own. HTTP/2 is disabled first on both unless enabled.
\<close>

lemma servers_own_certificates:
  assumes "tls_setup L fl s = (Next (opts, mw, ww), t)" and "ms_arrays s = \<lparr>ar_next = 1, ar_cells = c\<rparr>"
  shows "ww = wanted_cert L (fl_webhookCertPath fl) (fl_webhookCertName fl) (fl_webhookCertKey fl) \<and>
    mw = wanted_cert L (fl_metricsCertPath fl) (fl_metricsCertName fl) (fl_metricsCertKey fl) \<and>
    slice_list (ms_arrays t) (mo_TLSOpts (co_Metrics opts)) = wanted_opts fl mw \<and>
    (slice_list (ms_arrays t) (co_WebhookTLSOpts opts) = wanted_opts fl ww \<longleftrightarrow>
       ml_grow L 1 \<le> 1 \<or> fl_enableHTTP2 fl \<or> ww = None \<or> mw = None \<or> ww = mw)"
  using tls_setup_lists[OF assms]
  by (auto simp: wanted_opts_def split: option.splits)

definition quiet_lib :: "(nat \<Rightarrow> nat) \<Rightarrow> unit main_lib" where
  "quiet_lib grow = \<lparr>ml_act = (\<lambda>e w. (None, w)), ml_SetManagerOptions = (\<lambda>opts w. (Inr opts, w)),
     ml_Getenv = (\<lambda>n. ''''), ml_GetEnvVar = (\<lambda>n d. d), ml_Join = (\<lambda>d n. d @ ''/'' @ n), ml_grow = grow\<rparr>"

definition both_certs :: flags where
  "both_certs = flags0\<lparr>fl_webhookCertPath := ''/w'', fl_metricsCertPath := ''/m''\<rparr>"

definition fresh_process :: "unit mstate" where
  "fresh_process = \<lparr>ms_world = (), ms_arrays = \<lparr>ar_next = 1, ar_cells = (\<lambda>a i. DisableHTTP2)\<rparr>,
     ms_defaults = horizonDefaults0\<rparr>"

lemma servers_own_certificates_witness:
  "\<exists>opts mw ww t. tls_setup (quiet_lib (\<lambda>n. n)) both_certs fresh_process = (Next (opts, mw, ww), t) \<and>
     slice_list (ms_arrays t) (co_WebhookTLSOpts opts) = [DisableHTTP2, ServeCertificate ''/w/tls.crt'' ''/w/tls.key''] \<and>
     slice_list (ms_arrays t) (mo_TLSOpts (co_Metrics opts)) = [DisableHTTP2, ServeCertificate ''/m/tls.crt'' ''/m/tls.key'']"
proof -
  obtain f t where run: "tls_setup (quiet_lib (\<lambda>n. n)) both_certs fresh_process = (f, t)" by fastforce
  have "\<exists>opts mw ww. f = Next (opts, mw, ww)"
    using run by (auto simp: tls_setup_def base_opts_def cert_watcher_def append_opt_def must_def quiet_lib_def
        both_certs_def flags0_def flow_simps Let_def split: prod.splits)
  then obtain opts mw ww where "f = Next (opts, mw, ww)" by blast
  with run have go: "tls_setup (quiet_lib (\<lambda>n. n)) both_certs fresh_process = (Next (opts, mw, ww), t)" by simp
  have "ms_arrays fresh_process = \<lparr>ar_next = 1, ar_cells = (\<lambda>a i. DisableHTTP2)\<rparr>"
    by (simp add: fresh_process_def)
  from servers_own_certificates[OF go this] go show ?thesis
    by (auto simp: wanted_cert_def wanted_opts_def quiet_lib_def both_certs_def flags0_def)
qed

section \<open>The process\<close>














section \<open>The scheme\<close>

lemma add_groups_run:
  "add_groups (\<lambda>g gs. (if ok g then None else Some (err g), if ok g then insert g gs else gs)) xs gs =
     (map_option err (find (\<lambda>g. \<not> ok g) xs), gs \<union> set (takeWhile ok xs))"
  by (induction xs arbitrary: gs) auto

text \<open>
  The scheme is complete: init panics with the error of the first group that cannot be added,
  and when it does not, every kind the controller watches or owns belongs to a group that was
  added.
\<close>

lemma scheme_covers_watches:
  "case init_scheme (\<lambda>g gs. (if ok g then None else Some (err g), if ok g then insert g gs else gs)) {} of
     (None, gs) \<Rightarrow> list_all ok scheme_groups \<and>
        list_all (\<lambda>w. group_of (watched_kind w) \<in> gs) controller_watches
   | (Some p, gs) \<Rightarrow> find (\<lambda>g. \<not> ok g) scheme_groups \<noteq> None \<and>
        p = err (the (find (\<lambda>g. \<not> ok g) scheme_groups))"
  unfolding init_scheme_def add_groups_run scheme_groups_def
  by (simp add: controller_watches_def)

end
