(* ===== verification/Deep_Copy.thy ===== *)
theory Deep_Copy
  imports Horizon_Webhook "HOL-Library.Finite_Map"
begin

text \<open>
  The generated copy functions (api/v1beta1/zz_generated.deepcopy.go), over an explicit store:
  pointers, maps and slices are addresses, so that sharing is visible. The contract of a deep
  copy (an equal value in fresh cells, nothing old touched) is the locale \<open>deep_copy\<close>; it is
  closed under pointers, slices and sequences of fields, which is how the code builds copies.
\<close>

section \<open>The store\<close>

type_synonym addr = nat

record type_meta =
  tm_kind :: string
  tm_apiVersion :: string

record object_meta =
  om_name :: string
  om_namespace :: string
  om_generation :: int
  om_deletionTimestamp :: "int option"
  om_finalizers :: "string list"

text \<open>
  The structs of the API as they lie in memory. Fields of struct types of other packages are
  values, with their own DeepCopyInto as a parameter.
\<close>

record g_override =
  go_service :: "addr option"

record g_extra =
  gx_name :: string
  gx_region :: string
  gx_volMounts :: "addr option"

record g_core =
  gc_nodeSelector :: "addr option"
  gc_defaultConfigOverwrite :: "addr option"
  gc_resources :: resources
  gc_override :: g_override
  gc_tls :: tls_spec
  gc_replicas :: "addr option"
  gc_secret :: string
  gc_customServiceConfig :: string
  gc_memcachedInstance :: string
  gc_preserveJobs :: bool
  gc_extraMounts :: "addr option"
  gc_networkAttachments :: "addr option"
  gc_topologyRef :: "addr option"

record g_spec =
  gs_containerImage :: string
  gs_core :: g_core

record g_status =
  gt_hash :: "addr option"
  gt_endpoint :: string
  gt_conditions :: "addr option"
  gt_readyCount :: int
  gt_observedGeneration :: int
  gt_networkAttachments :: "addr option"
  gt_lastAppliedTopology :: "addr option"

record g_horizon =
  gh_typeMeta :: type_meta
  gh_objectMeta :: object_meta
  gh_spec :: g_spec
  gh_status :: g_status

record g_list =
  gl_typeMeta :: type_meta
  gl_listMeta :: string
  gl_items :: "addr option"

text \<open>A cell: a map, a pointer's target, the array of a slice, or a struct made by new.\<close>

datatype cell =
    CMap (the_map: "(string, string) fmap")
  | CRef (the_ref: "addr option")
  | CInt (the_int: int)
  | CStrs (the_strs: "string list")
  | CTopo (the_topo: topo_ref)
  | CService (the_service: routed_override)
  | CVols (the_vols: "vol_mounts list")
  | CExtras (the_extras: "g_extra list")
  | CConds (the_conds: "condition list")
  | CNets (the_nets: "(string, addr option) fmap")
  | CItems (the_items: "g_horizon list")
  | COverride (the_override: g_override)
  | CHorizon (the_horizon: g_horizon)
  | CDefaults (the_defaults: horizon_defaults)
  | CExtra (the_extra: g_extra)
  | CList (the_list: g_list)
  | CSpec (the_spec: g_spec)
  | CCore (the_core: g_core)
  | CStatus (the_status: g_status)

record store =
  st_next :: addr
  st_cells :: "addr \<Rightarrow> cell"

definition alloc :: "cell \<Rightarrow> store \<Rightarrow> addr \<times> store" where
  "alloc c h = (st_next h, h\<lparr>st_next := Suc (st_next h), st_cells := (st_cells h)(st_next h := c)\<rparr>)"

definition write_cell :: "addr \<Rightarrow> cell \<Rightarrow> store \<Rightarrow> store" where
  "write_cell a c h = h\<lparr>st_cells := (st_cells h)(a := c)\<rparr>"

definition same_on :: "addr set \<Rightarrow> store \<Rightarrow> store \<Rightarrow> bool" where
  "same_on A h h' \<longleftrightarrow> (\<forall>a \<in> A. st_cells h' a = st_cells h a)"

definition extends :: "store \<Rightarrow> store \<Rightarrow> bool" where
  "extends h h' \<longleftrightarrow> st_next h \<le> st_next h' \<and> same_on {..<st_next h} h h'"

lemma same_on_mono: "same_on B h h' \<Longrightarrow> A \<subseteq> B \<Longrightarrow> same_on A h h'"
  by (auto simp: same_on_def)

lemma extends_refl [simp]: "extends h h"
  by (simp add: extends_def same_on_def)

lemma extends_trans: "extends h h1 \<Longrightarrow> extends h1 h2 \<Longrightarrow> extends h h2"
  by (simp add: extends_def same_on_def)

section \<open>The contract of a deep copy\<close>

text \<open>
  \<open>view\<close> is the value read through the store, \<open>refs\<close> the cells it is read from. A value is
  allocated when all of them are.
\<close>

locale deep_copy =
  fixes copy :: "'g \<Rightarrow> store \<Rightarrow> 'g \<times> store"
    and view :: "store \<Rightarrow> 'g \<Rightarrow> 'v"
    and refs :: "store \<Rightarrow> 'g \<Rightarrow> addr set"
  assumes reads: "same_on (refs h g) h h' \<Longrightarrow> view h' g = view h g \<and> refs h' g = refs h g"
    and copies: "refs h g \<subseteq> {..<st_next h} \<Longrightarrow> copy g h = (g', h') \<Longrightarrow>
      extends h h' \<and> view h' g' = view h g \<and> refs h' g' \<subseteq> {st_next h..<st_next h'}"
begin

lemma under_extends:
  assumes "refs h g \<subseteq> {..<st_next h}" and "extends h h'"
  shows "view h' g = view h g" and "refs h' g = refs h g" and "refs h' g \<subseteq> {..<st_next h'}"
proof -
  have "same_on (refs h g) h h'" using assms by (auto simp: extends_def intro: same_on_mono)
  from reads[OF this] show "view h' g = view h g" and "refs h' g = refs h g" by simp_all
  with assms show "refs h' g \<subseteq> {..<st_next h'}" by (auto simp: extends_def)
qed

text \<open>Original and copy share no cell, so a write through one is not seen through the other.\<close>

lemma disjoint:
  assumes "refs h g \<subseteq> {..<st_next h}" and "copy g h = (g', h')"
  shows "refs h' g \<inter> refs h' g' = {}"
proof -
  have ext: "extends h h'" and fresh: "refs h' g' \<subseteq> {st_next h..<st_next h'}"
    using copies[OF assms] by simp_all
  have old: "refs h' g \<subseteq> {..<st_next h}" unfolding under_extends(2)[OF assms(1) ext] by (rule assms(1))
  have "x \<notin> refs h' g'" if "x \<in> refs h' g" for x
    using subsetD[OF old that] subsetD[OF fresh, of x] by auto
  then show ?thesis by blast
qed

lemma independent:
  assumes "refs h g \<subseteq> {..<st_next h}" and "copy g h = (g', h')"
    and "same_on (- W) h' k"
  shows "W \<subseteq> refs h' g' \<Longrightarrow> view k g = view h g" and "W \<subseteq> refs h' g \<Longrightarrow> view k g' = view h g"
proof -
  have c: "extends h h'" "view h' g' = view h g" using copies[OF assms(1,2)] by simp_all
  have d: "refs h' g \<inter> refs h' g' = {}" by (rule disjoint[OF assms(1,2)])
  show "view k g = view h g" if "W \<subseteq> refs h' g'"
  proof -
    have "same_on (refs h' g) h' k" using assms(3) that d by (auto intro: same_on_mono)
    then show ?thesis using reads[of h' g k] under_extends(1)[OF assms(1) c(1)] by simp
  qed
  show "view k g' = view h g" if "W \<subseteq> refs h' g"
  proof -
    have "same_on (refs h' g') h' k" using assms(3) that d by (auto intro: same_on_mono)
    then show ?thesis using reads[of h' g' k] c(2) by simp
  qed
qed

end

section \<open>Building copies\<close>

text \<open>A value of another package, copied by the DeepCopyInto \<open>f\<close> of that package.\<close>

definition copy_value :: "('a \<Rightarrow> 'a) \<Rightarrow> 'a \<Rightarrow> store \<Rightarrow> 'a \<times> store" where
  "copy_value f x h = (f x, h)"

text \<open>new(T) or make, then filling the new cell; nil stays nil.\<close>

definition copy_ref ::
  "('g \<Rightarrow> store \<Rightarrow> 'g \<times> store) \<Rightarrow> (cell \<Rightarrow> 'g) \<Rightarrow> ('g \<Rightarrow> cell) \<Rightarrow> addr option \<Rightarrow> store \<Rightarrow> addr option \<times> store" where
  "copy_ref copy get put p h = (case p of
     None \<Rightarrow> (None, h)
   | Some a \<Rightarrow>
       (case alloc (put (get (st_cells h a))) h of (b, h1) \<Rightarrow>
         (case copy (get (st_cells h a)) h1 of (v, h2) \<Rightarrow> (Some b, write_cell b (put v) h2))))"

text \<open>The loop over the elements of a slice.\<close>

fun copy_list :: "('g \<Rightarrow> store \<Rightarrow> 'g \<times> store) \<Rightarrow> 'g list \<Rightarrow> store \<Rightarrow> 'g list \<times> store" where
  "copy_list copy [] h = ([], h)"
| "copy_list copy (x # xs) h = (case copy x h of (y, h1) \<Rightarrow>
     (case copy_list copy xs h1 of (ys, h2) \<Rightarrow> (y # ys, h2)))"

definition view_ref :: "(store \<Rightarrow> 'g \<Rightarrow> 'v) \<Rightarrow> (cell \<Rightarrow> 'g) \<Rightarrow> store \<Rightarrow> addr option \<Rightarrow> 'v option" where
  "view_ref view get h p = map_option (\<lambda>a. view h (get (st_cells h a))) p"

definition refs_ref :: "(store \<Rightarrow> 'g \<Rightarrow> addr set) \<Rightarrow> (cell \<Rightarrow> 'g) \<Rightarrow> store \<Rightarrow> addr option \<Rightarrow> addr set" where
  "refs_ref refs get h p = (case p of None \<Rightarrow> {} | Some a \<Rightarrow> insert a (refs h (get (st_cells h a))))"

definition refs_list :: "(store \<Rightarrow> 'g \<Rightarrow> addr set) \<Rightarrow> store \<Rightarrow> 'g list \<Rightarrow> addr set" where
  "refs_list refs h xs = (\<Union>x \<in> set xs. refs h x)"

definition no_refs :: "store \<Rightarrow> 'g \<Rightarrow> addr set" where
  "no_refs h x = {}"

definition same_value :: "store \<Rightarrow> 'g \<Rightarrow> 'g" where
  "same_value h x = x"

lemma value_copy:
  assumes "\<And>x. f x = x"
  shows "deep_copy (copy_value f) same_value no_refs"
  by unfold_locales (auto simp: copy_value_def same_value_def no_refs_def assms)

lemma same_on_refs:
  assumes "deep_copy copy view refs" and "same_on A h h'" and "refs h g \<subseteq> A"
  shows "view h' g = view h g" and "refs h' g = refs h g"
  using deep_copy.reads[OF assms(1) same_on_mono[OF assms(2,3)]] by simp_all

lemma extends_alloc:
  assumes "alloc c h = (b, h1)"
  shows "extends h h1" and "b = st_next h" and "st_next h1 = Suc b" and "st_cells h1 b = c"
  using assms by (auto simp: alloc_def extends_def same_on_def)

text \<open>Writing into a cell that is not older than \<open>h\<close>.\<close>

lemma extends_write: "extends h h1 \<Longrightarrow> st_next h \<le> b \<Longrightarrow> extends h (write_cell b c h1)"
  by (auto simp: extends_def same_on_def write_cell_def)

lemma ref_copy:
  assumes dc: "deep_copy copy view refs" and put: "\<And>g. get (put g) = g"
  shows "deep_copy (copy_ref copy get put) (view_ref view get) (refs_ref refs get)"
proof
  fix h h' p assume on: "same_on (refs_ref refs get h p) h h'"
  show "view_ref view get h' p = view_ref view get h p \<and> refs_ref refs get h' p = refs_ref refs get h p"
  proof (cases p)
    case (Some a)
    let ?g = "get (st_cells h a)"
    have cell: "st_cells h' a = st_cells h a" and "same_on (refs h ?g) h h'"
      using on Some by (simp_all add: refs_ref_def same_on_def)
    with deep_copy.reads[OF dc this(2)] Some show ?thesis by (simp add: view_ref_def refs_ref_def)
  qed (simp add: view_ref_def refs_ref_def)
next
  fix h p q h'
  assume al: "refs_ref refs get h p \<subseteq> {..<st_next h}" and run: "copy_ref copy get put p h = (q, h')"
  show "extends h h' \<and> view_ref view get h' q = view_ref view get h p \<and>
      refs_ref refs get h' q \<subseteq> {st_next h..<st_next h'}"
  proof (cases p)
    case None
    with run show ?thesis by (simp add: copy_ref_def view_ref_def refs_ref_def)
  next
    case (Some a)
    let ?g = "get (st_cells h a)"
    obtain b h1 where new: "alloc (put ?g) h = (b, h1)" by fastforce
    obtain v h2 where into: "copy ?g h1 = (v, h2)" by fastforce
    have q: "q = Some b" "h' = write_cell b (put v) h2"
      using run Some new into by (simp_all add: copy_ref_def)
    note al1 = extends_alloc[OF new]
    have old: "refs h ?g \<subseteq> {..<st_next h}" using al Some by (simp add: refs_ref_def)
    note u = deep_copy.under_extends[OF dc old al1(1)]
    have c: "extends h1 h2" "view h2 v = view h1 ?g" "refs h2 v \<subseteq> {st_next h1..<st_next h2}"
      using deep_copy.copies[OF dc u(3) into] by simp_all
    have "same_on (refs h2 v) h2 h'"
      using c(3) al1(3) by (auto simp: same_on_def q(2) write_cell_def)
    from deep_copy.reads[OF dc this] have v: "view h' v = view h ?g" "refs h' v = refs h2 v"
      using c(2) u(1) by simp_all
    have cell: "st_cells h' b = put v" and "st_next h' = st_next h2" by (simp_all add: q(2) write_cell_def)
    moreover have "extends h h'"
      unfolding q(2) by (rule extends_write[OF extends_trans[OF al1(1) c(1)]]) (simp add: al1(2))
    moreover have "refs_ref refs get h' q \<subseteq> {st_next h..<st_next h'}"
      using v(2) c(1,3) al1(2,3) \<open>st_next h' = st_next h2\<close> cell
      by (auto simp: refs_ref_def q(1) put extends_def)
    ultimately show ?thesis using v(1) Some by (simp add: view_ref_def q(1) put)
  qed
qed

lemma list_copy:
  assumes dc: "deep_copy copy view refs"
  shows "deep_copy (copy_list copy) (\<lambda>h. map (view h)) (refs_list refs)"
proof
  fix h h' xs assume on: "same_on (refs_list refs h xs) h h'"
  have "view h' x = view h x \<and> refs h' x = refs h x" if "x \<in> set xs" for x
  proof -
    have "refs h x \<subseteq> refs_list refs h xs" using that by (auto simp: refs_list_def)
    from same_on_refs[OF dc on this] show ?thesis by simp
  qed
  then show "map (view h') xs = map (view h) xs \<and> refs_list refs h' xs = refs_list refs h xs"
    by (simp add: refs_list_def)
next
  fix h xs ys h'
  assume "refs_list refs h xs \<subseteq> {..<st_next h}" and "copy_list copy xs h = (ys, h')"
  then show "extends h h' \<and> map (view h') ys = map (view h) xs \<and>
      refs_list refs h' ys \<subseteq> {st_next h..<st_next h'}"
  proof (induction xs arbitrary: h ys)
    case Nil
    then show ?case by (simp add: refs_list_def)
  next
    case (Cons x xs)
    obtain y h1 where y: "copy x h = (y, h1)" by fastforce
    obtain zs where zs: "copy_list copy xs h1 = (zs, h')" and ys: "ys = y # zs"
      using Cons.prems(2) y by (auto split: prod.splits)
    have old: "refs h x \<subseteq> {..<st_next h}" "refs_list refs h xs \<subseteq> {..<st_next h}"
      using Cons.prems(1) by (auto simp: refs_list_def)
    have c: "extends h h1" "view h1 y = view h x" "refs h1 y \<subseteq> {st_next h..<st_next h1}"
      using deep_copy.copies[OF dc old(1) y] by simp_all
    have each: "view h1 z = view h z" "refs h1 z = refs h z" if "z \<in> set xs" for z
      using deep_copy.under_extends(1,2)[OF dc _ c(1), of z] old(2) that by (auto simp: refs_list_def)
    have "refs_list refs h1 xs \<subseteq> {..<st_next h1}"
      using old(2) c(1) each(2) by (auto simp: refs_list_def extends_def dest!: subsetD)
    from Cons.IH[OF this zs] have r: "extends h1 h'" "map (view h') zs = map (view h1) xs"
      "refs_list refs h' zs \<subseteq> {st_next h1..<st_next h'}" by simp_all
    have "refs h1 y \<subseteq> {..<st_next h1}" using c(3) by auto
    note y' = deep_copy.under_extends(1,2)[OF dc this r(1)]
    have "map (view h') ys = map (view h) (x # xs)" using r(2) y'(1) c(2) each(1) by (simp add: ys)
    moreover have "refs_list refs h' ys \<subseteq> {st_next h..<st_next h'}"
      using r(1,3) y'(2) c(1,3) by (fastforce simp: refs_list_def ys extends_def)
    ultimately show ?case using extends_trans[OF c(1) r(1)] by simp
  qed
qed

lemma pair_copy:
  assumes c1: "deep_copy c1 v1 r1" and c2: "deep_copy c2 v2 r2"
  shows "deep_copy
    (\<lambda>p h. case c1 (fst p) h of (x, h1) \<Rightarrow> (case c2 (snd p) h1 of (y, h2) \<Rightarrow> ((x, y), h2)))
    (\<lambda>h p. (v1 h (fst p), v2 h (snd p))) (\<lambda>h p. r1 h (fst p) \<union> r2 h (snd p))"
proof
  fix h h' p assume on: "same_on (r1 h (fst p) \<union> r2 h (snd p)) h h'"
  show "(v1 h' (fst p), v2 h' (snd p)) = (v1 h (fst p), v2 h (snd p)) \<and>
      r1 h' (fst p) \<union> r2 h' (snd p) = r1 h (fst p) \<union> r2 h (snd p)"
    using same_on_refs[OF c1 on, of "fst p"] same_on_refs[OF c2 on, of "snd p"] by simp
next
  fix h p g' h'
  assume al: "r1 h (fst p) \<union> r2 h (snd p) \<subseteq> {..<st_next h}"
    and run: "(case c1 (fst p) h of (x, h1) \<Rightarrow> (case c2 (snd p) h1 of (y, h2) \<Rightarrow> ((x, y), h2))) = (g', h')"
  obtain x h1 where x: "c1 (fst p) h = (x, h1)" by fastforce
  obtain y where y: "c2 (snd p) h1 = (y, h')" and g': "g' = (x, y)"
    using run x by (auto split: prod.splits)
  have "r1 h (fst p) \<subseteq> {..<st_next h}" and al2: "r2 h (snd p) \<subseteq> {..<st_next h}" using al by simp_all
  note a = deep_copy.copies[OF c1 this(1) x]
  note u = deep_copy.under_extends[OF c2 al2 conjunct1[OF a]]
  note b = deep_copy.copies[OF c2 u(3) y]
  have "r1 h1 x \<subseteq> {..<st_next h1}" using a by auto
  note w = deep_copy.under_extends[OF c1 this conjunct1[OF b]]
  have "extends h h'" using a b by (blast intro: extends_trans)
  moreover have "v1 h' x = v1 h (fst p)" using w(1) a by simp
  moreover have "v2 h' y = v2 h (snd p)" using u(1) b by simp
  moreover have "r1 h' x \<subseteq> {st_next h..<st_next h'}" unfolding w(2) using a b by (auto simp: extends_def)
  moreover have "r2 h' y \<subseteq> {st_next h..<st_next h'}" using a b by (auto simp: extends_def)
  ultimately show "extends h h' \<and>
      (v1 h' (fst g'), v2 h' (snd g')) = (v1 h (fst p), v2 h (snd p)) \<and>
      r1 h' (fst g') \<union> r2 h' (snd g') \<subseteq> {st_next h..<st_next h'}"
    by (simp add: g')
qed

text \<open>
  A struct: the fields \<open>get\<close> picks are copied one after the other, the others by *out = *in.
\<close>

lemma struct_copy:
  assumes dc: "deep_copy c v r" and "\<And>p g. get (put p g) = p" and "\<And>p g d. mk (put p g) d = mk g d"
    and "\<And>g h. C g h = (case c (get g) h of (p, h') \<Rightarrow> (put p g, h'))"
    and "\<And>h g. V h g = mk g (v h (get g))" and "\<And>h g. R h g = r h (get g)"
  shows "deep_copy C V R"
proof
  fix h h' g assume "same_on (R h g) h h'"
  then show "V h' g = V h g \<and> R h' g = R h g"
    using deep_copy.reads[OF dc, of h "get g" h'] by (simp add: assms(5,6))
next
  fix h g g' h' assume "R h g \<subseteq> {..<st_next h}" and run: "C g h = (g', h')"
  then have al: "r h (get g) \<subseteq> {..<st_next h}" by (simp add: assms(6))
  obtain p where "c (get g) h = (p, h')" and "g' = put p g"
    using run by (auto simp: assms(4) split: prod.splits)
  with deep_copy.copies[OF dc al this(1)]
  show "extends h h' \<and> V h' g' = V h g \<and> R h' g' \<subseteq> {st_next h..<st_next h'}"
    by (simp add: assms(2,3,5,6))
qed

text \<open>The loop over a map whose values are copied one by one, in the order the range gives.\<close>

fun copy_each ::
  "('g \<Rightarrow> store \<Rightarrow> 'g \<times> store) \<Rightarrow> ('k, 'g) fmap \<Rightarrow> 'k list \<Rightarrow> ('k, 'g) fmap \<Rightarrow> store \<Rightarrow>
   ('k, 'g) fmap \<times> store" where
  "copy_each copy m [] out h = (out, h)"
| "copy_each copy m (k # ks) out h =
     (case copy (the (fmlookup m k)) h of (v, h1) \<Rightarrow> copy_each copy m ks (fmupd k v out) h1)"

definition view_map :: "(store \<Rightarrow> 'g \<Rightarrow> 'v) \<Rightarrow> store \<Rightarrow> ('k, 'g) fmap \<Rightarrow> ('k, 'v) fmap" where
  "view_map view h m = fmmap (view h) m"

definition refs_map :: "(store \<Rightarrow> 'g \<Rightarrow> addr set) \<Rightarrow> store \<Rightarrow> ('k, 'g) fmap \<Rightarrow> addr set" where
  "refs_map refs h m = (\<Union>v \<in> fmran' m. refs h v)"

lemma each_copied:
  assumes dc: "deep_copy copy view refs"
    and "refs_map refs h m \<subseteq> {..<st_next h}" and "set ks \<subseteq> fmdom' m"
    and "copy_each copy m ks out h = (out', h')"
  shows "extends h h' \<and> (\<forall>k. k \<notin> set ks \<longrightarrow> fmlookup out' k = fmlookup out k) \<and>
    (\<forall>k \<in> set ks. \<exists>w. fmlookup out' k = Some w \<and> view h' w = view h (the (fmlookup m k)) \<and>
       refs h' w \<subseteq> {st_next h..<st_next h'})"
  using assms(2-4)
proof (induction ks arbitrary: out h)
  case Nil
  then show ?case by simp
next
  case (Cons k ks)
  let ?v = "the (fmlookup m k)"
  obtain w h1 where w: "copy ?v h = (w, h1)" by fastforce
  have rest: "copy_each copy m ks (fmupd k w out) h1 = (out', h')" using Cons.prems(3) w by simp
  have each: "refs h x \<subseteq> {..<st_next h}" if "fmlookup m l = Some x" for l x
    using Cons.prems(1) fmran'I[OF that] by (auto simp: refs_map_def)
  have in_m: "\<exists>x. fmlookup m l = Some x" if "l \<in> set (k # ks)" for l
    using subsetD[OF Cons.prems(2) that] by (simp add: fmlookup_dom'_iff)
  have "refs h ?v \<subseteq> {..<st_next h}" using each in_m[of k] by auto
  note c = deep_copy.copies[OF dc this w]
  note u = deep_copy.under_extends[OF dc each conjunct1[OF c]]
  have al1: "refs_map refs h1 m \<subseteq> {..<st_next h1}"
    using u(3) by (fastforce simp: refs_map_def elim!: fmran'E)
  have sub: "set ks \<subseteq> fmdom' m" using Cons.prems(2) by simp
  note r = Cons.IH[OF al1 sub rest]
  have mono: "st_next h \<le> st_next h1" "st_next h1 \<le> st_next h'" using c r by (simp_all add: extends_def)
  have "refs h1 w \<subseteq> {..<st_next h1}" using c by auto
  note w' = deep_copy.under_extends(1,2)[OF dc this conjunct1[OF r]]
  have "\<exists>x. fmlookup out' l = Some x \<and> view h' x = view h (the (fmlookup m l)) \<and>
      refs h' x \<subseteq> {st_next h..<st_next h'}" if "l \<in> set (k # ks)" for l
  proof (cases "l \<in> set ks")
    case True
    then obtain x where x: "fmlookup out' l = Some x" "view h' x = view h1 (the (fmlookup m l))"
      "refs h' x \<subseteq> {st_next h1..<st_next h'}" using r by blast
    from in_m[OF that] obtain y where "fmlookup m l = Some y" by blast
    with u(1) x(2) have "view h' x = view h (the (fmlookup m l))" by simp
    moreover have "refs h' x \<subseteq> {st_next h..<st_next h'}" using x(3) mono by auto
    ultimately show ?thesis using x(1) by blast
  next
    case False
    with that r have "l = k" "fmlookup out' k = Some w" by simp_all
    moreover have "refs h' w \<subseteq> {st_next h..<st_next h'}" unfolding w'(2) using c mono by auto
    ultimately show ?thesis using w'(1) c by simp
  qed
  moreover have "extends h h'" using c r by (blast intro: extends_trans)
  ultimately show ?case using r by simp
qed

lemma map_copy:
  assumes dc: "deep_copy copy view refs" and keys: "\<And>S. set (ord S) = fset S"
  shows "deep_copy (\<lambda>m. copy_each copy m (ord (fmdom m)) fmempty) (view_map view) (refs_map refs)"
proof
  fix h h' m assume on: "same_on (refs_map refs h m) h h'"
  have "view h' x = view h x \<and> refs h' x = refs h x" if "x \<in> fmran' m" for x
  proof -
    have "refs h x \<subseteq> refs_map refs h m" using that by (auto simp: refs_map_def)
    from same_on_refs[OF dc on this] show ?thesis by simp
  qed
  then show "view_map view h' m = view_map view h m \<and> refs_map refs h' m = refs_map refs h m"
    by (auto simp: view_map_def refs_map_def fmran'I intro!: fmap_ext option.map_cong)
next
  fix h m m' h'
  assume al: "refs_map refs h m \<subseteq> {..<st_next h}"
    and run: "copy_each copy m (ord (fmdom m)) fmempty h = (m', h')"
  have dom: "set (ord (fmdom m)) = fmdom' m" by (simp add: keys fmdom'_alt_def)
  note r = each_copied[OF dc al equalityD1[OF dom] run, unfolded dom]
  have "view_map view h' m' = view_map view h m"
  proof (rule fmap_ext)
    fix k show "fmlookup (view_map view h' m') k = fmlookup (view_map view h m) k"
    proof (cases "fmlookup m k")
      case None
      then have "fmlookup m' k = None" using r by (simp add: fmdom'_notI)
      with None show ?thesis by (simp add: view_map_def)
    next
      case (Some x)
      then have "k \<in> fmdom' m" by (rule fmdom'I)
      with r Some show ?thesis by (auto simp: view_map_def)
    qed
  qed
  moreover have "refs h' x \<subseteq> {st_next h..<st_next h'}" if "fmlookup m' k = Some x" for k x
  proof (cases "k \<in> fmdom' m")
    case True
    with r that show ?thesis by fastforce
  qed (use r that in simp)
  then have "refs_map refs h' m' \<subseteq> {st_next h..<st_next h'}"
    unfolding refs_map_def by (blast elim: fmran'E)
  ultimately show "extends h h' \<and> view_map view h' m' = view_map view h m \<and>
      refs_map refs h' m' \<subseteq> {st_next h..<st_next h'}" using r by simp
qed

end
