(* ===== verification/Generated_Copies.thy ===== *)
theory Generated_Copies
  imports Deep_Copy
begin

text \<open>
  The functions of api/v1beta1/zz_generated.deepcopy.go, in the order of their fields, and the
  contract of every one of them: the copy reads as the original and shares no cell with it.
\<close>

section \<open>The generated functions\<close>

text \<open>
  The DeepCopyInto of the other packages, and the order in which a map's keys are visited. The
  laws: the former return an equal value, the latter visits each key.
\<close>

record copy_lib =
  cl_service :: "routed_override \<Rightarrow> routed_override"
  cl_resources :: "resources \<Rightarrow> resources"
  cl_tls :: "tls_spec \<Rightarrow> tls_spec"
  cl_objectMeta :: "object_meta \<Rightarrow> object_meta"
  cl_listMeta :: "string \<Rightarrow> string"
  cl_volMounts :: "vol_mounts \<Rightarrow> vol_mounts"
  cl_condition :: "condition \<Rightarrow> condition"
  cl_range :: "string fset \<Rightarrow> string list"

definition copy_laws :: "copy_lib \<Rightarrow> bool" where
  "copy_laws X \<longleftrightarrow> (\<forall>x. cl_service X x = x) \<and> (\<forall>x. cl_resources X x = x) \<and> (\<forall>x. cl_tls X x = x) \<and>
     (\<forall>x. cl_objectMeta X x = x) \<and> (\<forall>x. cl_listMeta X x = x) \<and> (\<forall>x. cl_volMounts X x = x) \<and>
     (\<forall>x. cl_condition X x = x) \<and> (\<forall>S. set (cl_range X S) = fset S)"

text \<open>copy(dst, src) of the language: as many elements as both have.\<close>

definition go_copy :: "'a list \<Rightarrow> 'a list \<Rightarrow> 'a list" where
  "go_copy dst src = take (length dst) src @ drop (length src) dst"

definition copy_strings :: "addr option \<Rightarrow> store \<Rightarrow> addr option \<times> store" where
  "copy_strings = copy_ref (copy_value (\<lambda>xs. go_copy (replicate (length xs) []) xs)) the_strs CStrs"

definition copy_int :: "addr option \<Rightarrow> store \<Rightarrow> addr option \<times> store" where
  "copy_int = copy_ref (copy_value id) the_int CInt"

definition copy_topo :: "addr option \<Rightarrow> store \<Rightarrow> addr option \<times> store" where
  "copy_topo = copy_ref (copy_value id) the_topo CTopo"

text \<open>make(map[string]string, len), then the range over the old map.\<close>

definition copy_smap :: "copy_lib \<Rightarrow> addr option \<Rightarrow> store \<Rightarrow> addr option \<times> store" where
  "copy_smap X = copy_ref
     (\<lambda>m. copy_each (copy_value id) m (cl_range X (fmdom m)) fmempty) the_map CMap"

definition copy_nets :: "copy_lib \<Rightarrow> addr option \<Rightarrow> store \<Rightarrow> addr option \<times> store" where
  "copy_nets X = copy_ref
     (\<lambda>m. copy_each copy_strings m (cl_range X (fmdom m)) fmempty) the_nets CNets"

definition Override_DeepCopyInto :: "copy_lib \<Rightarrow> g_override \<Rightarrow> store \<Rightarrow> g_override \<times> store" where
  "Override_DeepCopyInto X g h =
     (case copy_ref (copy_value (cl_service X)) the_service CService (go_service g) h of
        (p, h1) \<Rightarrow> (g\<lparr>go_service := p\<rparr>, h1))"

definition Override_DeepCopy :: "copy_lib \<Rightarrow> addr option \<Rightarrow> store \<Rightarrow> addr option \<times> store" where
  "Override_DeepCopy X = copy_ref (Override_DeepCopyInto X) the_override COverride"

definition ExtraVolMounts_DeepCopyInto :: "copy_lib \<Rightarrow> g_extra \<Rightarrow> store \<Rightarrow> g_extra \<times> store" where
  "ExtraVolMounts_DeepCopyInto X g h =
     (case copy_ref (copy_list (copy_value (cl_volMounts X))) the_vols CVols (gx_volMounts g) h of
        (p, h1) \<Rightarrow> (g\<lparr>gx_volMounts := p\<rparr>, h1))"

definition ExtraVolMounts_DeepCopy :: "copy_lib \<Rightarrow> addr option \<Rightarrow> store \<Rightarrow> addr option \<times> store" where
  "ExtraVolMounts_DeepCopy X = copy_ref (ExtraVolMounts_DeepCopyInto X) the_extra CExtra"

definition Defaults_DeepCopyInto :: "horizon_defaults \<Rightarrow> store \<Rightarrow> horizon_defaults \<times> store" where
  "Defaults_DeepCopyInto g h = (g, h)"

definition Defaults_DeepCopy :: "addr option \<Rightarrow> store \<Rightarrow> addr option \<times> store" where
  "Defaults_DeepCopy = copy_ref Defaults_DeepCopyInto the_defaults CDefaults"

definition SpecCore_DeepCopyInto :: "copy_lib \<Rightarrow> g_core \<Rightarrow> store \<Rightarrow> g_core \<times> store" where
  "SpecCore_DeepCopyInto X g h =
     (case copy_ref (copy_smap X) the_ref CRef (gc_nodeSelector g) h of (ns, h1) \<Rightarrow>
     (case copy_smap X (gc_defaultConfigOverwrite g) h1 of (dco, h2) \<Rightarrow>
     (case Override_DeepCopyInto X (gc_override g) h2 of (ov, h3) \<Rightarrow>
     (case copy_int (gc_replicas g) h3 of (rep, h4) \<Rightarrow>
     (case copy_ref (copy_list (ExtraVolMounts_DeepCopyInto X)) the_extras CExtras (gc_extraMounts g) h4 of
        (ex, h5) \<Rightarrow>
     (case copy_strings (gc_networkAttachments g) h5 of (na, h6) \<Rightarrow>
     (case copy_topo (gc_topologyRef g) h6 of (tr, h7) \<Rightarrow>
        (g\<lparr>gc_nodeSelector := ns, gc_defaultConfigOverwrite := dco,
           gc_resources := cl_resources X (gc_resources g), gc_override := ov,
           gc_tls := cl_tls X (gc_tls g), gc_replicas := rep, gc_extraMounts := ex,
           gc_networkAttachments := na, gc_topologyRef := tr\<rparr>, h7))))))))"

definition SpecCore_DeepCopy :: "copy_lib \<Rightarrow> addr option \<Rightarrow> store \<Rightarrow> addr option \<times> store" where
  "SpecCore_DeepCopy X = copy_ref (SpecCore_DeepCopyInto X) the_core CCore"

definition Spec_DeepCopyInto :: "copy_lib \<Rightarrow> g_spec \<Rightarrow> store \<Rightarrow> g_spec \<times> store" where
  "Spec_DeepCopyInto X g h =
     (case SpecCore_DeepCopyInto X (gs_core g) h of (c, h1) \<Rightarrow> (g\<lparr>gs_core := c\<rparr>, h1))"

definition Spec_DeepCopy :: "copy_lib \<Rightarrow> addr option \<Rightarrow> store \<Rightarrow> addr option \<times> store" where
  "Spec_DeepCopy X = copy_ref (Spec_DeepCopyInto X) the_spec CSpec"

definition Status_DeepCopyInto :: "copy_lib \<Rightarrow> g_status \<Rightarrow> store \<Rightarrow> g_status \<times> store" where
  "Status_DeepCopyInto X g h =
     (case copy_smap X (gt_hash g) h of (hs, h1) \<Rightarrow>
     (case copy_ref (copy_list (copy_value (cl_condition X))) the_conds CConds (gt_conditions g) h1 of
        (cs, h2) \<Rightarrow>
     (case copy_nets X (gt_networkAttachments g) h2 of (na, h3) \<Rightarrow>
     (case copy_topo (gt_lastAppliedTopology g) h3 of (tr, h4) \<Rightarrow>
        (g\<lparr>gt_hash := hs, gt_conditions := cs, gt_networkAttachments := na,
           gt_lastAppliedTopology := tr\<rparr>, h4)))))"

definition Status_DeepCopy :: "copy_lib \<Rightarrow> addr option \<Rightarrow> store \<Rightarrow> addr option \<times> store" where
  "Status_DeepCopy X = copy_ref (Status_DeepCopyInto X) the_status CStatus"

definition Horizon_DeepCopyInto :: "copy_lib \<Rightarrow> g_horizon \<Rightarrow> store \<Rightarrow> g_horizon \<times> store" where
  "Horizon_DeepCopyInto X g h =
     (case Spec_DeepCopyInto X (gh_spec g) h of (sp, h1) \<Rightarrow>
     (case Status_DeepCopyInto X (gh_status g) h1 of (st, h2) \<Rightarrow>
        (g\<lparr>gh_objectMeta := cl_objectMeta X (gh_objectMeta g), gh_spec := sp, gh_status := st\<rparr>, h2)))"

definition Horizon_DeepCopy :: "copy_lib \<Rightarrow> addr option \<Rightarrow> store \<Rightarrow> addr option \<times> store" where
  "Horizon_DeepCopy X = copy_ref (Horizon_DeepCopyInto X) the_horizon CHorizon"

text \<open>The interface value: nil, or a pointer to a Horizon or to a list of them.\<close>

datatype runtime_object = NilObject | HorizonObject addr | ListObject addr

definition Horizon_DeepCopyObject :: "copy_lib \<Rightarrow> addr option \<Rightarrow> store \<Rightarrow> runtime_object \<times> store" where
  "Horizon_DeepCopyObject X p h = (case Horizon_DeepCopy X p h of
     (Some c, h1) \<Rightarrow> (HorizonObject c, h1)
   | (None, h1) \<Rightarrow> (NilObject, h1))"

definition List_DeepCopyInto :: "copy_lib \<Rightarrow> g_list \<Rightarrow> store \<Rightarrow> g_list \<times> store" where
  "List_DeepCopyInto X g h =
     (case copy_ref (copy_list (Horizon_DeepCopyInto X)) the_items CItems (gl_items g) h of
        (p, h1) \<Rightarrow> (g\<lparr>gl_listMeta := cl_listMeta X (gl_listMeta g), gl_items := p\<rparr>, h1))"

definition List_DeepCopy :: "copy_lib \<Rightarrow> addr option \<Rightarrow> store \<Rightarrow> addr option \<times> store" where
  "List_DeepCopy X = copy_ref (List_DeepCopyInto X) the_list CList"

definition List_DeepCopyObject :: "copy_lib \<Rightarrow> addr option \<Rightarrow> store \<Rightarrow> runtime_object \<times> store" where
  "List_DeepCopyObject X p h = (case List_DeepCopy X p h of
     (Some c, h1) \<Rightarrow> (ListObject c, h1)
   | (None, h1) \<Rightarrow> (NilObject, h1))"

section \<open>The values behind the structs\<close>

text \<open>What a reader sees: every pointer followed, nil kept apart from empty.\<close>

type_synonym fstrs = "(string, string) fmap"

record d_extra =
  dx_name :: string
  dx_region :: string
  dx_volMounts :: "vol_mounts list option"

record d_core =
  dc_nodeSelector :: "fstrs option option"
  dc_defaultConfigOverwrite :: "fstrs option"
  dc_resources :: resources
  dc_override :: "routed_override option"
  dc_tls :: tls_spec
  dc_replicas :: "int option"
  dc_secret :: string
  dc_customServiceConfig :: string
  dc_memcachedInstance :: string
  dc_preserveJobs :: bool
  dc_extraMounts :: "d_extra list option"
  dc_networkAttachments :: "string list option"
  dc_topologyRef :: "topo_ref option"

record d_status =
  dt_hash :: "fstrs option"
  dt_endpoint :: string
  dt_conditions :: "condition list option"
  dt_readyCount :: int
  dt_observedGeneration :: int
  dt_networkAttachments :: "(string, string list option) fmap option"
  dt_lastAppliedTopology :: "topo_ref option"

record d_horizon =
  dh_typeMeta :: type_meta
  dh_objectMeta :: object_meta
  dh_containerImage :: string
  dh_core :: d_core
  dh_status :: d_status

record d_list =
  dl_typeMeta :: type_meta
  dl_listMeta :: string
  dl_items :: "d_horizon list option"

definition view_smap :: "store \<Rightarrow> addr option \<Rightarrow> fstrs option" where
  "view_smap = view_ref (view_map same_value) the_map"

definition view_strings :: "store \<Rightarrow> addr option \<Rightarrow> string list option" where
  "view_strings = view_ref same_value the_strs"

definition view_nets :: "store \<Rightarrow> addr option \<Rightarrow> (string, string list option) fmap option" where
  "view_nets = view_ref (view_map view_strings) the_nets"

definition view_override :: "store \<Rightarrow> g_override \<Rightarrow> routed_override option" where
  "view_override h g = view_ref same_value the_service h (go_service g)"

definition view_extra :: "store \<Rightarrow> g_extra \<Rightarrow> d_extra" where
  "view_extra h g = \<lparr>dx_name = gx_name g, dx_region = gx_region g,
     dx_volMounts = view_ref (\<lambda>h. map (same_value h)) the_vols h (gx_volMounts g)\<rparr>"

definition view_core :: "store \<Rightarrow> g_core \<Rightarrow> d_core" where
  "view_core h g =
     \<lparr>dc_nodeSelector = view_ref view_smap the_ref h (gc_nodeSelector g),
      dc_defaultConfigOverwrite = view_smap h (gc_defaultConfigOverwrite g),
      dc_resources = gc_resources g,
      dc_override = view_override h (gc_override g),
      dc_tls = gc_tls g,
      dc_replicas = view_ref same_value the_int h (gc_replicas g),
      dc_secret = gc_secret g,
      dc_customServiceConfig = gc_customServiceConfig g,
      dc_memcachedInstance = gc_memcachedInstance g,
      dc_preserveJobs = gc_preserveJobs g,
      dc_extraMounts = view_ref (\<lambda>h. map (view_extra h)) the_extras h (gc_extraMounts g),
      dc_networkAttachments = view_strings h (gc_networkAttachments g),
      dc_topologyRef = view_ref same_value the_topo h (gc_topologyRef g)\<rparr>"

definition view_status :: "store \<Rightarrow> g_status \<Rightarrow> d_status" where
  "view_status h g =
     \<lparr>dt_hash = view_smap h (gt_hash g),
      dt_endpoint = gt_endpoint g,
      dt_conditions = view_ref (\<lambda>h. map (same_value h)) the_conds h (gt_conditions g),
      dt_readyCount = gt_readyCount g,
      dt_observedGeneration = gt_observedGeneration g,
      dt_networkAttachments = view_nets h (gt_networkAttachments g),
      dt_lastAppliedTopology = view_ref same_value the_topo h (gt_lastAppliedTopology g)\<rparr>"

definition view_spec :: "store \<Rightarrow> g_spec \<Rightarrow> string \<times> d_core" where
  "view_spec h g = (gs_containerImage g, view_core h (gs_core g))"

definition view_horizon :: "store \<Rightarrow> g_horizon \<Rightarrow> d_horizon" where
  "view_horizon h g =
     \<lparr>dh_typeMeta = gh_typeMeta g, dh_objectMeta = gh_objectMeta g,
      dh_containerImage = fst (view_spec h (gh_spec g)), dh_core = snd (view_spec h (gh_spec g)),
      dh_status = view_status h (gh_status g)\<rparr>"

definition view_list :: "store \<Rightarrow> g_list \<Rightarrow> d_list" where
  "view_list h g = \<lparr>dl_typeMeta = gl_typeMeta g, dl_listMeta = gl_listMeta g,
     dl_items = view_ref (\<lambda>h. map (view_horizon h)) the_items h (gl_items g)\<rparr>"

text \<open>The cells those values are read from.\<close>

definition refs_smap :: "store \<Rightarrow> addr option \<Rightarrow> addr set" where
  "refs_smap = refs_ref (refs_map no_refs) the_map"

definition refs_strings :: "store \<Rightarrow> addr option \<Rightarrow> addr set" where
  "refs_strings = refs_ref no_refs the_strs"

definition refs_nets :: "store \<Rightarrow> addr option \<Rightarrow> addr set" where
  "refs_nets = refs_ref (refs_map refs_strings) the_nets"

definition refs_override :: "store \<Rightarrow> g_override \<Rightarrow> addr set" where
  "refs_override h g = refs_ref no_refs the_service h (go_service g)"

definition refs_extra :: "store \<Rightarrow> g_extra \<Rightarrow> addr set" where
  "refs_extra h g = refs_ref (refs_list no_refs) the_vols h (gx_volMounts g)"

definition refs_core :: "store \<Rightarrow> g_core \<Rightarrow> addr set" where
  "refs_core h g =
     refs_ref refs_smap the_ref h (gc_nodeSelector g) \<union>
     (refs_smap h (gc_defaultConfigOverwrite g) \<union>
     (refs_override h (gc_override g) \<union>
     (refs_ref no_refs the_int h (gc_replicas g) \<union>
     (refs_ref (refs_list refs_extra) the_extras h (gc_extraMounts g) \<union>
     (refs_strings h (gc_networkAttachments g) \<union>
      refs_ref no_refs the_topo h (gc_topologyRef g))))))"

definition refs_status :: "store \<Rightarrow> g_status \<Rightarrow> addr set" where
  "refs_status h g =
     refs_smap h (gt_hash g) \<union>
     (refs_ref (refs_list no_refs) the_conds h (gt_conditions g) \<union>
     (refs_nets h (gt_networkAttachments g) \<union>
      refs_ref no_refs the_topo h (gt_lastAppliedTopology g)))"

definition refs_spec :: "store \<Rightarrow> g_spec \<Rightarrow> addr set" where
  "refs_spec h g = refs_core h (gs_core g)"

definition refs_horizon :: "store \<Rightarrow> g_horizon \<Rightarrow> addr set" where
  "refs_horizon h g = refs_spec h (gh_spec g) \<union> refs_status h (gh_status g)"

definition refs_items :: "store \<Rightarrow> g_list \<Rightarrow> addr set" where
  "refs_items h g = refs_ref (refs_list refs_horizon) the_items h (gl_items g)"

section \<open>Every generated function keeps the contract\<close>

lemma strings_contract: "deep_copy copy_strings view_strings refs_strings"
  unfolding copy_strings_def view_strings_def refs_strings_def
  by (intro ref_copy value_copy) (simp_all add: go_copy_def)

lemma int_contract: "deep_copy copy_int (view_ref same_value the_int) (refs_ref no_refs the_int)"
  unfolding copy_int_def by (intro ref_copy value_copy) simp_all

lemma topo_contract: "deep_copy copy_topo (view_ref same_value the_topo) (refs_ref no_refs the_topo)"
  unfolding copy_topo_def by (intro ref_copy value_copy) simp_all

lemma values_contract:
  "(\<And>x. f x = x) \<Longrightarrow> deep_copy (copy_list (copy_value f)) (\<lambda>h. map (same_value h)) (refs_list no_refs)"
  by (intro list_copy value_copy)

lemma smap_contract: "copy_laws X \<Longrightarrow> deep_copy (copy_smap X) view_smap refs_smap"
  unfolding copy_smap_def view_smap_def refs_smap_def
  by (intro ref_copy map_copy value_copy) (simp_all add: copy_laws_def)

lemma nets_contract: "copy_laws X \<Longrightarrow> deep_copy (copy_nets X) view_nets refs_nets"
  unfolding copy_nets_def view_nets_def refs_nets_def
  by (intro ref_copy map_copy strings_contract) (simp_all add: copy_laws_def)

lemma override_contract:
  assumes "copy_laws X" shows "deep_copy (Override_DeepCopyInto X) view_override refs_override"
proof (rule struct_copy)
  show "deep_copy (copy_ref (copy_value (cl_service X)) the_service CService)
      (view_ref same_value the_service) (refs_ref no_refs the_service)"
    using assms by (intro ref_copy value_copy) (simp_all add: copy_laws_def)
  show "go_service (g\<lparr>go_service := p\<rparr>) = p" for p g by simp
  show "(\<lambda>_ v. v) (g\<lparr>go_service := p\<rparr>) d = (\<lambda>_ v. v) g d" for p g and d :: "routed_override option" by simp
qed (simp_all add: Override_DeepCopyInto_def view_override_def refs_override_def)

lemma extra_contract:
  assumes "copy_laws X" shows "deep_copy (ExtraVolMounts_DeepCopyInto X) view_extra refs_extra"
proof (rule struct_copy)
  show "deep_copy (copy_ref (copy_list (copy_value (cl_volMounts X))) the_vols CVols)
      (view_ref (\<lambda>h. map (same_value h)) the_vols) (refs_ref (refs_list no_refs) the_vols)"
    using assms by (intro ref_copy values_contract) (simp_all add: copy_laws_def)
  show "gx_volMounts (g\<lparr>gx_volMounts := p\<rparr>) = p" for p g by simp
  show "(\<lambda>g d. \<lparr>dx_name = gx_name g, dx_region = gx_region g, dx_volMounts = d\<rparr>) (g\<lparr>gx_volMounts := p\<rparr>) d
      = (\<lambda>g d. \<lparr>dx_name = gx_name g, dx_region = gx_region g, dx_volMounts = d\<rparr>) g d" for p g d by simp
qed (simp_all add: ExtraVolMounts_DeepCopyInto_def view_extra_def refs_extra_def)

lemma extras_contract:
  "copy_laws X \<Longrightarrow> deep_copy (copy_ref (copy_list (ExtraVolMounts_DeepCopyInto X)) the_extras CExtras)
     (view_ref (\<lambda>h. map (view_extra h)) the_extras) (refs_ref (refs_list refs_extra) the_extras)"
  by (intro ref_copy list_copy extra_contract) simp_all

lemma core_contract:
  assumes X: "copy_laws X" shows "deep_copy (SpecCore_DeepCopyInto X) view_core refs_core"
proof -
  have ns: "deep_copy (copy_ref (copy_smap X) the_ref CRef) (view_ref view_smap the_ref)
      (refs_ref refs_smap the_ref)"
    by (intro ref_copy smap_contract X) simp
  have foreign: "cl_resources X x = x" "cl_tls X t = t" for x t using X by (simp_all add: copy_laws_def)
  note fields = pair_copy[OF ns pair_copy[OF smap_contract[OF X] pair_copy[OF override_contract[OF X]
    pair_copy[OF int_contract pair_copy[OF extras_contract[OF X] pair_copy[OF strings_contract topo_contract]]]]]]
  show ?thesis
    by (rule struct_copy[OF fields, where
          get = "\<lambda>g. (gc_nodeSelector g, gc_defaultConfigOverwrite g, gc_override g, gc_replicas g,
            gc_extraMounts g, gc_networkAttachments g, gc_topologyRef g)" and
          put = "\<lambda>(ns, dco, ov, rep, ex, na, tr) g. g\<lparr>gc_nodeSelector := ns,
            gc_defaultConfigOverwrite := dco, gc_override := ov, gc_replicas := rep,
            gc_extraMounts := ex, gc_networkAttachments := na, gc_topologyRef := tr\<rparr>" and
          mk = "\<lambda>g (ns, dco, ov, rep, ex, na, tr).
            \<lparr>dc_nodeSelector = ns, dc_defaultConfigOverwrite = dco, dc_resources = gc_resources g,
             dc_override = ov, dc_tls = gc_tls g, dc_replicas = rep, dc_secret = gc_secret g,
             dc_customServiceConfig = gc_customServiceConfig g,
             dc_memcachedInstance = gc_memcachedInstance g, dc_preserveJobs = gc_preserveJobs g,
             dc_extraMounts = ex, dc_networkAttachments = na, dc_topologyRef = tr\<rparr>"])
      (auto simp: SpecCore_DeepCopyInto_def view_core_def refs_core_def foreign split: prod.splits)
qed

lemma spec_contract:
  assumes X: "copy_laws X" shows "deep_copy (Spec_DeepCopyInto X) view_spec refs_spec"
  by (rule struct_copy[OF core_contract[OF X], where get = gs_core and put = "\<lambda>c g. g\<lparr>gs_core := c\<rparr>"
        and mk = "\<lambda>g d. (gs_containerImage g, d)"])
    (simp_all add: Spec_DeepCopyInto_def view_spec_def refs_spec_def)

lemma status_contract:
  assumes X: "copy_laws X" shows "deep_copy (Status_DeepCopyInto X) view_status refs_status"
proof -
  have conds: "deep_copy (copy_ref (copy_list (copy_value (cl_condition X))) the_conds CConds)
      (view_ref (\<lambda>h. map (same_value h)) the_conds) (refs_ref (refs_list no_refs) the_conds)"
    using X by (intro ref_copy values_contract) (simp_all add: copy_laws_def)
  note fields = pair_copy[OF smap_contract[OF X] pair_copy[OF conds
    pair_copy[OF nets_contract[OF X] topo_contract]]]
  show ?thesis
    by (rule struct_copy[OF fields, where
          get = "\<lambda>g. (gt_hash g, gt_conditions g, gt_networkAttachments g, gt_lastAppliedTopology g)" and
          put = "\<lambda>(hs, cs, na, tr) g. g\<lparr>gt_hash := hs, gt_conditions := cs,
            gt_networkAttachments := na, gt_lastAppliedTopology := tr\<rparr>" and
          mk = "\<lambda>g (hs, cs, na, tr).
            \<lparr>dt_hash = hs, dt_endpoint = gt_endpoint g, dt_conditions = cs,
             dt_readyCount = gt_readyCount g, dt_observedGeneration = gt_observedGeneration g,
             dt_networkAttachments = na, dt_lastAppliedTopology = tr\<rparr>"])
      (auto simp: Status_DeepCopyInto_def view_status_def refs_status_def split: prod.splits)
qed

lemma horizon_contract:
  assumes X: "copy_laws X" shows "deep_copy (Horizon_DeepCopyInto X) view_horizon refs_horizon"
proof -
  have meta: "cl_objectMeta X x = x" for x using X by (simp add: copy_laws_def)
  show ?thesis
    by (rule struct_copy[OF pair_copy[OF spec_contract[OF X] status_contract[OF X]], where
          get = "\<lambda>g. (gh_spec g, gh_status g)" and
          put = "\<lambda>(sp, st) g. g\<lparr>gh_spec := sp, gh_status := st\<rparr>" and
          mk = "\<lambda>g (sp, st). \<lparr>dh_typeMeta = gh_typeMeta g, dh_objectMeta = gh_objectMeta g,
            dh_containerImage = fst sp, dh_core = snd sp, dh_status = st\<rparr>"])
      (auto simp: Horizon_DeepCopyInto_def view_horizon_def refs_horizon_def meta split: prod.splits)
qed

lemma list_contract:
  assumes X: "copy_laws X" shows "deep_copy (List_DeepCopyInto X) view_list refs_items"
proof -
  have items: "deep_copy (copy_ref (copy_list (Horizon_DeepCopyInto X)) the_items CItems)
      (view_ref (\<lambda>h. map (view_horizon h)) the_items) (refs_ref (refs_list refs_horizon) the_items)"
    by (intro ref_copy list_copy horizon_contract X) simp
  have meta: "cl_listMeta X x = x" for x using X by (simp add: copy_laws_def)
  show ?thesis
    by (rule struct_copy[OF items, where get = gl_items and put = "\<lambda>p g. g\<lparr>gl_items := p\<rparr>" and
          mk = "\<lambda>g d. \<lparr>dl_typeMeta = gl_typeMeta g, dl_listMeta = gl_listMeta g, dl_items = d\<rparr>"])
      (simp_all add: List_DeepCopyInto_def view_list_def refs_items_def meta split: prod.splits)
qed

text \<open>The pointer functions: nil to nil, a cell to a new cell.\<close>

lemma defaults_contract: "deep_copy Defaults_DeepCopy (view_ref same_value the_defaults)
    (refs_ref no_refs the_defaults)"
proof -
  have eq: "Defaults_DeepCopyInto = copy_value id"
    by (intro ext) (simp add: Defaults_DeepCopyInto_def copy_value_def)
  show ?thesis unfolding Defaults_DeepCopy_def eq by (intro ref_copy value_copy) simp_all
qed

lemma pointer_contracts:
  assumes "copy_laws X"
  shows "deep_copy (Override_DeepCopy X) (view_ref view_override the_override)
      (refs_ref refs_override the_override)"
    and "deep_copy (ExtraVolMounts_DeepCopy X) (view_ref view_extra the_extra) (refs_ref refs_extra the_extra)"
    and "deep_copy (SpecCore_DeepCopy X) (view_ref view_core the_core) (refs_ref refs_core the_core)"
    and "deep_copy (Spec_DeepCopy X) (view_ref view_spec the_spec) (refs_ref refs_spec the_spec)"
    and "deep_copy (Status_DeepCopy X) (view_ref view_status the_status) (refs_ref refs_status the_status)"
    and "deep_copy (Horizon_DeepCopy X) (view_ref view_horizon the_horizon) (refs_ref refs_horizon the_horizon)"
    and "deep_copy (List_DeepCopy X) (view_ref view_list the_list) (refs_ref refs_items the_list)"
  unfolding Override_DeepCopy_def ExtraVolMounts_DeepCopy_def SpecCore_DeepCopy_def Spec_DeepCopy_def
    Status_DeepCopy_def Horizon_DeepCopy_def List_DeepCopy_def
  by (rule ref_copy, rule override_contract[OF assms], simp,
      rule ref_copy, rule extra_contract[OF assms], simp,
      rule ref_copy, rule core_contract[OF assms], simp,
      rule ref_copy, rule spec_contract[OF assms], simp,
      rule ref_copy, rule status_contract[OF assms], simp,
      rule ref_copy, rule horizon_contract[OF assms], simp,
      rule ref_copy, rule list_contract[OF assms], simp)

interpretation copied_topology: deep_copy copy_topo "view_ref same_value the_topo" "refs_ref no_refs the_topo"
  by (rule topo_contract)

interpretation copied_strings: deep_copy copy_strings view_strings refs_strings
  by (rule strings_contract)

interpretation copied_defaults: deep_copy Defaults_DeepCopy "view_ref same_value the_defaults"
    "refs_ref no_refs the_defaults"
  by (rule defaults_contract)

end
