(* ===== verification/Copy_Properties.thy ===== *)
theory Copy_Properties
  imports Generated_Copies "HOL-Library.List_Lexorder" "HOL-Library.Char_ord"
begin





section \<open>A sample store\<close>










section \<open>The properties\<close>









end
