(* ===== verification/Settled_Pass.thy ===== *)
theory Settled_Pass
  imports Pass_Open Pass_Safety
begin

text \<open>
  A pass in a settled cluster: everything the Horizon object names is there and ready, and every
  call of the pass succeeds with the same answer each time. Under these hypotheses each stage runs
  to its end; the theory follows a pass stage by stage. Nothing is assumed about the order or
  number of passes, which is the subject of the theory that builds on this one.
\<close>

section \<open>Settled answers\<close>

text \<open>
  In every cluster with \<open>S\<close> the call answers \<open>x\<close> and leads to a cluster with \<open>S\<close>.
\<close>

definition says :: "('w \<Rightarrow> bool) \<Rightarrow> ('w \<Rightarrow> 'a \<times> 'w) \<Rightarrow> 'a \<Rightarrow> bool" where
  "says S f x \<longleftrightarrow> (\<forall>w. S w \<longrightarrow> fst (f w) = x \<and> S (snd (f w)))"

lemma saysD:
  assumes "says S f x" and "S w"
  shows "f w = (x, snd (f w))" and "fst (f w) = x" and "S (snd (f w))"
  using assms by (auto simp: says_def prod_eq_iff)

text \<open>The answers of the cluster to the passes over one Horizon object.\<close>

record answers =
  an_helper :: helper
  an_rbac :: "condition list"
  an_secret :: "secret \<times> string"
  an_memcached :: memcached
  an_ca :: string
  an_cert :: string
  an_authURL :: string
  an_key :: "secret \<times> string"
  an_config :: "string \<Rightarrow> smap \<Rightarrow> smap"
  an_service :: service
  an_endpoint :: string
  an_live :: live_deployment
  an_networks :: net_status

text \<open>The same object, but for its status and the metadata of its service override.\<close>

definition like :: "horizon \<Rightarrow> horizon \<Rightarrow> bool" where
  "like i h \<longleftrightarrow> hz_kind h = hz_kind i \<and> hz_name h = hz_name i \<and> hz_namespace h = hz_namespace i \<and>
     hz_spec h \<in> {hz_spec i, touch_spec (hz_spec i)}"

lemma like_refl [simp]: "like i i"
  by (simp add: like_def)

lemma like_status [simp]: "like i (upd_status f h) = like i h" "like i (status_cond g h) = like i h"
  by (simp_all add: like_def)

lemma like_touch [simp]: "like i h \<Longrightarrow> like i (touch_override h)"
  by (auto simp: like_def touch_override_spec)

text \<open>The environment variables that enter the hash, before the configuration is rendered.\<close>

definition input_vars :: "env_lib \<Rightarrow> answers \<Rightarrow> horizon \<Rightarrow> smap" where
  "input_vars K q h =
     (let v0 = Map.empty(sec_name (fst (an_secret q)) \<mapsto> snd (an_secret q));
          v1 = (if tls_caBundleSecretName (sp_tls (hz_spec h)) \<noteq> '''' \<and> an_ca q \<noteq> ''''
                then v0(el_CABundleKey K \<mapsto> an_ca q) else v0)
      in if tls_enabled K h then v1(el_TLSHashName K \<mapsto> an_cert q) else v1)"

text \<open>
  The hypotheses, grouped by stage. The rendered configuration may depend on the endpoint that is
  stored in the status, and on nothing else that changes.
\<close>

definition settled_inputs :: "('w \<Rightarrow> bool) \<Rightarrow> env_lib \<Rightarrow> 'w api \<Rightarrow> answers \<Rightarrow> horizon \<Rightarrow> bool" where
  "settled_inputs S K A q h \<longleftrightarrow>
     says S (ap_NewHelper A h) (Inr (an_helper q)) \<and>
     says S (ap_ReconcileRbac A (RbacNamespace h) (RbacResourceName h) rbacRules) (an_rbac q, (res0, None)) \<and>
     sp_secret (hz_spec h) \<noteq> '''' \<and>
     says S (ap_GetSecret A (sp_secret (hz_spec h)) (hz_namespace h)) (Inr (an_secret q)) \<and>
     says S (ap_GetMemcachedByName A (sp_memcachedInstance (hz_spec h)) (hz_namespace h)) (Inr (an_memcached q)) \<and>
     mc_IsReady (an_memcached q) \<and>
     (tls_caBundleSecretName (sp_tls (hz_spec h)) \<noteq> '''' \<longrightarrow>
        says S (ap_ValidateCACertSecret A (tls_caBundleSecretName (sp_tls (hz_spec h))) (hz_namespace h)) (Inr (an_ca q))) \<and>
     (tls_enabled K h \<longrightarrow>
        says S (ap_ValidateCertSecret A (sp_tls (hz_spec h)) (hz_namespace h)) (Inr (an_cert q)))"

definition settled_render :: "('w \<Rightarrow> bool) \<Rightarrow> env_lib \<Rightarrow> 'w api \<Rightarrow> answers \<Rightarrow> horizon \<Rightarrow> bool" where
  "settled_render S K A q h \<longleftrightarrow>
     says S (ap_GetKeystoneAPI A (hz_namespace h)) (Inr \<lparr>ks_internalEndpoint = Inr (an_authURL q)\<rparr>) \<and>
     (\<exists>url. url_Parse (el_ip_literal K) (st_endpoint (hz_status h)) = Inr url \<and>
        (\<forall>v. says S (ap_EnsureConfigMaps A (config_templates K h
            (templateParameters K h (an_memcached q) (an_authURL q) url)) v)
            (None, an_config q (st_endpoint (hz_status h)) v)))"

definition settled_config :: "('w \<Rightarrow> bool) \<Rightarrow> env_lib \<Rightarrow> 'w api \<Rightarrow> answers \<Rightarrow> horizon \<Rightarrow> bool" where
  "settled_config S K A q h \<longleftrightarrow> settled_render S K A q h \<and>
     says S (ap_GetSecret A ServiceName (hz_namespace h)) (Inr (an_key q)) \<and>
     validateHorizonSecret (fst (an_key q))"

definition settled_rollout :: "('w \<Rightarrow> bool) \<Rightarrow> env_lib \<Rightarrow> 'w api \<Rightarrow> answers \<Rightarrow> horizon \<Rightarrow> bool" where
  "settled_rollout S K A q h \<longleftrightarrow>
     (\<forall>nm. \<exists>b err. says S (ap_GetKeystoneServiceWithName A nm (hz_namespace h)) (b, err) \<and>
        (case err of None \<Rightarrow> True | Some e \<Rightarrow> is_not_found e)) \<and>
     el_NewService K (service_request K h (service_labels K h)) 5 (svcOverride h) = Inr (an_service q) \<and>
     says S (ap_ServiceCreateOrPatch A (annotate_service K (an_service q))) (res0, None) \<and>
     el_GetAPIEndpoint K (annotate_service K (an_service q)) (ro_endpointURL (svcOverride h))
       (endpoint_scheme K h) '''' = Inr (an_endpoint q) \<and>
     (\<forall>nm ns. \<exists>x. says S (ap_GetNADWithName A nm ns) (Inr x)) \<and>
     (\<forall>l. \<exists>m. el_EnsureNetworksAnnotation K l = Inr m) \<and>
     (\<forall>lat sel. \<exists>tp. says S (ap_EnsureServiceTopology A (sp_topologyRef (hz_spec h)) lat (hz_name h) sel) (Inr tp)) \<and>
     well_formed K h \<and>
     (tls_enabled K h \<longrightarrow> (\<exists>x. pl_tlsToService (el_pod K) (sp_tls (hz_spec h)) = Inr x)) \<and>
     (\<forall>d. says S (ap_DeploymentCreateOrPatch A d 5) ((res0, None), an_live q)) \<and>
     el_DeploymentIsReady K (an_live q) \<and>
     (\<forall>lbl n. says S (ap_VerifyNetworkStatus A (sp_networkAttachments (hz_spec h)) lbl n) (Inr (True, an_networks q)))"

text \<open>Role-based access reports its three conditions, all True.\<close>

definition rbac_true :: "condition list \<Rightarrow> bool" where
  "rbac_true cs \<longleftrightarrow> c_type ` set cs = rbac_types \<and> (\<forall>c \<in> set cs. c_status c = CTrue)"

section \<open>The state along a pass\<close>

definition side :: "conditions \<Rightarrow> bool" where
  "side cs \<longleftrightarrow> (\<forall>u. u \<notin> pipeline \<union> {Ready} \<longrightarrow> status_of cs u \<in> {None, Some CTrue})"

text \<open>
  Before the stage that decides \<open>t\<close>: the object is the one the pass started from, with endpoint
  \<open>e\<close>, recorded hash \<open>h0\<close> and finalizers \<open>fs\<close>.
\<close>

definition walk :: "('w \<Rightarrow> bool) \<Rightarrow> env_lib \<Rightarrow> horizon \<Rightarrow> string list \<Rightarrow> string option \<Rightarrow> string \<Rightarrow> ctype \<Rightarrow> 'w rstate \<Rightarrow> bool" where
  "walk S K i fs h0 e t s \<longleftrightarrow> S (rs_world s) \<and> at_stage t s \<and> side (conds s) \<and> like i (rs_inst s) \<and>
     hz_finalizers (rs_inst s) = fs \<and> hz_deletionTimestamp (rs_inst s) = None \<and>
     hash_map (hz_status (rs_inst s)) (el_InputHashName K) = h0 \<and> st_endpoint (hz_status (rs_inst s)) = e"

lemma walk_world [simp]: "walk S K i fs h0 e t s \<Longrightarrow> walk S K i fs h0 e t (s\<lparr>rs_world := w\<rparr>) = S w"
  "walk S K i fs h0 e t (s\<lparr>rs_vars := v\<rparr>) = walk S K i fs h0 e t s"
  by (simp_all add: walk_def at_stage_def conds_def)

lemma side_true: "cond_laws C \<Longrightarrow> side cs \<Longrightarrow> side (cl_set C cs (cl_true C u m))"
  by (simp add: side_def status_set cond_type_laws cond_status_laws)

lemma walk_true:
  assumes C: "cond_laws C" and "next_stage t t'" and w: "walk S K i fs h0 e t s"
  shows "walk S K i fs h0 e t' (s\<lparr>rs_inst := status_cond (\<lambda>cs. cl_mark_true C cs t m) (rs_inst s)\<rparr>)" (is "walk _ _ _ _ _ _ _ ?s'")
proof -
  have eq: "conds ?s' = cl_set C (conds s) (cl_true C t m)" by (simp add: conds_def cond_list_laws(3)[OF C])
  have "at_stage t' ?s'"
    using w by (intro at_stage_true[OF C _ assms(2) eq]) (simp add: walk_def)
  moreover have "side (conds ?s')" unfolding eq using w by (intro side_true[OF C]) (simp add: walk_def)
  ultimately show ?thesis using w by (simp add: walk_def hash_map_def)
qed

lemma walk_side_true:
  assumes C: "cond_laws C" and "u \<notin> pipeline" and "u \<noteq> Ready" and w: "walk S K i fs h0 e t s"
  shows "walk S K i fs h0 e t (s\<lparr>rs_inst := status_cond (\<lambda>cs. cl_mark_true C cs u m) (rs_inst s)\<rparr>)" (is "walk _ _ _ _ _ _ _ ?s'")
proof -
  have eq: "conds ?s' = cl_set C (conds s) (cl_true C u m)" by (simp add: conds_def cond_list_laws(3)[OF C])
  have "at_stage t ?s'"
    by (rule at_stage_side[OF C _ _ _ eq]) (use w assms(2,3) in \<open>simp_all add: walk_def cond_type_laws(3)[OF C]\<close>)
  moreover have "side (conds ?s')" unfolding eq using w by (intro side_true[OF C]) (simp add: walk_def)
  ultimately show ?thesis using w by (simp add: walk_def hash_map_def)
qed

lemma walk_field:
  assumes "walk S K i fs h0 e t s" and "\<And>st. st_conditions (f st) = st_conditions st"
    and "\<And>st. st_hash (f st) = st_hash st" and "\<And>st. st_endpoint st = e \<Longrightarrow> st_endpoint (f st) = e'"
  shows "walk S K i fs h0 e' t (s\<lparr>rs_inst := upd_status f (rs_inst s)\<rparr>)"
  using assms by (simp add: walk_def at_stage_def conds_def conds_of_def hash_map_def)

lemma walk_touch:
  assumes "walk S K i fs h0 e t s"
  shows "walk S K i fs h0 e t (s\<lparr>rs_inst := touch_override (rs_inst s)\<rparr>)"
  using assms by (simp add: walk_def at_stage_def conds_def)

lemma walkD:
  assumes "walk S K i fs h0 e t s"
  shows "like i (rs_inst s)" and "at_stage t s" and "side (conds s)"
    and "hash_map (hz_status (rs_inst s)) (el_InputHashName K) = h0" and "st_endpoint (hz_status (rs_inst s)) = e"
    and "S (rs_world s)"
  using assms by (simp_all add: walk_def)

text \<open>A body that goes on from every state with \<open>P\<close>.\<close>

definition sure :: "('s \<Rightarrow> bool) \<Rightarrow> ('s, 'a, 'r) proc \<Rightarrow> ('a \<Rightarrow> 's \<Rightarrow> bool) \<Rightarrow> bool" where
  "sure P m Q \<longleftrightarrow> (\<forall>s. P s \<longrightarrow> (\<exists>x s'. m s = (Next x, s') \<and> Q x s'))"

lemma sure_and_then: "sure P m Q \<Longrightarrow> (\<And>x. sure (Q x) (f x) R) \<Longrightarrow> sure P (and_then m f) R"
  unfolding sure_def by (fastforce simp: and_then_apply)

lemma sureI: "(\<And>s. P s \<Longrightarrow> \<exists>x s'. m s = (Next x, s') \<and> Q x s') \<Longrightarrow> sure P m Q"
  by (simp add: sure_def)

lemma sureD: "sure P m Q \<Longrightarrow> P s \<Longrightarrow> \<exists>x s'. m s = (Next x, s') \<and> Q x s'"
  by (simp add: sure_def)

lemma sure_mark:
  assumes "cond_laws C" and "next_stage t t'"
  shows "sure (walk S K i fs h0 e t) (mark_true C t m) (\<lambda>_. walk S K i fs h0 e t')"
  by (rule sureI) (simp add: mark_true_def flow_simps walk_true[OF assms])

lemma sure_mark_side:
  assumes "cond_laws C" and "u \<notin> pipeline" and "u \<noteq> Ready"
  shows "sure (walk S K i fs h0 e t) (mark_true C u m) (\<lambda>_. walk S K i fs h0 e t)"
  by (rule sureI) (simp add: mark_true_def flow_simps walk_side_true[OF assms])

lemma sure_next: "(\<And>s. P s \<Longrightarrow> Q x s) \<Longrightarrow> sure P (next_with x) Q"
  by (simp add: sure_def flow_simps)

lemma sure_call: "sure P m Q \<Longrightarrow> sure P (call_proc m) Q"
  unfolding sure_def by (fastforce simp: flow_simps)

lemma sure_weaken: "sure P m Q \<Longrightarrow> (\<And>s. P' s \<Longrightarrow> P s) \<Longrightarrow> (\<And>x s. Q x s \<Longrightarrow> Q' x s) \<Longrightarrow> sure P' m Q'"
  unfolding sure_def by blast

text \<open>Reading the object, and a call with a settled answer.\<close>

lemma sure_inst:
  assumes "\<And>i. sure (\<lambda>s. P s \<and> rs_inst s = i) (f i) Q"
  shows "sure P (and_then the_inst f) Q"
  using assms unfolding sure_def by (simp add: flow_simps)

lemma sure_cluster:
  assumes "\<And>s. P s \<Longrightarrow> says S g x" and "\<And>s. P s \<Longrightarrow> S (rs_world s)"
    and "\<And>s w. P s \<Longrightarrow> S w \<Longrightarrow> P (s\<lparr>rs_world := w\<rparr>)" and "sure P (f x) Q"
  shows "sure P (and_then (cluster g) f) Q"
  unfolding sure_def
proof (intro allI impI)
  fix s :: "'a rstate" assume "P s"
  obtain w where g: "g (rs_world s) = (x, w)" and "S w"
    using saysD[OF assms(1)[OF \<open>P s\<close>] assms(2)[OF \<open>P s\<close>]] by (metis surj_pair snd_conv)
  have "P (s\<lparr>rs_world := w\<rparr>)" using assms(3)[OF \<open>P s\<close> \<open>S w\<close>] .
  from sureD[OF assms(4) this] g show "\<exists>y s'. and_then (cluster g) f s = (Next y, s') \<and> Q y s'"
    by (simp add: and_then_apply cluster_apply)
qed

section \<open>The inputs\<close>

lemma sure_secret:
  assumes C: "cond_laws C" and H: "\<And>h. like i h \<Longrightarrow> settled_inputs S K A q h"
  shows "sure (walk S K i fs h0 e InputReady) (check_secret C A)
    (\<lambda>_ s. walk S K i fs h0 e MemcachedReady s \<and>
       rs_vars s = Map.empty(sec_name (fst (an_secret q)) \<mapsto> snd (an_secret q)))"
proof (rule sureI)
  fix s :: "'a rstate"
  assume w: "walk S K i fs h0 e InputReady s"
  note h = H[OF walkD(1)[OF w], unfolded settled_inputs_def]
  obtain sc hash where q: "an_secret q = (sc, hash)" by fastforce
  let ?w = "snd (ap_GetSecret A (sp_secret (hz_spec (rs_inst s))) (hz_namespace (rs_inst s)) (rs_world s))"
  let ?s = "s\<lparr>rs_world := ?w, rs_vars := Map.empty(sec_name sc \<mapsto> hash)\<rparr>"
  have "check_secret C A s =
      (Next (), ?s\<lparr>rs_inst := status_cond (\<lambda>cs. cl_mark_true C cs InputReady (Msg ''InputReadyMessage'' [])) (rs_inst ?s)\<rparr>)"
    using h walkD(6)[OF w] by (simp add: check_secret_def flow_simps mark_true_def says_def split_beta q)
  moreover have "walk S K i fs h0 e InputReady ?s" using w h walkD(6)[OF w] by (simp add: says_def q)
  note walk_true[OF C next_stage_table(1) this, of "Msg ''InputReadyMessage'' []"]
  ultimately show "\<exists>x t. check_secret C A s = (Next x, t) \<and> walk S K i fs h0 e MemcachedReady t \<and>
      rs_vars t = Map.empty(sec_name (fst (an_secret q)) \<mapsto> snd (an_secret q))"
    by (simp add: q)
qed

lemma sure_memcached:
  assumes C: "cond_laws C" and H: "\<And>h. like i h \<Longrightarrow> settled_inputs S K A q h"
  shows "sure (\<lambda>s. walk S K i fs h0 e MemcachedReady s \<and> rs_vars s = V) (check_memcached C A)
    (\<lambda>mc s. walk S K i fs h0 e TLSInputReady s \<and> rs_vars s = V \<and> mc = an_memcached q)"
proof (rule sureI)
  fix s :: "'a rstate"
  assume w: "walk S K i fs h0 e MemcachedReady s \<and> rs_vars s = V"
  note h = H[OF walkD(1)[OF conjunct1[OF w]], unfolded settled_inputs_def]
  let ?w = "snd (ap_GetMemcachedByName A (sp_memcachedInstance (hz_spec (rs_inst s))) (hz_namespace (rs_inst s)) (rs_world s))"
  let ?s = "s\<lparr>rs_world := ?w\<rparr>"
  have "check_memcached C A s =
      (Next (an_memcached q), ?s\<lparr>rs_inst := status_cond (\<lambda>cs. cl_mark_true C cs MemcachedReady (Msg ''MemcachedReadyMessage'' [])) (rs_inst ?s)\<rparr>)"
    using h walkD(6)[OF conjunct1[OF w]] by (simp add: check_memcached_def flow_simps mark_true_def says_def split_beta)
  moreover have "walk S K i fs h0 e MemcachedReady ?s" using w h walkD(6)[OF conjunct1[OF w]] by (simp add: says_def)
  note walk_true[OF C next_stage_table(2) this, of "Msg ''MemcachedReadyMessage'' []"]
  ultimately show "\<exists>mc t. check_memcached C A s = (Next mc, t) \<and> walk S K i fs h0 e TLSInputReady t \<and>
      rs_vars t = V \<and> mc = an_memcached q"
    using w by simp
qed

lemma like_spec:
  assumes "like i h"
  shows "sp_tls (hz_spec h) = sp_tls (hz_spec i)" and "tls_enabled K h = tls_enabled K i"
    and "sp_replicas (hz_spec h) = sp_replicas (hz_spec i)" and "input_vars K q h = input_vars K q i"
  using assms by (auto simp: like_def tls_enabled_def input_vars_def)

lemma sure_tls:
  assumes C: "cond_laws C" and H: "\<And>h. like i h \<Longrightarrow> settled_inputs S K A q h"
  shows "sure (\<lambda>s. walk S K i fs h0 e TLSInputReady s \<and>
      rs_vars s = Map.empty(sec_name (fst (an_secret q)) \<mapsto> snd (an_secret q))) (check_tls C K A)
    (\<lambda>_ s. walk S K i fs h0 e ServiceConfigReady s \<and> rs_vars s = input_vars K q i)"
proof -
  let ?V = "Map.empty(sec_name (fst (an_secret q)) \<mapsto> snd (an_secret q))"
  let ?ca = "tls_caBundleSecretName (sp_tls (hz_spec i))"
  let ?V1 = "if ?ca \<noteq> '''' \<and> an_ca q \<noteq> '''' then ?V(el_CABundleKey K \<mapsto> an_ca q) else ?V"
  have ca: "sure (\<lambda>s. walk S K i fs h0 e TLSInputReady s \<and> rs_vars s = ?V) (check_ca C K A)
      (\<lambda>_ s. walk S K i fs h0 e TLSInputReady s \<and> rs_vars s = ?V1)"
  proof (rule sureI)
    fix s :: "'a rstate"
    assume w: "walk S K i fs h0 e TLSInputReady s \<and> rs_vars s = ?V"
    note l = walkD(1)[OF conjunct1[OF w]]
    note h = H[OF l, unfolded settled_inputs_def like_spec(1)[OF l]]
    show "\<exists>x t. check_ca C K A s = (Next x, t) \<and> walk S K i fs h0 e TLSInputReady t \<and> rs_vars t = ?V1"
      using w h walkD(6)[OF conjunct1[OF w]] by (simp add: check_ca_def flow_simps Let_def like_spec(1)[OF l] says_def split_beta)
  qed
  have cert: "sure (\<lambda>s. walk S K i fs h0 e TLSInputReady s \<and> rs_vars s = ?V1) (check_cert C K A)
      (\<lambda>_ s. walk S K i fs h0 e TLSInputReady s \<and> rs_vars s = input_vars K q i)"
  proof (rule sureI)
    fix s :: "'a rstate"
    assume w: "walk S K i fs h0 e TLSInputReady s \<and> rs_vars s = ?V1"
    note l = walkD(1)[OF conjunct1[OF w]]
    note h = H[OF l, unfolded settled_inputs_def like_spec(1,2)[OF l]]
    show "\<exists>x t. check_cert C K A s = (Next x, t) \<and> walk S K i fs h0 e TLSInputReady t \<and>
        rs_vars t = input_vars K q i"
      using w h walkD(6)[OF conjunct1[OF w]] by (simp add: check_cert_def flow_simps like_spec(1,2)[OF l] says_def split_beta input_vars_def Let_def)
  qed
  have mark: "sure (\<lambda>s. walk S K i fs h0 e TLSInputReady s \<and> rs_vars s = input_vars K q i)
      (mark_true C TLSInputReady ''InputReadyMessage'')
      (\<lambda>_ s. walk S K i fs h0 e ServiceConfigReady s \<and> rs_vars s = input_vars K q i)"
    by (rule sureI) (simp add: mark_true_def flow_simps walk_true[OF C next_stage_table(3)])
  show ?thesis
    unfolding check_tls_def by (rule sure_and_then[OF ca sure_and_then[OF cert mark]])
qed

section \<open>The configuration\<close>

lemma generate_run:
  assumes "settled_render S K A q (rs_inst s)" and "S (rs_world s)"
  shows "\<exists>w. generateServiceConfigMaps K A (an_memcached q) s =
    (Next None, s\<lparr>rs_world := w, rs_vars := an_config q (st_endpoint (hz_status (rs_inst s))) (rs_vars s)\<rparr>) \<and> S w"
proof -
  obtain url where url: "url_Parse (el_ip_literal K) (st_endpoint (hz_status (rs_inst s))) = Inr url"
    and ens: "\<And>v. says S (ap_EnsureConfigMaps A (config_templates K (rs_inst s)
      (templateParameters K (rs_inst s) (an_memcached q) (an_authURL q) url)) v)
      (None, an_config q (st_endpoint (hz_status (rs_inst s))) v)"
    and ks: "says S (ap_GetKeystoneAPI A (hz_namespace (rs_inst s))) (Inr \<lparr>ks_internalEndpoint = Inr (an_authURL q)\<rparr>)"
    using assms(1) by (auto simp: settled_render_def)
  note c1 = saysD[OF ks assms(2)]
  note c2 = saysD[OF ens c1(3)]
  show ?thesis
    by (simp add: generateServiceConfigMaps_def flow_simps split_beta c1(2) url c2(2,3)) (use c2(3) in blast)
qed

text \<open>A valid key is kept as it is.\<close>

lemma key_kept_run:
  assumes "says S (ap_GetSecret A ServiceName (hz_namespace (rs_inst s))) (Inr (sc, hash))" and "validateHorizonSecret sc"
    and "S (rs_world s)"
  shows "\<exists>w. ensureHorizonSecret K A s = (Next None, s\<lparr>rs_world := w, rs_vars := id (rs_vars s)\<rparr>) \<and> S w"
  using saysD[OF assms(1,3)] assms(2)
  by (simp add: ensureHorizonSecret_def flow_simps split_beta needs_secret_def) blast

text \<open>A missing or empty one is generated and written, and the call that writes it adds to the variables.\<close>

definition creates_key ::
  "('w \<Rightarrow> bool) \<Rightarrow> ('w \<Rightarrow> bool) \<Rightarrow> env_lib \<Rightarrow> 'w api \<Rightarrow> (smap \<Rightarrow> smap) \<Rightarrow> horizon \<Rightarrow> bool" where
  "creates_key N S K A kv h \<longleftrightarrow>
     (\<exists>got pw. says N (ap_GetSecret A ServiceName (hz_namespace h)) got \<and>
        (case got of Inl err \<Rightarrow> is_not_found err | Inr (sc, hash) \<Rightarrow> \<not> validateHorizonSecret sc) \<and>
        says N (ap_GeneratePassword A 50) (Inr pw) \<and>
        (\<forall>v w. N w \<longrightarrow> fst (ap_EnsureSecrets A [secret_template K h pw] v w) = (None, kv v) \<and>
           S (snd (ap_EnsureSecrets A [secret_template K h pw] v w))))"

lemma key_created_run:
  assumes "creates_key N S K A kv (rs_inst s)" and "N (rs_world s)"
  shows "\<exists>w. ensureHorizonSecret K A s = (Next None, s\<lparr>rs_world := w, rs_vars := kv (rs_vars s)\<rparr>) \<and> S w"
proof -
  obtain got pw where get: "says N (ap_GetSecret A ServiceName (hz_namespace (rs_inst s))) got" "needs_secret got"
    and gen: "says N (ap_GeneratePassword A 50) (Inr pw)"
    and ens: "\<And>v w. N w \<Longrightarrow> fst (ap_EnsureSecrets A [secret_template K (rs_inst s) pw] v w) = (None, kv v) \<and>
      S (snd (ap_EnsureSecrets A [secret_template K (rs_inst s) pw] v w))"
    using assms(1) by (auto simp: creates_key_def needs_secret_def)
  note c1 = saysD[OF get(1) assms(2)]
  note c2 = saysD[OF gen c1(3)]
  have skip: "(case got of Inl err \<Rightarrow> if \<not> is_not_found err then return_with (Some err) else next_with ()
      | Inr _ \<Rightarrow> next_with ()) = (next_with () :: ('a rstate, unit, gerr option) proc)"
    using get(2) by (simp add: needs_secret_def split: sum.splits)
  show ?thesis
    using ens[OF c2(3)]
    by (simp add: ensureHorizonSecret_def flow_simps split_beta c1(2) c2(2) skip get(2)) blast
qed

text \<open>
  The stage ends the pass when it records a new hash, and goes on when the hash is the recorded one.
  Looking the key up may change the variables, and lead from clusters with \<open>N\<close> to clusters with \<open>S\<close>.
\<close>

lemma walk_enter: "walk N K i fs h0 e t s \<Longrightarrow> S w \<Longrightarrow> walk S K i fs h0 e t (s\<lparr>rs_world := w\<rparr>)"
  by (simp add: walk_def at_stage_def conds_def)

lemma key_config_run:
  assumes C: "cond_laws C" and K: "set_hash_law K" and w: "walk N K i fs h0 e ServiceConfigReady s"
    and render: "\<And>h. like i h \<Longrightarrow> st_endpoint (hz_status h) = e \<Longrightarrow> settled_render N K A q h"
    and key: "\<And>s. like i (rs_inst s) \<Longrightarrow> N (rs_world s) \<Longrightarrow>
      \<exists>w. ensureHorizonSecret K A s = (Next None, s\<lparr>rs_world := w, rs_vars := kv (rs_vars s)\<rparr>) \<and> S w"
    and hash: "el_ObjectHash K (pl_MergeEnvs (el_pod K) (kv (an_config q e (rs_vars s)))) = Inr hash"
  shows "if h0 = Some hash
    then \<exists>t. config_step C K A (an_memcached q) s = (Next hash, t) \<and> walk S K i fs h0 e CreateServiceReady t
    else \<exists>t. config_step C K A (an_memcached q) s = (Return (res0, None), t) \<and>
      walk S K i fs (Some hash) e ServiceConfigReady t"
proof -
  have ep: "st_endpoint (hz_status (rs_inst s)) = e" and h0: "hash_map (hz_status (rs_inst s)) (el_InputHashName K) = h0"
    using w by (simp_all add: walk_def)
  obtain w1 where gen: "generateServiceConfigMaps K A (an_memcached q) s =
      (Next None, s\<lparr>rs_world := w1, rs_vars := an_config q e (rs_vars s)\<rparr>)" "N w1"
    using generate_run[OF render[OF walkD(1)[OF w] ep] walkD(6)[OF w]] by (auto simp: ep)
  let ?s1 = "s\<lparr>rs_world := w1, rs_vars := an_config q e (rs_vars s)\<rparr>"
  obtain w2 where ens: "ensureHorizonSecret K A ?s1 =
      (Next None, ?s1\<lparr>rs_world := w2, rs_vars := kv (an_config q e (rs_vars s))\<rparr>)" "S w2"
    using key[of ?s1] walkD(1)[OF w] gen(2) by auto
  let ?s2 = "?s1\<lparr>rs_world := w2, rs_vars := kv (an_config q e (rs_vars s))\<rparr>"
  have w2: "walk S K i fs h0 e ServiceConfigReady ?s2" using walk_enter[where S = S, OF w ens(2)] by simp
  obtain m ch where sh: "el_SetHash K (hash_map (hz_status (rs_inst s))) (el_InputHashName K) hash = (m, ch)"
    by fastforce
  note set = set_hashD[OF K sh, unfolded h0]
  show ?thesis
  proof (cases "h0 = Some hash")
    case True
    then have "\<not> ch" using set(1) by simp
    with gen(1) ens(1) sh hash have "config_step C K A (an_memcached q) s =
        (Next hash, ?s2\<lparr>rs_inst := status_cond (\<lambda>cs. cl_mark_true C cs ServiceConfigReady
          (Msg ''ServiceConfigReadyMessage'' [])) (rs_inst ?s2)\<rparr>)"
      by (simp add: config_step_def flow_simps createHashOfInputHashes_def mark_true_def)
    with walk_true[OF C next_stage_table(4) w2] True show ?thesis by auto
  next
    case False
    then have "ch" and m: "m = (hash_map (hz_status (rs_inst s)))(el_InputHashName K \<mapsto> hash)"
      using set by simp_all
    with gen(1) ens(1) sh hash have "config_step C K A (an_memcached q) s =
        (Return (res0, None), ?s2\<lparr>rs_inst := upd_status (\<lambda>st. st\<lparr>st_hash := Some m\<rparr>) (rs_inst ?s2)\<rparr>)"
      by (simp add: config_step_def flow_simps createHashOfInputHashes_def)
    moreover have "walk S K i fs (Some hash) e ServiceConfigReady
        (?s2\<lparr>rs_inst := upd_status (\<lambda>st. st\<lparr>st_hash := Some m\<rparr>) (rs_inst ?s2)\<rparr>)"
      using w2 by (simp add: walk_def at_stage_def conds_def conds_of_def hash_map_def m)
    ultimately show ?thesis using False by auto
  qed
qed

section \<open>The rollout\<close>

lemma sure_keystone:
  assumes "\<And>nm. \<exists>b err. says S (ap_GetKeystoneServiceWithName A nm ns) (b, err) \<and>
      (case err of None \<Rightarrow> True | Some e \<Rightarrow> is_not_found e)"
    and "\<And>s. P s \<Longrightarrow> S (rs_world s)" and "\<And>s w. P s \<Longrightarrow> S w \<Longrightarrow> P (s\<lparr>rs_world := w\<rparr>)"
  shows "sure P (keystone_loop A ns svs en) (\<lambda>_. P)"
proof (induction svs arbitrary: en)
  case Nil
  show ?case by (simp add: sure_next)
next
  case (Cons sv svs)
  obtain b err where "says S (ap_GetKeystoneServiceWithName A sv ns) (b, err)"
    and "case err of None \<Rightarrow> True | Some e \<Rightarrow> is_not_found e"
    using assms(1) by blast
  then show ?case
    unfolding keystone_loop.simps
    by (intro sure_cluster[where P = P and S = S] assms(2,3)) (auto simp: Cons.IH split: option.splits)
qed

lemma sure_service:
  assumes C: "cond_laws C" and H: "\<And>h. like i h \<Longrightarrow> settled_rollout S K A q h" and l: "like i h"
  shows "sure (walk S K i fs h0 e CreateServiceReady) (service_step C K A (service_labels K h))
    (\<lambda>_. walk S K i fs h0 (an_endpoint q) DeploymentReady)"
proof (rule sureI)
  fix s :: "'a rstate"
  assume w: "walk S K i fs h0 e CreateServiceReady s"
  have lbl: "service_labels K h = service_labels K (rs_inst s)"
    using l walkD(1)[OF w] by (simp add: service_labels_def like_def)
  note h = H[OF walkD(1)[OF w], unfolded settled_rollout_def]
  let ?w = "snd (ap_ServiceCreateOrPatch A (annotate_service K (an_service q)) (rs_world s))"
  let ?s = "s\<lparr>rs_world := ?w, rs_inst := touch_override (rs_inst s)\<rparr>"
  let ?t = "?s\<lparr>rs_inst := status_cond (\<lambda>cs. cl_mark_true C cs CreateServiceReady (Msg ''CreateServiceReadyMessage'' []))
      (rs_inst ?s)\<rparr>"
  have "walk S K i fs h0 e CreateServiceReady ?s"
    using walk_touch[of S K i fs h0 e CreateServiceReady "s\<lparr>rs_world := ?w\<rparr>"] w h walkD(6)[OF w] by (simp add: says_def)
  then have "walk S K i fs h0 e DeploymentReady ?t" by (rule walk_true[OF C next_stage_table(5)])
  then have end_: "walk S K i fs h0 (an_endpoint q) DeploymentReady
      (?t\<lparr>rs_inst := upd_status (\<lambda>st. st\<lparr>st_endpoint := an_endpoint q\<rparr>) (rs_inst ?t)\<rparr>)"
    by (rule walk_field) simp_all
  have "service_step C K A (service_labels K h) s =
      (Next (), ?t\<lparr>rs_inst := upd_status (\<lambda>st. st\<lparr>st_endpoint := an_endpoint q\<rparr>) (rs_inst ?t)\<rparr>)"
    using h walkD(6)[OF w] by (simp add: lbl service_step_def reconcileInit_def flow_simps Let_def says_def split_beta mark_true_def)
  with end_ show "\<exists>x t. service_step C K A (service_labels K h) s = (Next x, t) \<and>
      walk S K i fs h0 (an_endpoint q) DeploymentReady t" by blast
qed

lemma sure_nad_loop:
  assumes "\<And>nm ns. \<exists>x. says S (ap_GetNADWithName A nm ns) (Inr x)" and "\<And>s. P s \<Longrightarrow> S (rs_world s)"
    and "\<And>s w. P s \<Longrightarrow> S w \<Longrightarrow> P (s\<lparr>rs_world := w\<rparr>)"
  shows "sure P (nad_loop C A ns ats l) (\<lambda>_. P)"
proof (induction ats arbitrary: l)
  case Nil
  show ?case by (simp add: sure_next)
next
  case (Cons a ats)
  obtain x where "says S (ap_GetNADWithName A a ns) (Inr x)" using assms(1) by blast
  then show ?case
    unfolding nad_loop.simps by (intro sure_cluster[where P = P and S = S] assms(2,3)) (auto simp: Cons.IH split: option.splits)
qed

lemma sure_nad:
  assumes C: "cond_laws C" and H: "\<And>h. like i h \<Longrightarrow> settled_rollout S K A q h"
  shows "sure (walk S K i fs h0 e t) (nad_step C K A hp) (\<lambda>_. walk S K i fs h0 e t)"
proof -
  have "\<exists>x. says S (ap_GetNADWithName A nm ns) (Inr x)" for nm ns
    using H[OF like_refl] unfolding settled_rollout_def by blast
  note loop = sure_nad_loop[of S A "walk S K i fs h0 e t", OF this]
  have ensure: "sure (walk S K i fs h0 e t) (ensureNAD C K A hp ats)
      (\<lambda>r s. walk S K i fs h0 e t s \<and> snd r = (res0, None))" for ats
    unfolding ensureNAD_def
  proof (rule sure_and_then[OF loop])
    fix l
    obtain m where "el_EnsureNetworksAnnotation K l = Inr m"
      using H[OF like_refl] unfolding settled_rollout_def by blast
    then show "sure (walk S K i fs h0 e t) (case el_EnsureNetworksAnnotation K l of
        Inl err \<Rightarrow> return_with (Map.empty, res0, Some (Wrapped ''failed create network annotation from %s: %w'' ats err))
      | Inr serviceAnnotations \<Rightarrow> next_with (serviceAnnotations, res0, None))
      (\<lambda>r s. walk S K i fs h0 e t s \<and> snd r = (res0, None))"
      by (simp add: sure_next)
  qed (auto dest: walkD(6))
  have mark: "sure (walk S K i fs h0 e t) (mark_true C NetworkAttachmentsReady m) (\<lambda>_. walk S K i fs h0 e t)" for m
    by (rule sure_mark_side[OF C nad_not_pipeline])
  show ?thesis
    unfolding nad_step_def
  proof (rule sure_inst, rule sure_and_then[OF sure_call[OF sure_weaken[OF ensure]]], simp, assumption)
    fix x :: "smap \<times> ctrl_result \<times> gerr option"
    obtain a r err where x: "x = (a, r, err)" by (cases x)
    show "sure (\<lambda>s. walk S K i fs h0 e t s \<and> snd x = (res0, None))
        (case x of (serviceAnnotations, ctrlResult, err) \<Rightarrow> case err of
           Some e \<Rightarrow> and_then (mark_false C NetworkAttachmentsReady ErrorReason SeverityWarning
                     (Msg ''NetworkAttachmentsReadyErrorMessage'' [MErr e])) (\<lambda>_. return_with (ctrlResult, Some e))
         | None \<Rightarrow> and_then (mark_true C NetworkAttachmentsReady ''NetworkAttachmentsReadyMessage'') (\<lambda>_.
             next_with serviceAnnotations)) (\<lambda>_. walk S K i fs h0 e t)"
    proof (cases err)
      case None
      have "sure (walk S K i fs h0 e t) (and_then (mark_true C NetworkAttachmentsReady ''NetworkAttachmentsReadyMessage'')
          (\<lambda>_. next_with a)) (\<lambda>_. walk S K i fs h0 e t)"
        by (rule sure_and_then[OF mark]) (simp add: sure_next)
      then show ?thesis by (simp add: x None) (erule sure_weaken; simp)
    qed (simp add: x sure_def)
  qed
qed

lemma sure_enabled:
  assumes H: "\<And>h. like i h \<Longrightarrow> settled_rollout S K A q h"
  shows "sure (walk S K i fs h0 e t) (enabled_services A) (\<lambda>_. walk S K i fs h0 e t)"
  unfolding enabled_services_def
proof (rule sure_inst)
  fix h
  show "sure (\<lambda>s. walk S K i fs h0 e t s \<and> rs_inst s = h)
      (keystone_loop A (hz_namespace h) keystoneServicesWatch Map.empty) (\<lambda>_. walk S K i fs h0 e t)"
  proof (cases "like i h")
    case True
    show ?thesis
      by (rule sure_weaken[OF sure_keystone[where S = S and P = "walk S K i fs h0 e t"]])
        (use H[OF True] in \<open>simp_all add: settled_rollout_def walkD(6)\<close>)
  next
    case False
    then show ?thesis by (auto simp: sure_def dest: walkD(1))
  qed
qed

lemma sure_update: "sure P update_steps (\<lambda>_. P)"
  by (simp add: sure_def update_steps_def reconcileUpdate_def reconcileUpgrade_def flow_simps)

lemma sure_topology:
  assumes C: "cond_laws C" and H: "\<And>h. like i h \<Longrightarrow> settled_rollout S K A q h"
  shows "sure (walk S K i fs h0 e t) (topology_step C K A lbl) (\<lambda>_. walk S K i fs h0 e t)"
  unfolding topology_step_def Let_def
proof (rule sure_inst)
  fix h
  let ?P = "\<lambda>s. walk S K i fs h0 e t s \<and> rs_inst s = h"
  show "sure ?P (and_then (cluster (ap_EnsureServiceTopology A (sp_topologyRef (hz_spec h))
       (st_lastAppliedTopology (hz_status h)) (hz_name h) (el_GetLabelSelector K lbl))) (\<lambda>got.
     case got of
       Inl err \<Rightarrow>
         fail_with C TopologyReady ErrorReason SeverityWarning
           (Msg ''TopologyReadyErrorMessage'' [MErr err])
           (res0, Some (Wrapped ''waiting for Topology requirements: %w'' [] err))
     | Inr tp \<Rightarrow>
         and_then
           (if sp_topologyRef (hz_spec h) \<noteq> None
            then and_then (mod_inst (upd_status (\<lambda>st.
                     st\<lparr>st_lastAppliedTopology := sp_topologyRef (hz_spec h)\<rparr>))) (\<lambda>_.
                 mark_true C TopologyReady ''TopologyReadyMessage'')
            else mod_inst (upd_status (\<lambda>st. st\<lparr>st_lastAppliedTopology := None\<rparr>))) (\<lambda>_.
         next_with tp))) (\<lambda>_. walk S K i fs h0 e t)"
  proof (cases "like i h")
    case True
    obtain tp where tp: "says S (ap_EnsureServiceTopology A (sp_topologyRef (hz_spec h))
       (st_lastAppliedTopology (hz_status h)) (hz_name h) (el_GetLabelSelector K lbl)) (Inr tp)"
      using H[OF True] unfolding settled_rollout_def by blast
    have field: "sure (walk S K i fs h0 e t) (mod_inst (upd_status (\<lambda>st. st\<lparr>st_lastAppliedTopology := x\<rparr>)))
        (\<lambda>_. walk S K i fs h0 e t)" for x
      by (rule sureI) (simp add: flow_simps walk_field)
    have mark: "sure (walk S K i fs h0 e t) (mark_true C TopologyReady m) (\<lambda>_. walk S K i fs h0 e t)" for m
      by (rule sure_mark_side[OF C topo_not_pipeline])
    have both: "sure (walk S K i fs h0 e t) (if b then and_then (mod_inst (upd_status (\<lambda>st.
                     st\<lparr>st_lastAppliedTopology := x\<rparr>))) (\<lambda>_. mark_true C TopologyReady m)
            else mod_inst (upd_status (\<lambda>st. st\<lparr>st_lastAppliedTopology := None\<rparr>))) (\<lambda>_. walk S K i fs h0 e t)" for b x m
      by (cases b, simp_all only: if_True if_False) (rule sure_and_then[OF field], rule mark, rule field)
    have "sure (walk S K i fs h0 e t) (and_then
           (if sp_topologyRef (hz_spec h) \<noteq> None
            then and_then (mod_inst (upd_status (\<lambda>st.
                     st\<lparr>st_lastAppliedTopology := sp_topologyRef (hz_spec h)\<rparr>))) (\<lambda>_.
                 mark_true C TopologyReady ''TopologyReadyMessage'')
            else mod_inst (upd_status (\<lambda>st. st\<lparr>st_lastAppliedTopology := None\<rparr>))) (\<lambda>_.
         next_with tp)) (\<lambda>_. walk S K i fs h0 e t)"
      by (rule sure_and_then[OF both]) (simp add: sure_next)
    then show ?thesis
      by (intro sure_weaken[OF sure_cluster[where S = S and P = "walk S K i fs h0 e t" and x = "Inr tp"]])
        (simp_all add: tp walkD(6))
  next
    case False
    then show ?thesis by (auto simp: sure_def dest: walkD(1))
  qed
qed

text \<open>With its sources there and its certificate convertible, the Deployment is built.\<close>

lemma Deployment_builds:
  assumes "well_formed K h" and "tls_enabled K h \<longrightarrow> (\<exists>x. pl_tlsToService (el_pod K) (sp_tls (hz_spec h)) = Inr x)"
  shows "\<exists>d. Deployment (el_pod K) h hash lbl ann en tp mc = Value d"
proof (cases "Deployment (el_pod K) h hash lbl ann en tp mc")
  case (Error err)
  then show ?thesis
    using assms(2) by (auto simp: Deployment_def formatTLSOptions_def Let_def tls_enabled_def
        split: option.splits sum.splits if_splits)
next
  case (Crash m)
  then show ?thesis using Deployment_Crash_iff[of "el_pod K"] assms(1) by (metis well_formed_def)
qed simp

lemma sure_deployment:
  assumes H: "\<And>h. like i h \<Longrightarrow> settled_rollout S K A q h"
  shows "sure (walk S K i fs h0 e DeploymentReady) (deployment_step C K A hash lbl ann en tp mc)
    (\<lambda>d s. walk S K i fs h0 e DeploymentReady s \<and> d = an_live q)"
proof (rule sureI)
  fix s :: "'a rstate"
  assume w: "walk S K i fs h0 e DeploymentReady s"
  note h = H[OF walkD(1)[OF w], unfolded settled_rollout_def]
  obtain d where d: "Deployment (el_pod K) (rs_inst s) hash lbl ann en tp mc = Value d"
    using Deployment_builds[of K "rs_inst s"] h by metis
  have call: "says S (ap_DeploymentCreateOrPatch A d 5) ((res0, None), an_live q)" using h by simp
  let ?w = "snd (ap_DeploymentCreateOrPatch A d 5 (rs_world s))"
  note got = saysD[OF call walkD(6)[OF w]]
  have "walk S K i fs h0 e DeploymentReady (s\<lparr>rs_world := ?w\<rparr>)" using w got(3) by simp
  then have "walk S K i fs h0 e DeploymentReady (s\<lparr>rs_world := ?w,
      rs_inst := upd_status (\<lambda>st. st\<lparr>st_readyCount := n\<rparr>) (rs_inst s)\<rparr>)" for n
    using walk_field[where s = "s\<lparr>rs_world := ?w\<rparr>" and f = "\<lambda>st. st\<lparr>st_readyCount := n\<rparr>"] by simp
  with w got(3) show "\<exists>x t. deployment_step C K A hash lbl ann en tp mc s = (Next x, t) \<and>
      walk S K i fs h0 e DeploymentReady t \<and> x = an_live q"
    by (simp add: deployment_step_def flow_simps d split_beta got(2))
qed

lemma sure_verify:
  assumes C: "cond_laws C" and H: "\<And>h. like i h \<Longrightarrow> settled_rollout S K A q h"
  shows "sure (walk S K i fs h0 e t) (verify_network C A lbl) (\<lambda>_. walk S K i fs h0 e t)"
proof (rule sureI)
  fix s :: "'a rstate"
  assume w: "walk S K i fs h0 e t s"
  note h = H[OF walkD(1)[OF w], unfolded settled_rollout_def]
  obtain n where n: "sp_replicas (hz_spec (rs_inst s)) = Some n" using h by (auto simp: well_formed_def)
  let ?g = "ap_VerifyNetworkStatus A (sp_networkAttachments (hz_spec (rs_inst s))) lbl (st_readyCount (hz_status (rs_inst s)))"
  have call: "says S ?g (Inr (True, an_networks q))" using h by simp
  note got = saysD[OF call walkD(6)[OF w]]
  let ?s = "s\<lparr>rs_world := snd (?g (rs_world s)), rs_inst := upd_status (\<lambda>st. st\<lparr>st_networkAttachments := an_networks q\<rparr>) (rs_inst s)\<rparr>"
  have "walk S K i fs h0 e t (s\<lparr>rs_world := snd (?g (rs_world s))\<rparr>)" using w got(3) by simp
  from walk_field[OF this, of "\<lambda>st. st\<lparr>st_networkAttachments := an_networks q\<rparr>"]
  have "walk S K i fs h0 e t ?s" by simp
  note walk_side_true[OF C nad_not_pipeline this, of "Msg ''NetworkAttachmentsReadyMessage'' []"]
  with w show "\<exists>x t'. verify_network C A lbl s = (Next x, t') \<and> walk S K i fs h0 e t t'"
    by (simp add: verify_network_def flow_simps n split_beta got(2) mark_true_def)
qed

text \<open>The end: everything that is reported is True.\<close>

definition all_true :: "conditions \<Rightarrow> bool" where
  "all_true cs \<longleftrightarrow> (\<forall>t \<in> insert Ready pipeline. status_of cs t = Some CTrue) \<and>
     (\<forall>t. status_of cs t \<in> {None, Some CTrue})"

definition rolled_out :: "('w \<Rightarrow> bool) \<Rightarrow> env_lib \<Rightarrow> horizon \<Rightarrow> string list \<Rightarrow> string option \<Rightarrow> string \<Rightarrow> 'w rstate \<Rightarrow> bool" where
  "rolled_out S K i fs h0 e s \<longleftrightarrow> S (rs_world s) \<and> all_true (conds s) \<and> like i (rs_inst s) \<and>
     hz_finalizers (rs_inst s) = fs \<and> hz_deletionTimestamp (rs_inst s) = None \<and>
     hash_map (hz_status (rs_inst s)) (el_InputHashName K) = h0 \<and> st_endpoint (hz_status (rs_inst s)) = e"

lemma status_in: "c \<in> set cs \<Longrightarrow> status_of cs (c_type c) \<noteq> None"
  by (induction cs) (auto simp: status_of_def view_of_def)

lemma sure_finish:
  assumes C: "cond_laws C" and live: "el_DeploymentIsReady K d"
  shows "sure (walk S K i fs h0 e DeploymentReady) (finish_step C K d) (\<lambda>r s. rolled_out S K i fs h0 e s \<and> r = (res0, None))"
proof (rule sureI)
  fix s :: "'a rstate"
  assume w: "walk S K i fs h0 e DeploymentReady s"
  let ?s = "s\<lparr>rs_inst := status_cond (\<lambda>cs. cl_mark_true C cs DeploymentReady (Msg ''DeploymentReadyMessage'' [])) (rs_inst s)\<rparr>"
  have ws: "walk S K i fs h0 e Ready ?s" by (rule walk_true[OF C next_stage_table(6) w])
  have "status_of (conds ?s) t = Some CTrue" if "t \<in> pipeline" for t
    using walkD(2)[OF ws] that by (auto simp: at_stage_def pipeline_def)
  moreover have "status_of (conds ?s) t \<in> {None, Some CTrue}" if "t \<notin> insert Ready pipeline" for t
    using walkD(3)[OF ws] that by (auto simp: side_def)
  ultimately have st: "t \<noteq> Ready \<Longrightarrow> status_of (conds ?s) t \<in> {None, Some CTrue}" for t by blast
  have "others_true (conds ?s) Ready"
    unfolding others_true_def using st status_in by (metis insertE singletonD)
  then have sub: "cl_all_sub_true C (conds_of (hz_status (rs_inst ?s)))"
    by (simp add: cond_list_laws(8)[OF C] conds_def)
  let ?t = "?s\<lparr>rs_inst := status_cond (\<lambda>cs. cl_mark_true C cs Ready (Msg ''ReadyMessage'' [])) (rs_inst ?s)\<rparr>"
  have "conds ?t = cl_set C (conds ?s) (cl_true C Ready (Msg ''ReadyMessage'' []))"
    by (simp add: conds_def cond_list_laws(3)[OF C])
  then have "status_of (conds ?t) u = (if u = Ready then Some CTrue else status_of (conds ?s) u)" for u
    by (simp add: status_set[OF C] cond_type_laws(3)[OF C] cond_status_laws(2)[OF C])
  then have "all_true (conds ?t)"
    using st \<open>\<And>t. t \<in> pipeline \<Longrightarrow> status_of (conds ?s) t = Some CTrue\<close> by (auto simp: all_true_def)
  then have "rolled_out S K i fs h0 e ?t" using ws by (simp add: rolled_out_def walk_def hash_map_def)
  moreover have "finish_step C K d s = (Next (res0, None), ?t)"
    using sub live by (simp add: finish_step_def flow_simps mark_true_def)
  ultimately show "\<exists>r t. finish_step C K d s = (Next r, t) \<and> rolled_out S K i fs h0 e t \<and> r = (res0, None)"
    by blast
qed

lemma sure_rollout:
  assumes C: "cond_laws C" and H: "\<And>h. like i h \<Longrightarrow> settled_rollout S K A q h"
  shows "sure (walk S K i fs h0 e CreateServiceReady) (rollout C K A hp mc hash en)
    (\<lambda>r s. rolled_out S K i fs h0 (an_endpoint q) s \<and> r = (res0, None))"
proof -
  have live: "el_DeploymentIsReady K (an_live q)" using H[OF like_refl] by (simp add: settled_rollout_def)
  have dep: "sure (walk S K i fs h0 (an_endpoint q) DeploymentReady) (and_then (deployment_step C K A hash lbl ann en tp mc)
      (\<lambda>deploy. and_then (verify_network C A lbl) (\<lambda>_. finish_step C K deploy)))
      (\<lambda>r s. rolled_out S K i fs h0 (an_endpoint q) s \<and> r = (res0, None))" for lbl ann tp
  proof (rule sure_and_then[OF sure_deployment[OF H]], assumption)
    fix d
    show "sure (\<lambda>s. walk S K i fs h0 (an_endpoint q) DeploymentReady s \<and> d = an_live q)
        (and_then (verify_network C A lbl) (\<lambda>_. finish_step C K d))
        (\<lambda>r s. rolled_out S K i fs h0 (an_endpoint q) s \<and> r = (res0, None))"
    proof (cases "d = an_live q")
      case True
      have "sure (walk S K i fs h0 (an_endpoint q) DeploymentReady)
          (and_then (verify_network C A lbl) (\<lambda>_. finish_step C K (an_live q)))
          (\<lambda>r s. rolled_out S K i fs h0 (an_endpoint q) s \<and> r = (res0, None))"
        by (rule sure_and_then[OF sure_verify[OF C H] sure_finish[OF C live]])
      then show ?thesis by (simp add: True)
    qed (simp add: sure_def)
  qed
  show ?thesis
    unfolding rollout_def Let_def
  proof (rule sure_inst)
    fix h
    show "sure (\<lambda>s. walk S K i fs h0 e CreateServiceReady s \<and> rs_inst s = h)
        (and_then (service_step C K A (service_labels K h)) (\<lambda>_.
         and_then (nad_step C K A hp) (\<lambda>serviceAnnotations.
         and_then update_steps (\<lambda>_.
         and_then (topology_step C K A (service_labels K h)) (\<lambda>tp.
         and_then (deployment_step C K A hash (service_labels K h) serviceAnnotations en tp mc) (\<lambda>deploy.
         and_then (verify_network C A (service_labels K h)) (\<lambda>_. finish_step C K deploy)))))))
        (\<lambda>r s. rolled_out S K i fs h0 (an_endpoint q) s \<and> r = (res0, None))"
    proof (cases "like i h")
      case True
      show ?thesis
        by (rule sure_weaken[OF sure_and_then[OF sure_service[OF C H True]
              sure_and_then[OF sure_nad[OF C H] sure_and_then[OF sure_update
              sure_and_then[OF sure_topology[OF C H] dep]]]]]) auto
    next
      case False
      then show ?thesis by (auto simp: sure_def dest: walkD(1))
    qed
  qed
qed

end
