(* ===== verification/Cluster_Frame.thy ===== *)
theory Cluster_Frame
  imports Pass_Ready Pass_Deploys
begin

text \<open>
  What a pass leaves of the stored Horizon object before it patches it, and how the Deployment
  it writes is tied to the hash its object records. Both are carried through the stages by frame
  relations, and are what the machine of many passes rests on.
\<close>

section \<open>The stored object\<close>

text \<open>
  \<open>obj\<close> reads the object in the cluster. Until the operator patches it, its status stays: other
  actors may change the rest, delete it, or create it anew without conditions.
\<close>

definition undisturbed :: "('w \<Rightarrow> horizon option) \<Rightarrow> 'w \<Rightarrow> 'w \<Rightarrow> bool" where
  "undisturbed obj w w' \<longleftrightarrow> (case obj w' of None \<Rightarrow> True | Some k \<Rightarrow>
     st_conditions (hz_status k) = None \<or>
     (case obj w of None \<Rightarrow> False | Some h \<Rightarrow> hz_status k = hz_status h))"

lemma undisturbed_refl [simp]: "undisturbed obj w w"
  by (simp add: undisturbed_def split: option.split)

lemma undisturbed_trans: "undisturbed obj w v \<Longrightarrow> undisturbed obj v u \<Longrightarrow> undisturbed obj w u"
  by (auto simp: undisturbed_def split: option.splits)

lemma undisturbedD:
  assumes "undisturbed obj w w'" and "obj w' = Some k" and "st_conditions (hz_status k) \<noteq> None"
  obtains h where "obj w = Some h" and "hz_status k = hz_status h"
  using assms by (auto simp: undisturbed_def split: option.splits)

text \<open>Every call but PatchInstance leaves the stored status to the operator.\<close>

definition leaves :: "('w \<Rightarrow> horizon option) \<Rightarrow> ('w \<Rightarrow> 'a \<times> 'w) \<Rightarrow> bool" where
  "leaves obj f \<longleftrightarrow> (\<forall>w. undisturbed obj w (snd (f w)))"

lemma leavesD: "leaves obj f \<Longrightarrow> f w = (x, w') \<Longrightarrow> undisturbed obj w w'"
  unfolding leaves_def by (metis snd_conv)

definition calls_leave :: "('w \<Rightarrow> horizon option) \<Rightarrow> 'w api \<Rightarrow> bool" where
  "calls_leave obj A \<longleftrightarrow>
     (\<forall>nm ns. leaves obj (ap_Get A nm ns)) \<and> (\<forall>h. leaves obj (ap_NewHelper A h)) \<and>
     (\<forall>r nm. leaves obj (ap_EnsureDeletedTopologyRef A r nm)) \<and>
     (\<forall>ns nm rules. leaves obj (ap_ReconcileRbac A ns nm rules)) \<and>
     (\<forall>nm ns. leaves obj (ap_GetSecret A nm ns)) \<and> (\<forall>nm ns. leaves obj (ap_GetMemcachedByName A nm ns)) \<and>
     (\<forall>nm ns. leaves obj (ap_ValidateCACertSecret A nm ns)) \<and>
     (\<forall>t ns. leaves obj (ap_ValidateCertSecret A t ns)) \<and> (\<forall>ns. leaves obj (ap_GetKeystoneAPI A ns)) \<and>
     (\<forall>nm ns. leaves obj (ap_GetKeystoneServiceWithName A nm ns)) \<and>
     (\<forall>ts v. leaves obj (ap_EnsureConfigMaps A ts v)) \<and> (\<forall>ts v. leaves obj (ap_EnsureSecrets A ts v)) \<and>
     (\<forall>n. leaves obj (ap_GeneratePassword A n)) \<and> (\<forall>s. leaves obj (ap_ServiceCreateOrPatch A s)) \<and>
     (\<forall>nm ns. leaves obj (ap_GetNADWithName A nm ns)) \<and>
     (\<forall>r lat nm sel. leaves obj (ap_EnsureServiceTopology A r lat nm sel)) \<and>
     (\<forall>d n. leaves obj (ap_DeploymentCreateOrPatch A d n)) \<and>
     (\<forall>na l n. leaves obj (ap_VerifyNetworkStatus A na l n))"

lemma calls_leaveD:
  assumes "calls_leave obj A"
  shows "leaves obj (ap_Get A nm ns)" and "leaves obj (ap_NewHelper A h)"
    and "leaves obj (ap_EnsureDeletedTopologyRef A r nm)" and "leaves obj (ap_ReconcileRbac A ns nm rules)"
    and "leaves obj (ap_GetSecret A nm ns)" and "leaves obj (ap_GetMemcachedByName A nm ns)"
    and "leaves obj (ap_ValidateCACertSecret A nm ns)" and "leaves obj (ap_ValidateCertSecret A t ns)"
    and "leaves obj (ap_GetKeystoneAPI A ns)" and "leaves obj (ap_GetKeystoneServiceWithName A nm ns)"
    and "leaves obj (ap_EnsureConfigMaps A ts v)" and "leaves obj (ap_EnsureSecrets A ts v)"
    and "leaves obj (ap_GeneratePassword A n)" and "leaves obj (ap_ServiceCreateOrPatch A s)"
    and "leaves obj (ap_GetNADWithName A nm ns)"
    and "leaves obj (ap_EnsureServiceTopology A r lat nm sel)"
    and "leaves obj (ap_DeploymentCreateOrPatch A d m)" and "leaves obj (ap_VerifyNetworkStatus A na lbl i)"
  using assms by (simp_all add: calls_leave_def)

text \<open>The log changes nothing of that.\<close>

lemma undisturbed_fst: "undisturbed (\<lambda>v. obj (fst v)) v v' \<longleftrightarrow> undisturbed obj (fst v) (fst v')"
  by (simp add: undisturbed_def)

lemma logged_world: "fst (snd (reading f v)) = snd (f (fst v))" "fst (snd (writing e f v)) = snd (f (fst v))"
  by (simp_all add: reading_def writing_def split_beta)

lemma leaves_logged: "leaves obj f \<Longrightarrow> leaves (\<lambda>v. obj (fst v)) (reading f)"
  "leaves obj f \<Longrightarrow> leaves (\<lambda>v. obj (fst v)) (writing e f)"
  by (simp_all add: leaves_def undisturbed_fst logged_world)

lemma calls_leave_traced:
  assumes "calls_leave obj A"
  shows "calls_leave (\<lambda>v. obj (fst v)) (traced A)"
  unfolding calls_leave_def traced_reads traced_writes
  by (intro conjI allI leaves_logged calls_leaveD[OF assms])

section \<open>The body of a pass leaves the stored status\<close>

definition world_rel :: "('w \<Rightarrow> horizon option) \<Rightarrow> 'w rstate \<Rightarrow> 'w rstate \<Rightarrow> bool" where
  "world_rel obj s t \<longleftrightarrow> undisturbed obj (rs_world s) (rs_world t)"

interpretation world: frame_rel "world_rel obj" for obj
  by unfold_locales (auto simp: world_rel_def intro: undisturbed_trans)

named_theorems world_rules \<open>procedures that leave the stored status alone\<close>

declare world.keeps_next [world_rules] world.keeps_return [world_rules] world.keeps_panic [world_rules]
  world.keeps_and_then [world_rules] world.keeps_call [world_rules] world.keeps_get [world_rules]
  keeps_if [world_rules] keeps_sum [world_rules] keeps_option [world_rules] keeps_prod [world_rules]
  keeps_prod_fun [world_rules] keeps_outcome [world_rules]

lemma world_cluster [world_rules]: "leaves obj f \<Longrightarrow> keeps (world_rel obj) (cluster f)"
  by (auto simp: keeps_def cluster_def world_rel_def dest: leavesD split: prod.split)

lemma world_cluster_vars [world_rules]:
  "(\<And>v. leaves obj (f v)) \<Longrightarrow> keeps (world_rel obj) (cluster_vars f)"
  by (auto simp: keeps_def cluster_vars_def world_rel_def dest: leavesD split: prod.split)

lemma world_local [world_rules]:
  "keeps (world_rel obj) (mod_inst g)" "keeps (world_rel obj) (set_var k x)"
  "keeps (world_rel obj) (modify (\<lambda>s. s\<lparr>rs_vars := m\<rparr>))" "keeps (world_rel obj) the_inst"
  by (simp_all add: keeps_def mod_inst_def set_var_def the_inst_def get_state_def modify_def world_rel_def)

lemma world_conds [world_rules]:
  "keeps (world_rel obj) (set_cond C c)" "keeps (world_rel obj) (mark_true C t m)"
  "keeps (world_rel obj) (mark_false C t r v msg)" "keeps (world_rel obj) (fail_with C t r v msg ret)"
  unfolding step_defs by (intro world_rules)+

lemma world_hash [world_rules]: "keeps (world_rel obj) (createHashOfInputHashes K)"
  by (auto simp: keeps_def createHashOfInputHashes_def world_rel_def split: sum.splits prod.splits)

lemma world_keystone:
  assumes "calls_leave obj A"
  shows "keeps (world_rel obj) (keystone_loop A ns svs en)"
  by (induction svs arbitrary: en)
    (auto intro!: world_rules calls_leaveD[OF assms] simp only: keystone_loop.simps)

lemma world_nad_loop:
  assumes "calls_leave obj A"
  shows "keeps (world_rel obj) (nad_loop C A ns ats l)"
  by (induction ats arbitrary: l)
    (auto intro!: world_rules calls_leaveD[OF assms] simp only: nad_loop.simps)

lemma world_inputs:
  assumes "calls_leave obj A"
  shows "keeps (world_rel obj) (rbac_step C A)" and "keeps (world_rel obj) (check_secret C A)"
    and "keeps (world_rel obj) (check_memcached C A)" and "keeps (world_rel obj) (check_tls C K A)"
    and "keeps (world_rel obj) (config_step C K A mc)" and "keeps (world_rel obj) (enabled_services A)"
  unfolding rbac_step_def configureHorizonRbac_def check_secret_def check_memcached_def check_tls_def
    check_ca_def check_cert_def config_step_def config_failed_def generateServiceConfigMaps_def
    ensureHorizonSecret_def enabled_services_def Let_def
  by (intro world_rules calls_leaveD[OF assms] world_keystone[OF assms])+

lemma world_rollout:
  assumes "calls_leave obj A"
  shows "keeps (world_rel obj) (rollout C K A hp mc hash en)"
  unfolding rollout_def service_step_def reconcileInit_def nad_step_def ensureNAD_def update_steps_def
    reconcileUpdate_def reconcileUpgrade_def topology_step_def deployment_step_def depl_failed_def
    verify_network_def finish_step_def Let_def
  by (intro world_rules calls_leaveD[OF assms] world_nad_loop[OF assms])

lemma world_body:
  assumes "calls_leave obj A"
  shows "keeps (world_rel obj) (reconcile_body C K A hp new)"
  unfolding reconcile_body_def init_status_def add_finalizer_def init_hash_def reconcileDelete_def
    reconcileNormal_def Let_def
  by (intro world_rules calls_leaveD[OF assms] world_inputs[OF assms] world_rollout[OF assms])

section \<open>The hash of a pass that deploys\<close>

text \<open>A pass that wrote a Deployment leaves the hash that was recorded when it began.\<close>

definition tied :: "env_lib \<Rightarrow> string option \<Rightarrow> 'w logged rstate \<Rightarrow> bool" where
  "tied K h0 s \<longleftrightarrow> deployments (log_of s) = {} \<or> recorded K h0 s"

lemma below_tied: "below k s \<Longrightarrow> k \<le> 5 \<Longrightarrow> tied K h0 s"
  by (simp add: tied_def below_no_deployment)

lemma triple_exit_by:
  assumes "triple P m Q E" and "triple P' m R E'" and "\<And>s. P s \<Longrightarrow> P' s" and "\<And>s. E' s \<Longrightarrow> T s"
  shows "triple P m Q T"
  using assms unfolding triple_def by (fastforce split: prod.splits flow.splits)

lemma tied_stage:
  assumes "triple (before_rollout K h0 k) m Q E" and "triple (below k) m R (below k')" and "k' \<le> 5"
  shows "triple (before_rollout K h0 k) m Q (tied K h0)"
  using assms(1,2) by (rule triple_exit_by) (use assms(3) in \<open>auto simp: before_rollout_def intro: below_tied\<close>)

lemma tied_quiet:
  assumes "keeps same_log m" and "keeps same_core m" and "k \<le> 5"
  shows "triple (before_rollout K h0 k) m (\<lambda>_. before_rollout K h0 k) (tied K h0)"
  by (rule tied_stage[OF before_quiet[OF assms] place_quiet[OF assms(1) order_refl order_refl] assms(3)])

lemma tied_normal:
  assumes "set_hash_law K"
  shows "triple (before_rollout K h0 0) (reconcileNormal C K (traced (A :: 'w api)) hp)
    (\<lambda>_. tied K h0) (tied K h0)"
proof -
  have rbac: "triple (before_rollout K h0 0) (rbac_step C (traced A)) (\<lambda>_. before_rollout K h0 1) (tied K h0)"
    by (rule tied_stage[OF before_stage[OF place_rbac keeps_rbac] place_rbac]) simp_all
  have quiet: "triple (before_rollout K h0 1) m (\<lambda>_. before_rollout K h0 1) (tied K h0)"
    if "keeps same_log m" and "keeps same_core m" for m :: "('w logged, 'b) body"
    using that by (rule tied_quiet) simp
  have config: "triple (before_rollout K h0 1) (config_step C K (traced A) mc)
      (\<lambda>hash s. before_rollout K h0 3 s \<and> h0 = Some hash) (tied K h0)" for mc
    by (rule tied_stage[OF before_config[OF assms] place_config]) simp
  have en: "triple (\<lambda>s. before_rollout K h0 3 s \<and> h0 = Some hash) (enabled_services (traced A))
      (\<lambda>_. recorded K h0) (tied K h0)" for hash
    by (rule triple_weaken[OF tied_quiet[OF quiet_enabled keeps_enabled, of 3]]) (auto simp: before_rollout_def)
  have roll: "triple (recorded K h0) (rollout C K (traced A) hp mc hash en) (\<lambda>_. tied K h0) (tied K h0)"
    for mc hash en
    by (rule triple_weaken[OF keeps_triple[OF keeps_rollout recorded_core]]) (auto simp: tied_def)
  show ?thesis
    unfolding reconcileNormal_def
    by (rule triple_and_then rbac quiet[OF quiet_secret_stage keeps_secret]
        quiet[OF quiet_memcached keeps_memcached] quiet[OF quiet_tls keeps_tls] config en roll)+
qed

lemma tied_body:
  assumes "set_hash_law K"
  shows "triple (before_rollout K h0 0) (reconcile_body C K (traced A) hp new)
    (\<lambda>_. tied K h0) (tied K h0)"
proof -
  have next_ok: "triple (before_rollout K h0 0) (next_with x) (\<lambda>_. before_rollout K h0 0) E" for x E
    by (rule triple_next)
  have ret: "triple (before_rollout K h0 0) (return_with r) Q (tied K h0)" for r Q
    by (auto simp: triple_def flow_simps before_rollout_def tied_def)
  have inst: "triple (before_rollout K h0 0) the_inst (\<lambda>_. before_rollout K h0 0) E" for E
    by (rule triple_the_inst)
  have "triple (before_rollout K h0 0) (reconcileDelete K (traced A) hp) (\<lambda>_. tied K h0) (tied K h0)"
    unfolding reconcileDelete_def
    by (auto simp: triple_def flow_simps before_rollout_def tied_def recorded_def split: prod.splits)
  then have del: "triple (before_rollout K h0 0) (call_proc (reconcileDelete K (traced A) hp))
      (\<lambda>_. tied K h0) (tied K h0)" by (rule triple_call)
  have norm: "triple (before_rollout K h0 0) (call_proc (reconcileNormal C K (traced A) hp))
      (\<lambda>_. tied K h0) (tied K h0)"
    by (rule triple_call[OF tied_normal[OF assms]])
  show ?thesis
    unfolding reconcile_body_def init_status_def add_finalizer_def init_hash_def Let_def
    by (rule triple_and_then next_ok ret inst del norm keep_recorded triple_if triple_prod
        | simp add: hash_map_def status_cond_def)+
qed

end
