(* ===== verification/Cluster_Machine.thy ===== *)
theory Cluster_Machine
  imports Cluster_Frame Pass_Properties
begin

text \<open>
  The operator over time: passes of Reconcile on the stored object, interleaved with whatever
  other actors do to the cluster, as a transition relation with a log of all writes. The
  invariant says what the status of the stored object means in every state that can be reached.
\<close>

section \<open>The machine\<close>

text \<open>
  PatchInstance either leaves the stored status (it failed) or makes it the status it was given;
  Get answers with the object that is stored.
\<close>

definition patch_law :: "('w \<Rightarrow> horizon option) \<Rightarrow> 'w api \<Rightarrow> bool" where
  "patch_law obj A \<longleftrightarrow> (\<forall>h w err w'. ap_PatchInstance A h w = (err, w') \<longrightarrow>
     undisturbed obj w w' \<or> (\<exists>k. obj w' = Some k \<and> hz_status k = hz_status h))"

definition get_law :: "('w \<Rightarrow> horizon option) \<Rightarrow> 'w api \<Rightarrow> bool" where
  "get_law obj A \<longleftrightarrow> (\<forall>nm ns w h w'. ap_Get A nm ns w = (Inr h, w') \<longrightarrow> obj w' = Some h)"

definition stores :: "('w \<Rightarrow> horizon option) \<Rightarrow> 'w api \<Rightarrow> bool" where
  "stores obj A \<longleftrightarrow> calls_leave obj A \<and> patch_law obj A \<and> get_law obj A"

definition without_status :: "horizon option \<Rightarrow> bool" where
  "without_status x \<longleftrightarrow> (case x of None \<Rightarrow> True | Some h \<Rightarrow> st_conditions (hz_status h) = None)"

text \<open>A state is the cluster and the log of all writes of the operator so far.\<close>

inductive reachable ::
  "cond_lib \<Rightarrow> env_lib \<Rightarrow> 'w api \<Rightarrow> string \<Rightarrow> string \<Rightarrow> ('w \<Rightarrow> horizon option) \<Rightarrow> 'w \<Rightarrow> cluster_write list \<Rightarrow> bool"
  for C K A nm ns obj where
  start: "without_status (obj w) \<Longrightarrow> reachable C K A nm ns obj w []"
| pass: "reachable C K A nm ns obj w L \<Longrightarrow>
    Reconcile C K (traced A) nm ns (w, []) = (e, (w', l)) \<Longrightarrow> reachable C K A nm ns obj w' (L @ l)"
| others: "reachable C K A nm ns obj w L \<Longrightarrow> undisturbed obj w w' \<Longrightarrow> reachable C K A nm ns obj w' L"

inductive_cases reachable_cases: "reachable C K A nm ns obj w L"

text \<open>The Deployment that is in force: the last one that was written.\<close>

fun last_deployment :: "cluster_write list \<Rightarrow> deployment option" where
  "last_deployment [] = None"
| "last_deployment (e # l) = (case last_deployment l of
     Some d \<Rightarrow> Some d
   | None \<Rightarrow> (case e of WDeployment d x \<Rightarrow> Some d | _ \<Rightarrow> None))"

lemma last_deployment_append:
  "last_deployment (L @ l) = (case last_deployment l of None \<Rightarrow> last_deployment L | Some d \<Rightarrow> Some d)"
  by (induction L) (auto split: option.split)

lemma last_deployment_in: "last_deployment l = Some d \<Longrightarrow> d \<in> deployments l"
  by (induction l) (fastforce simp: deployments_def split: option.splits cluster_write.splits)+

lemma last_deployment_ex: "deployments l \<noteq> {} \<Longrightarrow> \<exists>d. last_deployment l = Some d"
proof (induction l)
  case (Cons e l)
  then show ?case
    by (cases "deployments l = {}") (auto simp: deployments_def split: option.split cluster_write.split)
qed (simp add: deployments_def)

section \<open>What the status of the stored object means\<close>

definition in_force :: "env_lib \<Rightarrow> horizon_status \<Rightarrow> cluster_write list \<Rightarrow> bool" where
  "in_force K st L \<longleftrightarrow> (\<exists>hash d. hash_map st (el_InputHashName K) = Some hash \<and>
     last_deployment L = Some d \<and> stamped hash d)"

definition meaningful :: "env_lib \<Rightarrow> horizon_status \<Rightarrow> cluster_write list \<Rightarrow> bool" where
  "meaningful K st L \<longleftrightarrow> st_conditions st = None \<or>
     truthful (conds_of st) \<and> (status_of (conds_of st) Ready = Some CTrue \<longrightarrow> in_force K st L)"

definition sound :: "env_lib \<Rightarrow> ('w \<Rightarrow> horizon option) \<Rightarrow> 'w \<Rightarrow> cluster_write list \<Rightarrow> bool" where
  "sound K obj w L \<longleftrightarrow> (\<forall>h. obj w = Some h \<longrightarrow> meaningful K (hz_status h) L)"

lemma sound_others:
  assumes "sound K obj w L" and "undisturbed obj w w'"
  shows "sound K obj w' L"
  unfolding sound_def
proof (intro allI impI)
  fix k assume k: "obj w' = Some k"
  show "meaningful K (hz_status k) L"
  proof (cases "st_conditions (hz_status k) = None")
    case False
    with undisturbedD[OF assms(2) k] obtain h where "obj w = Some h" "hz_status k = hz_status h" by blast
    with assms(1) show ?thesis by (simp add: sound_def)
  qed (simp add: meaningful_def)
qed

text \<open>More Deployments with the recorded hash keep it in force.\<close>

lemma in_force_append:
  assumes "in_force K st L"
    and "\<And>d. d \<in> deployments l \<Longrightarrow> \<exists>h. hash_map st (el_InputHashName K) = Some h \<and> stamped h d"
  shows "in_force K st (L @ l)"
proof (cases "last_deployment l")
  case None
  with assms(1) show ?thesis by (simp add: in_force_def last_deployment_append)
next
  case (Some d)
  with assms(2)[OF last_deployment_in[OF Some]] show ?thesis
    by (auto simp: in_force_def last_deployment_append)
qed

lemma in_force_new:
  assumes "deployments l \<noteq> {}"
    and "\<And>d. d \<in> deployments l \<Longrightarrow> \<exists>h. hash_map st (el_InputHashName K) = Some h \<and> stamped h d"
  shows "in_force K st (L @ l)"
proof -
  obtain d where d: "last_deployment l = Some d" using last_deployment_ex[OF assms(1)] by blast
  with assms(2)[OF last_deployment_in[OF d]] show ?thesis
    by (auto simp: in_force_def last_deployment_append)
qed

section \<open>One pass\<close>

text \<open>What one pass does to the stored status and the log.\<close>

definition pass_effect ::
  "env_lib \<Rightarrow> ('w \<Rightarrow> horizon option) \<Rightarrow> 'w \<Rightarrow> 'w \<Rightarrow> cluster_write list \<Rightarrow> bool" where
  "pass_effect K obj w w' l \<longleftrightarrow>
     undisturbed obj w w' \<and> l = [] \<or>
     (\<exists>inst w1 v. undisturbed obj w w1 \<and> obj w1 = Some inst \<and> undisturbed obj w1 v \<and>
        (\<forall>d \<in> deployments l. \<exists>h. hash_map (hz_status inst) (el_InputHashName K) = Some h \<and> stamped h d) \<and>
        (undisturbed obj v w' \<or>
         (\<exists>k. obj w' = Some k \<and> truthful (conds_of (hz_status k)) \<and>
            (status_of (conds_of (hz_status k)) Ready = Some CTrue \<longrightarrow> deployments l \<noteq> {} \<and>
               hash_map (hz_status k) (el_InputHashName K) = hash_map (hz_status inst) (el_InputHashName K)))))"

lemma patch_keeps_hash: "hash_map (hz_status (patch_object C saved i)) = hash_map (hz_status i)"
  by (simp add: patch_object_def Let_def hash_map_def)

lemma start_recorded: "before_rollout K (hash_map (hz_status i) (el_InputHashName K)) 0 (start_state i (w, []))"
  by (simp add: before_rollout_def start_below recorded_def hash_map_def)

lemma pass_has_effect:
  fixes A :: "'w api"
  assumes C: "cond_laws C" and rbac: "rbac_reports A" and st: "stores obj A" and K: "set_hash_law K"
    and M: "merge_envs_law (el_pod K)" and T: "topologies_place A"
    and run: "Reconcile C K (traced A) nm ns (w, []) = (e, (w', l))"
  shows "pass_effect K obj w w' l"
proof -
  let ?o = "\<lambda>v. obj (fst v)"
  let ?h = "\<lambda>inst. hash_map (hz_status inst) (el_InputHashName K)"
  have calls: "calls_leave obj A" and patch: "patch_law obj A" and get: "get_law obj A"
    using st by (simp_all add: stores_def)
  note calls' = calls_leave_traced[OF calls]
  define Q where "Q = (\<lambda>inst (s :: 'w logged rstate). settled s \<and> confirmed K s \<and>
     deploys_ok (?h inst) s \<and> tied K (?h inst) s \<and>
     (\<exists>w1. undisturbed obj w w1 \<and> obj w1 = Some inst \<and> undisturbed obj w1 (fst (rs_world s))))"
  have got: "undisturbed obj w (fst w1) \<and> obj (fst w1) = Some inst"
    if g: "ap_Get (traced A) nm ns (w, []) = (Inr inst, w1)" for inst w1
  proof -
    obtain v where v: "ap_Get A nm ns w = (Inr inst, v)" "w1 = (v, [])" using g by (auto simp: traced_get)
    with leavesD[OF calls_leaveD(1)[OF calls] v(1)] get show ?thesis by (auto simp: get_law_def)
  qed
  have body: "triple (\<lambda>s. s = start_state inst w2) (reconcile_body C K (traced A) hp (is_new inst))
      (\<lambda>_. Q inst) (Q inst)"
    if g: "ap_Get (traced A) nm ns (w, []) = (Inr inst, w1)" and h: "ap_NewHelper (traced A) inst w1 = (Inr hp, w2)"
    for inst w1 hp w2
  proof -
    have w2: "undisturbed obj (fst w1) (fst w2)"
      using leavesD[OF calls_leaveD(2)[OF calls'] h] by (simp add: undisturbed_fst)
    obtain v2 where v2: "w2 = (v2, [])" using g h by (auto simp: traced_get)
    let ?P = "\<lambda>s. s = start_state inst w2"
    have P: "before_rollout K (?h inst) 0 s" if "?P s" for s using that start_recorded v2 by simp
    have t1: "triple ?P (reconcile_body C K (traced A) hp (is_new inst)) (\<lambda>_ s. settled s \<and> confirmed K s)
        (\<lambda>s. settled s \<and> confirmed K s)"
      by (rule triple_conj[OF body_settled[OF C rbac_reports_traced[OF rbac]]
            confirmed_body[OF C rbac_reports_traced[OF rbac]]])
    have t2: "triple ?P (reconcile_body C K (traced A) hp (is_new inst))
        (\<lambda>_ s. deploys_ok (?h inst) s \<and> tied K (?h inst) s) (\<lambda>s. deploys_ok (?h inst) s \<and> tied K (?h inst) s)"
      by (rule triple_weaken[OF triple_conj[OF deploys_body[OF K M T] tied_body[OF K]]]) (use P in auto)
    have t3: "triple ?P (reconcile_body C K (traced A) hp (is_new inst))
        (\<lambda>_ s. undisturbed obj (fst w1) (fst (rs_world s))) (\<lambda>s. undisturbed obj (fst w1) (fst (rs_world s)))"
      by (rule triple_weaken[OF keeps_triple[OF world_body[OF calls'],
            where P = "\<lambda>s. undisturbed obj (fst w1) (fst (rs_world s))"]])
        (use w2 in \<open>auto simp: world_rel_def undisturbed_fst intro: undisturbed_trans\<close>)
    show ?thesis
      by (rule triple_weaken[OF triple_conj[OF t1 triple_conj[OF t2 t3]]])
        (use got[OF g] in \<open>auto simp: Q_def\<close>)
  qed
  from run show ?thesis
  proof (rule Reconcile_ends[where Q = Q, OF _ body])
    fix r inst w1 err
    assume "ap_Get (traced A) nm ns (w, []) = (Inl err, (w', l)) \<or>
      ap_Get (traced A) nm ns (w, []) = (Inr inst, w1) \<and> ap_NewHelper (traced A) inst w1 = (Inl err, (w', l))"
    then have "undisturbed obj w w' \<and> l = []"
    proof
      assume "ap_Get (traced A) nm ns (w, []) = (Inl err, (w', l))"
      then show ?thesis using leavesD[OF calls_leaveD(1)[OF calls]] by (auto simp: traced_get)
    next
      assume "ap_Get (traced A) nm ns (w, []) = (Inr inst, w1) \<and> ap_NewHelper (traced A) inst w1 = (Inl err, (w', l))"
      then obtain v where "ap_Get A nm ns w = (Inr inst, v)" "ap_NewHelper A inst v = (Inl err, w')" "l = []"
        by (auto simp: traced_get)
      then show ?thesis
        using leavesD[OF calls_leaveD(1)[OF calls]] leavesD[OF calls_leaveD(2)[OF calls]]
        by (blast intro: undisturbed_trans)
    qed
    then show ?thesis by (simp add: pass_effect_def)
  next
    fix p inst w1 and s :: "'w logged rstate"
    assume "Q inst s" and "(w', l) = rs_world s"
    then have "rs_world s = (w', l)" by simp
    with \<open>Q inst s\<close> obtain w1' where "undisturbed obj w w1'" "obj w1' = Some inst" "undisturbed obj w1' w'"
      and "\<forall>d \<in> deployments l. \<exists>h. ?h inst = Some h \<and> stamped h d"
      by (auto simp: Q_def deploys_ok_def log_of_def)
    then show ?thesis
      unfolding pass_effect_def by (intro disjI2 exI[of _ inst] exI[of _ w1'] exI[of _ w']) simp
  next
    fix inst w1 r err and s :: "'w logged rstate"
    let ?k = "patch_object C (saved_of inst) (rs_inst s)"
    assume Q: "Q inst s" and p: "ap_PatchInstance (traced A) ?k (rs_world s) = (err, (w', l))"
    obtain v l' where s: "rs_world s = (v, l')" by fastforce
    have l: "l = l' @ [WPatch ?k]" and pa: "ap_PatchInstance A ?k v = (err, w')"
      using p s by (auto simp: traced_patch)
    have dl: "deployments l = deployments l'" by (auto simp: deployments_def l)
    have tr: "truthful (conds_of (hz_status ?k))"
      using Q patch_truthful[OF C] by (simp add: Q_def settled_def conds_def)
    have ready: "deployments l \<noteq> {} \<and> ?h ?k = ?h inst" if "status_of (conds_of (hz_status ?k)) Ready = Some CTrue"
    proof -
      have "status_of (conds_of (hz_status ?k)) DeploymentReady = Some CTrue"
        using tr that by (simp add: truthful_def pipeline_def)
      then have "\<not> no_claim s" using patch_keeps_claim[OF C] by (simp add: no_claim_def conds_def)
      with Q have "deployments l' \<noteq> {}" by (auto simp: Q_def confirmed_def read_back_def log_of_def s deployments_def)
      with Q have "recorded K (?h inst) s" by (simp add: Q_def tied_def log_of_def s)
      with \<open>deployments l' \<noteq> {}\<close> show ?thesis by (simp add: dl recorded_def patch_keeps_hash)
    qed
    have "undisturbed obj v w' \<or> (\<exists>k. obj w' = Some k \<and> hz_status k = hz_status ?k)"
      using patch pa by (simp add: patch_law_def)
    moreover have "\<forall>d \<in> deployments l. \<exists>h. ?h inst = Some h \<and> stamped h d"
      using Q by (simp add: Q_def deploys_ok_def log_of_def s dl)
    moreover obtain w1' where "undisturbed obj w w1'" "obj w1' = Some inst" "undisturbed obj w1' v"
      using Q s by (auto simp: Q_def)
    ultimately show ?thesis using tr ready unfolding pass_effect_def by (metis (no_types, lifting))
  qed simp_all
qed

lemma sound_pass:
  assumes snd: "sound K obj w L" and eff: "pass_effect K obj w w' l"
  shows "sound K obj w' (L @ l)"
  using eff unfolding pass_effect_def
proof (elim disjE conjE exE)
  assume "undisturbed obj w w'" and "l = []"
  with sound_others[OF snd] show ?thesis by simp
next
  fix inst w1 v
  assume w1: "undisturbed obj w w1" "obj w1 = Some inst" and v: "undisturbed obj w1 v"
    and dep: "\<forall>d \<in> deployments l. \<exists>h. hash_map (hz_status inst) (el_InputHashName K) = Some h \<and> stamped h d"
    and "undisturbed obj v w'"
  then have w': "undisturbed obj w1 w'" by (blast intro: undisturbed_trans)
  have m: "meaningful K (hz_status inst) L" using sound_others[OF snd w1(1)] w1(2) by (simp add: sound_def)
  show ?thesis
    unfolding sound_def
  proof (intro allI impI)
    fix k assume k: "obj w' = Some k"
    show "meaningful K (hz_status k) (L @ l)"
    proof (cases "st_conditions (hz_status k) = None")
      case False
      with undisturbedD[OF w' k] w1(2) have st: "hz_status k = hz_status inst" by auto
      with m False show ?thesis using dep by (auto simp: meaningful_def intro!: in_force_append)
    qed (simp add: meaningful_def)
  qed
next
  fix inst w1 v k
  assume dep: "\<forall>d \<in> deployments l. \<exists>h. hash_map (hz_status inst) (el_InputHashName K) = Some h \<and> stamped h d"
    and k: "obj w' = Some k" "truthful (conds_of (hz_status k))"
    and ready: "status_of (conds_of (hz_status k)) Ready = Some CTrue \<longrightarrow> deployments l \<noteq> {} \<and>
      hash_map (hz_status k) (el_InputHashName K) = hash_map (hz_status inst) (el_InputHashName K)"
  then show ?thesis by (auto simp: sound_def meaningful_def intro!: in_force_new)
qed

section \<open>Every reachable state\<close>

lemma reachable_sound:
  assumes "cond_laws C" and "rbac_reports A" and "stores obj A" and "set_hash_law K"
    and "merge_envs_law (el_pod K)" and "topologies_place A"
    and "reachable C K A nm ns obj w L"
  shows "sound K obj w L"
  using assms(7)
proof (induction rule: reachable.induct)
  case (start w)
  then show ?case by (auto simp: sound_def meaningful_def without_status_def)
next
  case (pass w L e w' l)
  then show ?case using sound_pass[OF _ pass_has_effect[OF assms(1-6)]] by blast
next
  case (others w L w')
  then show ?case by (auto intro: sound_others)
qed

text \<open>
  C1. Ready means ready, at all times: in every cluster that passes of the operator and the other
  actors can lead to, in whatever order, a stored Horizon object whose Ready condition is True has
  every condition of the pipeline and every other condition present True, and the Deployment that
  was written last carries exactly the input hash its status records.
\<close>

lemma reachable_ready:
  assumes "cond_laws C" and "rbac_reports A" and "stores obj A" and "set_hash_law K"
    and "merge_envs_law (el_pod K)" and "topologies_place A"
    and "reachable C K A nm ns obj w L" and "obj w = Some h"
    and "status_of (conds_of (hz_status h)) Ready = Some CTrue"
  shows "(\<forall>t \<in> pipeline. status_of (conds_of (hz_status h)) t = Some CTrue) \<and>
    (\<forall>t. status_of (conds_of (hz_status h)) t \<in> {None, Some CTrue}) \<and>
    (\<exists>hash d. hash_map (hz_status h) (el_InputHashName K) = Some hash \<and>
       last_deployment L = Some d \<and> stamped hash d)"
proof -
  have m: "meaningful K (hz_status h) L"
    using reachable_sound[OF assms(1-7)] assms(8) by (simp add: sound_def)
  have "st_conditions (hz_status h) \<noteq> None"
    using assms(9) by (auto simp: conds_of_def status_of_def split: option.splits)
  with m assms(9) show ?thesis
    unfolding meaningful_def in_force_def truthful_def by (metis insertI1 insertI2)
qed


section \<open>A cluster that stores the object\<close>

text \<open>The sample cluster, with the Horizon object as its state.\<close>

definition answer :: "(unit \<Rightarrow> 'a \<times> unit) \<Rightarrow> 'w \<Rightarrow> 'a \<times> 'w" where
  "answer f w = (fst (f ()), w)"

definition stored_api :: "horizon option api" where
  "stored_api =
     \<lparr>ap_Get = (\<lambda>nm ns w. (case w of None \<Rightarrow> Inl (NotFound nm) | Some h \<Rightarrow> Inr h, w)),
      ap_NewHelper = (\<lambda>h. answer (ap_NewHelper sample_api h)),
      ap_PatchInstance = (\<lambda>h w. (None, Some h)),
      ap_EnsureDeletedTopologyRef = (\<lambda>r nm. answer (ap_EnsureDeletedTopologyRef sample_api r nm)),
      ap_ReconcileRbac = (\<lambda>ns nm rules. answer (ap_ReconcileRbac sample_api ns nm rules)),
      ap_GetSecret = (\<lambda>nm ns. answer (ap_GetSecret sample_api nm ns)),
      ap_GetMemcachedByName = (\<lambda>nm ns. answer (ap_GetMemcachedByName sample_api nm ns)),
      ap_ValidateCACertSecret = (\<lambda>nm ns. answer (ap_ValidateCACertSecret sample_api nm ns)),
      ap_ValidateCertSecret = (\<lambda>t ns. answer (ap_ValidateCertSecret sample_api t ns)),
      ap_GetKeystoneAPI = (\<lambda>ns. answer (ap_GetKeystoneAPI sample_api ns)),
      ap_GetKeystoneServiceWithName = (\<lambda>nm ns. answer (ap_GetKeystoneServiceWithName sample_api nm ns)),
      ap_EnsureConfigMaps = (\<lambda>ts v. answer (ap_EnsureConfigMaps sample_api ts v)),
      ap_EnsureSecrets = (\<lambda>ts v. answer (ap_EnsureSecrets sample_api ts v)),
      ap_GeneratePassword = (\<lambda>n. answer (ap_GeneratePassword sample_api n)),
      ap_ServiceCreateOrPatch = (\<lambda>s. answer (ap_ServiceCreateOrPatch sample_api s)),
      ap_GetNADWithName = (\<lambda>nm ns. answer (ap_GetNADWithName sample_api nm ns)),
      ap_EnsureServiceTopology = (\<lambda>r lat nm sel. answer (ap_EnsureServiceTopology sample_api r lat nm sel)),
      ap_DeploymentCreateOrPatch = (\<lambda>d n. answer (ap_DeploymentCreateOrPatch sample_api d n)),
      ap_VerifyNetworkStatus = (\<lambda>na l n. answer (ap_VerifyNetworkStatus sample_api na l n))\<rparr>"

lemma stored_stores: "stores id stored_api"
proof -
  have "calls_leave id stored_api" by (simp add: calls_leave_def stored_api_def leaves_def answer_def)
  then show ?thesis by (auto simp: stores_def patch_law_def get_law_def stored_api_def split: option.splits)
qed

lemma stored_rbac: "rbac_reports stored_api"
  using sample_rbac by (simp add: rbac_reports_def stored_api_def answer_def) (metis prod.collapse old.unit.exhaust)

lemma stored_topologies: "topologies_place stored_api"
  using sample_topologies
  by (simp add: topologies_place_def stored_api_def answer_def) (metis prod.collapse old.unit.exhaust)

text \<open>Three passes over a new object.\<close>

fun sample_passes :: "nat \<Rightarrow> horizon option \<Rightarrow> cluster_write list \<Rightarrow> horizon option \<times> cluster_write list" where
  "sample_passes 0 w L = (w, L)"
| "sample_passes (Suc n) w L =
     (case Reconcile list_cond_lib sample_env (traced stored_api) ''horizon'' ''openstack'' (w, []) of
        (e, (w', l)) \<Rightarrow> sample_passes n w' (L @ l))"

lemma sample_passes_reachable:
  assumes "reachable list_cond_lib sample_env stored_api ''horizon'' ''openstack'' id w L"
  shows "reachable list_cond_lib sample_env stored_api ''horizon'' ''openstack'' id
    (fst (sample_passes n w L)) (snd (sample_passes n w L))"
  using assms
proof (induction n arbitrary: w L)
  case (Suc n)
  obtain e w' l where run: "Reconcile list_cond_lib sample_env (traced stored_api) ''horizon'' ''openstack'' (w, [])
      = (e, (w', l))" by (metis prod.collapse)
  from Suc.IH[OF reachable.pass[OF Suc.prems run]] show ?case by (simp add: run)
qed simp

lemma sample_passes_value:
  "case fst (sample_passes 3 (Some new_horizon) []) of None \<Rightarrow> False
   | Some h \<Rightarrow> status_of (conds_of (hz_status h)) Ready = Some CTrue \<and>
       hash_map (hz_status h) ''input'' = Some ''h1''"
  by code_simp

lemma reachable_ready_witness:
  "\<exists>h d. fst (sample_passes 3 (Some new_horizon) []) = Some h \<and>
     status_of (conds_of (hz_status h)) DeploymentReady = Some CTrue \<and>
     last_deployment (snd (sample_passes 3 (Some new_horizon) [])) = Some d \<and> stamped ''h1'' d"
proof -
  obtain h where h: "fst (sample_passes 3 (Some new_horizon) []) = Some h"
    and ready: "status_of (conds_of (hz_status h)) Ready = Some CTrue"
    and hash: "hash_map (hz_status h) ''input'' = Some ''h1''"
    using sample_passes_value by (auto split: option.splits)
  have "reachable list_cond_lib sample_env stored_api ''horizon'' ''openstack'' id (Some new_horizon) []"
    by (rule reachable.start) (simp add: without_status_def new_horizon_def)
  note reach = sample_passes_reachable[OF this, of 3]
  have M: "merge_envs_law (el_pod sample_env)" using sample_merge_law by (simp add: sample_env_def)
  have "id (fst (sample_passes 3 (Some new_horizon) [])) = Some h" using h by simp
  from reachable_ready[OF list_cond_laws stored_rbac stored_stores sample_set_hash_law M stored_topologies
      reach this ready]
  obtain d hash' where "last_deployment (snd (sample_passes 3 (Some new_horizon) [])) = Some d"
    and "stamped hash' d" and "hash_map (hz_status h) ''input'' = Some hash'"
    and "status_of (conds_of (hz_status h)) DeploymentReady = Some CTrue"
    by (auto simp: pipeline_def sample_env_def)
  with h hash show ?thesis by auto
qed

end
