(* ===== verification/Convergence.thy ===== *)
theory Convergence
  imports Settled_Pass Cluster_Machine
begin

text \<open>
  Passes over one Horizon object in a settled cluster. Each pass refines a step of a small
  abstract machine (is the object started, which hash is recorded, which endpoint is stored), and
  the machine reaches its fixed point in four steps; from the fifth pass on the object is Ready.
\<close>

section \<open>The hypotheses\<close>

text \<open>Init touches the conditions of its list and Ready; any other it keeps or drops.\<close>

definition init_law :: "cond_lib \<Rightarrow> bool" where
  "init_law C \<longleftrightarrow> (\<forall>cs is t. t \<notin> c_type ` set is \<longrightarrow> t \<noteq> Ready \<longrightarrow>
     status_of (cl_init C cs is) t \<in> {None, status_of cs t})"

text \<open>AddFinalizer adds the finalizer when it is missing, and says so.\<close>

definition finalizer_law :: "env_lib \<Rightarrow> string \<Rightarrow> bool" where
  "finalizer_law K f \<longleftrightarrow> (\<forall>fs. f \<in> set (fst (el_AddFinalizer K fs f)) \<and>
     snd (el_AddFinalizer K fs f) = (f \<notin> set fs) \<and> (f \<in> set fs \<longrightarrow> fst (el_AddFinalizer K fs f) = fs))"

text \<open>The store: Get answers with the object, PatchInstance stores it.\<close>

definition store_works :: "('w \<Rightarrow> bool) \<Rightarrow> ('w \<Rightarrow> horizon option) \<Rightarrow> 'w api \<Rightarrow> string \<Rightarrow> string \<Rightarrow> bool" where
  "store_works S obj A nm ns \<longleftrightarrow>
     (\<forall>w h. S w \<longrightarrow> obj w = Some h \<longrightarrow> fst (ap_Get A nm ns w) = Inr h \<and> S (snd (ap_Get A nm ns w))) \<and>
     (\<forall>w h. S w \<longrightarrow> fst (ap_PatchInstance A h w) = None \<and> obj (snd (ap_PatchInstance A h w)) = Some h \<and>
        S (snd (ap_PatchInstance A h w)))"

definition settled_cluster :: "('w \<Rightarrow> bool) \<Rightarrow> env_lib \<Rightarrow> 'w api \<Rightarrow> answers \<Rightarrow> horizon \<Rightarrow> bool" where
  "settled_cluster S K A q i \<longleftrightarrow> (\<forall>h. like i h \<longrightarrow> settled_inputs S K A q h \<and> settled_rollout S K A q h) \<and>
     rbac_true (an_rbac q) \<and> finalizer_law K (hp_GetFinalizer (an_helper q))"

text \<open>With endpoint \<open>e\<close> in the status the configuration can be rendered and hashed.\<close>

definition renders :: "('w \<Rightarrow> bool) \<Rightarrow> env_lib \<Rightarrow> 'w api \<Rightarrow> answers \<Rightarrow> horizon \<Rightarrow> string \<Rightarrow> bool" where
  "renders S K A q i e \<longleftrightarrow> (\<forall>h. like i h \<longrightarrow> st_endpoint (hz_status h) = e \<longrightarrow> settled_config S K A q h) \<and>
     (\<exists>hash. el_ObjectHash K (pl_MergeEnvs (el_pod K) (an_config q e (input_vars K q i))) = Inr hash)"

definition input_hash :: "env_lib \<Rightarrow> answers \<Rightarrow> horizon \<Rightarrow> string \<Rightarrow> string" where
  "input_hash K q i e = (case el_ObjectHash K (pl_MergeEnvs (el_pod K) (an_config q e (input_vars K q i))) of
     Inl err \<Rightarrow> '''' | Inr hash \<Rightarrow> hash)"

lemma renders_hash:
  "renders S K A q i e \<Longrightarrow>
     el_ObjectHash K (pl_MergeEnvs (el_pod K) (an_config q e (input_vars K q i))) = Inr (input_hash K q i e)"
  by (auto simp: renders_def input_hash_def)

section \<open>The stored object\<close>

definition tidy :: "conditions \<Rightarrow> bool" where
  "tidy cs \<longleftrightarrow> (\<forall>u. u \<notin> insert Ready pipeline \<union> rbac_types \<longrightarrow> status_of cs u \<in> {None, Some CTrue})"

definition tended :: "horizon \<Rightarrow> horizon \<Rightarrow> bool" where
  "tended i h \<longleftrightarrow> like i h \<and> hz_deletionTimestamp h = None \<and> tidy (conds_of (hz_status h))"

definition started :: "answers \<Rightarrow> horizon \<Rightarrow> bool" where
  "started q h \<longleftrightarrow> st_conditions (hz_status h) \<noteq> None \<and> hp_GetFinalizer (an_helper q) \<in> set (hz_finalizers h)"

lemma tidy_init:
  assumes "cond_laws C" and "init_law C" and "tidy cs"
  shows "tidy (cl_init C cs (init_list C))"
  unfolding tidy_def
proof (intro allI impI)
  fix u assume u: "u \<notin> insert Ready pipeline \<union> rbac_types"
  have "c_type ` set (init_list C) = fst ` set init_types"
    using arg_cong[OF init_list_view(1)[OF assms(1)], of set] by simp
  then have "c_type ` set (init_list C) = pipeline \<union> rbac_types"
    using init_types_cases by (simp add: rbac_types_def)
  with u have "u \<notin> c_type ` set (init_list C)" and "u \<noteq> Ready" by auto
  then have "status_of (cl_init C cs (init_list C)) u \<in> {None, status_of cs u}"
    using assms(2) unfolding init_law_def by blast
  then show "status_of (cl_init C cs (init_list C)) u \<in> {None, Some CTrue}"
    using assms(3) u by (auto simp: tidy_def)
qed

lemma opened_fields:
  "like i (opened C K hp inst) = like i inst"
  "hz_deletionTimestamp (opened C K hp inst) = hz_deletionTimestamp inst"
  "hash_map (hz_status (opened C K hp inst)) = hash_map (hz_status inst)"
  "st_endpoint (hz_status (opened C K hp inst)) = st_endpoint (hz_status inst)"
  by (simp_all add: opened_def Let_def like_def hash_map_def start_object_def)

lemma opened_started:
  assumes "finalizer_law K (hp_GetFinalizer hp)" and "hz_deletionTimestamp inst = None"
  shows "hp_GetFinalizer hp \<in> set (hz_finalizers (opened C K hp inst))"
    and "st_conditions (hz_status (opened C K hp inst)) \<noteq> None"
    and "hp_GetFinalizer hp \<in> set (hz_finalizers inst) \<Longrightarrow> hz_finalizers (opened C K hp inst) = hz_finalizers inst"
  using assms by (simp_all add: opened_def Let_def is_zero_time_def finalizer_law_def status_cond_def)

lemma opened_fresh:
  assumes "cond_laws C"
  shows "fresh (opened C K hp inst)"
proof -
  have "st_conditions (hz_status (opened C K hp inst)) = Some (cl_init C (saved_of inst) (init_list C))"
    by (simp add: opened_def Let_def saved_of_def status_cond_def)
  then show ?thesis
    using status_after_init[OF assms] by (auto simp: fresh_def init_types_cases rbac_types_def)
qed

text \<open>The deferred patch changes Ready only, and only when it is Unknown.\<close>

lemma patched_status:
  assumes "cond_laws C"
  shows "u \<noteq> Ready \<Longrightarrow> status_of (conds_of (hz_status (patch_object C sv h))) u = status_of (conds_of (hz_status h)) u"
    and "status_of (conds_of (hz_status h)) Ready = Some CTrue \<Longrightarrow>
      status_of (conds_of (hz_status (patch_object C sv h))) Ready = Some CTrue"
    and "status_of (conds_of (hz_status h)) Ready = Some CUnknown \<Longrightarrow> \<not> others_true (conds_of (hz_status h)) Ready \<Longrightarrow>
      status_of (conds_of (hz_status (patch_object C sv h))) Ready \<noteq> Some CTrue"
proof -
  let ?cs = "conds_of (hz_status h)"
  let ?ds = "cl_restore C ?cs sv"
  have st: "status_of ?ds u = status_of ?cs u" for u by (rule status_restore[OF assms])
  show "u \<noteq> Ready \<Longrightarrow> status_of (conds_of (hz_status (patch_object C sv h))) u = status_of ?cs u"
    by (simp add: patch_object_def Let_def status_set[OF assms] cond_type_laws(4)[OF assms] st)
  show "status_of ?cs Ready = Some CTrue \<Longrightarrow> status_of (conds_of (hz_status (patch_object C sv h))) Ready = Some CTrue"
    by (simp add: patch_object_def Let_def cond_list_laws(7)[OF assms] st)
  assume ready: "status_of ?cs Ready = Some CUnknown" and not: "\<not> others_true ?cs Ready"
  have "\<not> others_true ?ds Ready"
  proof
    assume all: "others_true ?ds Ready"
    have "status_of ?cs (c_type c) = Some CTrue" if "c \<in> set ?cs" and "c_type c \<noteq> Ready" for c
      using others_true_status[OF all that(2)] status_in[OF that(1)] st by (metis option.exhaust)
    with not show False by (auto simp: others_true_def)
  qed
  then have "c_status (cl_mirror C ?ds Ready) \<noteq> CTrue" using cond_mirror_true[OF assms] by blast
  with ready show "status_of (conds_of (hz_status (patch_object C sv h))) Ready \<noteq> Some CTrue"
    by (simp add: patch_object_def Let_def cond_list_laws(7)[OF assms] st status_set[OF assms] cond_type_laws(4)[OF assms])
qed

lemma unready_patched:
  assumes "cond_laws C" and "status_of (conds_of (hz_status h)) DeploymentReady = Some CUnknown"
    and "status_of (conds_of (hz_status h)) Ready = Some CUnknown"
  shows "status_of (conds_of (hz_status (patch_object C sv h))) Ready \<noteq> Some CTrue"
proof -
  have "\<not> others_true (conds_of (hz_status h)) Ready"
    using others_true_status[of "conds_of (hz_status h)" Ready DeploymentReady CUnknown] assms(2) by auto
  then show ?thesis by (rule patched_status(3)[OF assms(1,3)])
qed

lemma fresh_unknown:
  assumes "fresh h"
  shows "status_of (conds_of (hz_status h)) DeploymentReady = Some CUnknown"
    and "status_of (conds_of (hz_status h)) Ready = Some CUnknown"
  using assms by (auto simp: fresh_def conds_of_def pipeline_def)

lemma patched_fields [simp]:
  "like i (patch_object C sv h) = like i h" "hz_deletionTimestamp (patch_object C sv h) = hz_deletionTimestamp h"
  "hz_finalizers (patch_object C sv h) = hz_finalizers h"
  "hash_map (hz_status (patch_object C sv h)) = hash_map (hz_status h)"
  "st_endpoint (hz_status (patch_object C sv h)) = st_endpoint (hz_status h)"
  "\<exists>cs. st_conditions (hz_status (patch_object C sv h)) = Some cs"
  by (simp_all add: patch_object_def Let_def hash_map_def status_cond_def)

lemma tidy_patched:
  assumes "cond_laws C"
  shows "tidy (conds_of (hz_status (patch_object C sv h))) = tidy (conds_of (hz_status h))"
  unfolding tidy_def using patched_status(1)[OF assms] by (metis UnCI insertI1)

section \<open>Role-based access\<close>

lemma rbac_fold_status:
  assumes C: "cond_laws C" and "fresh h" and "\<forall>c \<in> set cs. c_type c \<in> rbac_types \<and> c_status c = CTrue"
  shows "fresh (fold (\<lambda>c h. RbacConditionsSet C h c) cs h) \<and>
    status_of (conds_of (hz_status (fold (\<lambda>c h. RbacConditionsSet C h c) cs h))) u =
      (if u \<in> c_type ` set cs then Some CTrue else status_of (conds_of (hz_status h)) u)"
  using assms(2,3)
proof (induction cs arbitrary: h)
  case Nil
  then show ?case by simp
next
  case (Cons c cs)
  let ?k = "RbacConditionsSet C h c"
  obtain ds where ds: "st_conditions (hz_status h) = Some ds" and set: "\<forall>t \<in> rbac_types. status_of ds t \<noteq> None"
    using Cons.prems(1) by (auto simp: fresh_def)
  have "cond_view ds (c_type c) \<noteq> None" using set Cons.prems(2) by (auto simp: status_of_def)
  then have one: "status_of (conds_of (hz_status ?k)) u =
      (if u = c_type c then Some CTrue else status_of (conds_of (hz_status h)) u)" for u
    using Cons.prems(2)
    by (simp add: RbacConditionsSet_def conds_of_def ds status_of_def cond_set_shared[OF C] fst_view_of)
  have "fresh ?k" using fresh_rbac_set[OF C Cons.prems(1)] Cons.prems(2) by simp
  from Cons.IH[OF this] Cons.prems(2) one show ?case by auto
qed

lemma rbac_fold_fields:
  "like i (fold (\<lambda>c h. RbacConditionsSet C h c) cs h) = like i h \<and>
   hz_deletionTimestamp (fold (\<lambda>c h. RbacConditionsSet C h c) cs h) = hz_deletionTimestamp h \<and>
   hz_finalizers (fold (\<lambda>c h. RbacConditionsSet C h c) cs h) = hz_finalizers h \<and>
   hash_map (hz_status (fold (\<lambda>c h. RbacConditionsSet C h c) cs h)) = hash_map (hz_status h) \<and>
   st_endpoint (hz_status (fold (\<lambda>c h. RbacConditionsSet C h c) cs h)) = st_endpoint (hz_status h)"
proof (induction cs arbitrary: h)
  case (Cons c cs)
  have "like i (RbacConditionsSet C h c) = like i h" by (simp add: like_def RbacConditionsSet_def)
  with Cons.IH[of "RbacConditionsSet C h c"] show ?case by (simp add: RbacConditionsSet_def hash_map_def)
qed simp

lemma rbac_run:
  assumes C: "cond_laws C" and H: "\<And>h. like i h \<Longrightarrow> settled_inputs S K A q h" and rb: "rbac_true (an_rbac q)"
    and f: "fresh (rs_inst s)" and t: "tended i (rs_inst s)" and w: "S (rs_world s)"
  shows "\<exists>s'. rbac_step C A s = (Next (), s') \<and> walk S K i (hz_finalizers (rs_inst s))
    (hash_map (hz_status (rs_inst s)) (el_InputHashName K)) (st_endpoint (hz_status (rs_inst s))) InputReady s'"
proof -
  let ?h = "rs_inst s"
  let ?k = "fold (\<lambda>c h. RbacConditionsSet C h c) (an_rbac q) ?h"
  have l: "like i ?h" using t by (simp add: tended_def)
  let ?g = "ap_ReconcileRbac A (RbacNamespace ?h) (RbacResourceName ?h) rbacRules"
  have call: "says S ?g (an_rbac q, (res0, None))" using H[OF l] by (simp add: settled_inputs_def)
  note got = saysD[OF call w]
  let ?s = "s\<lparr>rs_world := snd (?g (rs_world s)), rs_inst := ?k\<rparr>"
  have run: "rbac_step C A s = (Next (), ?s)"
    by (simp add: rbac_step_def configureHorizonRbac_def flow_simps split_beta got(2))
  have ok: "\<forall>c \<in> set (an_rbac q). c_type c \<in> rbac_types \<and> c_status c = CTrue" and all: "c_type ` set (an_rbac q) = rbac_types"
    using rb by (auto simp: rbac_true_def)
  note fold = rbac_fold_status[OF C f ok, unfolded all]
  have stage: "at_stage InputReady ?s" using fold by (intro fresh_stage) simp
  have "status_of (conds ?s) u \<in> {None, Some CTrue}" if "u \<notin> pipeline \<union> {Ready}" for u
    using fold[of u] t that by (auto simp: conds_def tended_def tidy_def)
  then have "side (conds ?s)" by (simp add: side_def)
  with stage have "walk S K i (hz_finalizers ?h) (hash_map (hz_status ?h) (el_InputHashName K))
      (st_endpoint (hz_status ?h)) InputReady ?s"
    using rbac_fold_fields[of i C "an_rbac q" ?h] t got(3) by (simp add: walk_def tended_def)
  with run show ?thesis by blast
qed

section \<open>One pass\<close>

text \<open>
  Looking the key up changes the variables by \<open>kv\<close> and leads from clusters with \<open>N\<close> to clusters
  with \<open>S\<close>; where the key is there, nothing changes.
\<close>

lemma normal_run:
  assumes C: "cond_laws C" and K: "set_hash_law K"
    and I: "\<And>h. like i h \<Longrightarrow> settled_inputs N K A q h" and O: "\<And>h. like i h \<Longrightarrow> settled_rollout S K A q h"
    and rb: "rbac_true (an_rbac q)"
    and render: "\<And>h. like i h \<Longrightarrow> st_endpoint (hz_status h) = st_endpoint (hz_status (rs_inst s)) \<Longrightarrow>
      settled_render N K A q h"
    and key: "\<And>s. like i (rs_inst s) \<Longrightarrow> N (rs_world s) \<Longrightarrow>
      \<exists>w. ensureHorizonSecret K A s = (Next None, s\<lparr>rs_world := w, rs_vars := kv (rs_vars s)\<rparr>) \<and> S w"
    and hash: "el_ObjectHash K (pl_MergeEnvs (el_pod K)
      (kv (an_config q (st_endpoint (hz_status (rs_inst s))) (input_vars K q i)))) = Inr hash"
    and f: "fresh (rs_inst s)" and t: "tended i (rs_inst s)" and w: "N (rs_world s)"
  defines "e \<equiv> st_endpoint (hz_status (rs_inst s))"
    and "h0 \<equiv> hash_map (hz_status (rs_inst s)) (el_InputHashName K)" and "fs \<equiv> hz_finalizers (rs_inst s)"
  shows "if h0 = Some hash
    then \<exists>s'. reconcileNormal C K A hp s = (Next (res0, None), s') \<and> rolled_out S K i fs h0 (an_endpoint q) s'
    else \<exists>s'. reconcileNormal C K A hp s = (Return (res0, None), s') \<and>
      walk S K i fs (Some hash) e ServiceConfigReady s'"
proof -
  obtain s1 where s1: "rbac_step C A s = (Next (), s1)" "walk N K i fs h0 e InputReady s1"
    using rbac_run[OF C I rb f t w] unfolding e_def h0_def fs_def by blast
  obtain x s2 where s2: "check_secret C A s1 = (Next x, s2)" "walk N K i fs h0 e MemcachedReady s2"
      "rs_vars s2 = Map.empty(sec_name (fst (an_secret q)) \<mapsto> snd (an_secret q))"
    using sureD[OF sure_secret[OF C I] s1(2)] by blast
  obtain s3 where s3: "check_memcached C A s2 = (Next (an_memcached q), s3)" "walk N K i fs h0 e TLSInputReady s3"
      "rs_vars s3 = Map.empty(sec_name (fst (an_secret q)) \<mapsto> snd (an_secret q))"
    using sureD[OF sure_memcached[OF C I, where V = "rs_vars s2" and fs = fs and ?h0.0 = h0 and e = e], where s = s2] s2(2,3) by auto
  obtain y s4 where s4: "check_tls C K A s3 = (Next y, s4)" "walk N K i fs h0 e ServiceConfigReady s4"
      "rs_vars s4 = input_vars K q i"
    using sureD[OF sure_tls[OF C I, where fs = fs and ?h0.0 = h0 and e = e], where s = s3] s3(2,3) by auto
  have head: "reconcileNormal C K A hp s = and_then (config_step C K A (an_memcached q)) (\<lambda>inputHash.
      and_then (enabled_services A) (\<lambda>en. rollout C K A hp (an_memcached q) inputHash en)) s4"
    by (simp add: reconcileNormal_def and_then_apply s1(1) s2(1) s3(1) s4(1))
  have hash4: "el_ObjectHash K (pl_MergeEnvs (el_pod K) (kv (an_config q e (rs_vars s4)))) = Inr hash"
    using hash by (simp add: s4(3) e_def)
  note cfg = key_config_run[OF C K s4(2) render[folded e_def] key hash4]
  show ?thesis
  proof (cases "h0 = Some hash")
    case True
    then obtain s5 where s5: "config_step C K A (an_memcached q) s4 = (Next hash, s5)"
        "walk S K i fs h0 e CreateServiceReady s5"
      using cfg by auto
    obtain en s6 where s6: "enabled_services A s5 = (Next en, s6)" "walk S K i fs h0 e CreateServiceReady s6"
      using sureD[OF sure_enabled[OF O] s5(2)] by blast
    obtain s7 where s7: "rollout C K A hp (an_memcached q) hash en s6 = (Next (res0, None), s7)"
        "rolled_out S K i fs h0 (an_endpoint q) s7"
      using sureD[OF sure_rollout[OF C O] s6(2)] by blast
    have "reconcileNormal C K A hp s = (Next (res0, None), s7)"
      by (simp add: head and_then_apply s5(1) s6(1) s7(1))
    with s7(2) True show ?thesis by auto
  next
    case False
    then obtain s5 where s5: "config_step C K A (an_memcached q) s4 = (Return (res0, None), s5)"
        "walk S K i fs (Some hash) e ServiceConfigReady s5"
      using cfg by auto
    have "reconcileNormal C K A hp s = (Return (res0, None), s5)" by (simp add: head and_then_apply s5(1))
    with s5(2) False show ?thesis by auto
  qed
qed

definition with_hash :: "horizon \<Rightarrow> horizon" where
  "with_hash h = (if st_hash (hz_status h) = None
     then upd_status (\<lambda>st. st\<lparr>st_hash := Some Map.empty\<rparr>) h else h)"

lemma with_hash_fields:
  "fresh (with_hash h) = fresh h" "tended i (with_hash h) = tended i h"
  "st_endpoint (hz_status (with_hash h)) = st_endpoint (hz_status h)"
  "hash_map (hz_status (with_hash h)) = hash_map (hz_status h)"
  "hz_finalizers (with_hash h) = hz_finalizers h"
  by (simp_all add: with_hash_def fresh_def tended_def conds_of_def hash_map_def)

text \<open>What is stored after a pass over an object that is stored and tended.\<close>

lemma stored_by_patch:
  assumes "store_works S obj A nm ns" and "S (rs_world s)"
  shows "\<exists>w'. deferred_patch C A sv r s = (Patched r (patch_object C sv (rs_inst s)), w') \<and>
    obj w' = Some (patch_object C sv (rs_inst s)) \<and> S w'"
proof -
  let ?k = "patch_object C sv (rs_inst s)"
  obtain err w' where run: "ap_PatchInstance A ?k (rs_world s) = (err, w')" by fastforce
  have "fst (ap_PatchInstance A ?k (rs_world s)) = None \<and> obj (snd (ap_PatchInstance A ?k (rs_world s))) = Some ?k \<and>
      S (snd (ap_PatchInstance A ?k (rs_world s)))"
    using assms by (simp add: store_works_def)
  then show ?thesis by (simp add: deferred_patch_eq run)
qed

text \<open>
  What a pass in a settled cluster makes of \<open>h\<close>: it starts it; or finds the recorded hash to be that
  of the stored endpoint, and rolls out; or records the hash.
\<close>

definition settled_effect :: "env_lib \<Rightarrow> answers \<Rightarrow> string \<Rightarrow> horizon \<Rightarrow> horizon \<Rightarrow> bool" where
  "settled_effect K q hash h k \<longleftrightarrow>
     (let e = st_endpoint (hz_status h);
          h0 = hash_map (hz_status h) (el_InputHashName K);
          e' = st_endpoint (hz_status k);
          h' = hash_map (hz_status k) (el_InputHashName K);
          ready = (status_of (conds_of (hz_status k)) Ready = Some CTrue) in
      if \<not> started q h then h' = h0 \<and> e' = e \<and> \<not> ready
      else if h0 = Some hash then h' = h0 \<and> e' = an_endpoint q \<and> all_true (conds_of (hz_status k))
      else h' = Some hash \<and> e' = e \<and> \<not> ready)"

text \<open>The pass opens the object; then it patches a new one, and works on one that is started.\<close>

definition worked :: "cond_lib \<Rightarrow> env_lib \<Rightarrow> helper \<Rightarrow> horizon \<Rightarrow> 'w \<Rightarrow> 'w rstate" where
  "worked C K hp h w = (start_state h w)\<lparr>rs_inst := with_hash (opened C K hp h)\<rparr>"

lemma pass_opens:
  assumes C: "cond_laws C" and IL: "init_law C" and F: "finalizer_law K (hp_GetFinalizer (an_helper q))"
    and st: "store_works N obj A nm ns" and hlp: "says N (ap_NewHelper A h) (Inr (an_helper q))"
    and w: "N w" and h: "obj w = Some h" and t: "tended i h"
  shows "\<exists>w2. N w2 \<and> tended i (opened C K (an_helper q) h) \<and>
    (\<not> started q h \<longrightarrow> Reconcile C K A nm ns w = deferred_patch C A (saved_of h) (res0, None)
       ((start_state h w2)\<lparr>rs_inst := opened C K (an_helper q) h\<rparr>)) \<and>
    (\<forall>r v. started q h \<longrightarrow> reconcileNormal C K A (an_helper q) (worked C K (an_helper q) h w2) \<in> {(Next r, v), (Return r, v)} \<longrightarrow>
       Reconcile C K A nm ns w = deferred_patch C A (saved_of h) r v)"
proof -
  obtain w1 where get: "ap_Get A nm ns w = (Inr h, w1)" and w1: "N w1"
    using st w h unfolding store_works_def by (metis prod.collapse)
  obtain w2 where hp: "ap_NewHelper A h w1 = (Inr (an_helper q), w2)" and w2: "N w2"
    using hlp w1 unfolding says_def by (metis prod.collapse)
  have l: "like i h" and del: "hz_deletionTimestamp h = None" using t by (simp_all add: tended_def)
  let ?o = "opened C K (an_helper q) h"
  let ?s = "(start_state h w2)\<lparr>rs_inst := ?o\<rparr>"
  have "tidy (conds_of (hz_status h))" using t by (simp add: tended_def)
  then have "tidy (saved_of h)" by (auto simp: saved_of_def start_object_def conds_of_def split: option.splits)
  then have "tidy (conds_of (hz_status ?o))" unfolding conds_opened by (rule tidy_init[OF C IL])
  then have to: "tended i ?o" using l del by (simp add: tended_def opened_fields)
  note run = Reconcile_got[OF get hp, of C K, unfolded body_opened]
  have first: "first_pass K (an_helper q) h \<longleftrightarrow> \<not> started q h"
    using F del by (auto simp: first_pass_def is_new_def started_def is_zero_time_def finalizer_law_def)
  have rest: "pass_rest C K A (an_helper q) (\<not> is_zero_time (hz_deletionTimestamp h)) ?s =
      call_proc (reconcileNormal C K A (an_helper q)) (worked C K (an_helper q) h w2)"
    by (simp add: pass_rest_def init_hash_def flow_simps is_zero_time_def del upd_status_def with_hash_def worked_def)
  show ?thesis
    using run first rest w2 to by (intro exI[of _ w2]) (auto simp: call_proc_apply)
qed

lemma starting_pass:
  assumes C: "cond_laws C" and IL: "init_law C" and F: "finalizer_law K (hp_GetFinalizer (an_helper q))"
    and st: "store_works N obj A nm ns" and hlp: "says N (ap_NewHelper A h) (Inr (an_helper q))"
    and w: "N w" and h: "obj w = Some h" and t: "tended i h" and new: "\<not> started q h"
  shows "\<exists>k w'. Reconcile C K A nm ns w = (Patched (res0, None) k, w') \<and> N w' \<and> obj w' = Some k \<and>
    tended i k \<and> started q k \<and> settled_effect K q hash h k"
proof -
  let ?o = "opened C K (an_helper q) h"
  obtain w2 where w2: "N w2" "tended i ?o"
    and run: "Reconcile C K A nm ns w = deferred_patch C A (saved_of h) (res0, None) ((start_state h w2)\<lparr>rs_inst := ?o\<rparr>)"
    using pass_opens[OF C IL F st hlp w h t] new by blast
  obtain w' where "deferred_patch C A (saved_of h) (res0, None) ((start_state h w2)\<lparr>rs_inst := ?o\<rparr>) =
      (Patched (res0, None) (patch_object C (saved_of h) ?o), w')"
      "obj w' = Some (patch_object C (saved_of h) ?o)" "N w'"
    using stored_by_patch[OF st, of "(start_state h w2)\<lparr>rs_inst := ?o\<rparr>" C "saved_of h" "(res0, None)"] w2(1) by auto
  moreover have "status_of (conds_of (hz_status (patch_object C (saved_of h) ?o))) Ready \<noteq> Some CTrue"
    by (rule unready_patched[OF C]) (use fresh_unknown[OF opened_fresh[OF C]] in simp_all)
  ultimately show ?thesis
    using run new w2(2) opened_started(1)[OF F] t
    by (simp add: tended_def started_def tidy_patched[OF C] opened_fields settled_effect_def Let_def)
qed

text \<open>A pass whose work ends in one of the two ways of a settled cluster.\<close>

lemma working_pass:
  assumes C: "cond_laws C" and IL: "init_law C" and F: "finalizer_law K (hp_GetFinalizer (an_helper q))"
    and st: "store_works N obj A nm ns" and st': "store_works S obj A nm ns"
    and hlp: "says N (ap_NewHelper A h) (Inr (an_helper q))"
    and w: "N w" and h: "obj w = Some h" and t: "tended i h" and old: "started q h"
  defines "e \<equiv> st_endpoint (hz_status h)" and "h0 \<equiv> hash_map (hz_status h) (el_InputHashName K)"
  assumes normal: "\<And>s. fresh (rs_inst s) \<Longrightarrow> tended i (rs_inst s) \<Longrightarrow> N (rs_world s) \<Longrightarrow>
      st_endpoint (hz_status (rs_inst s)) = e \<Longrightarrow> hash_map (hz_status (rs_inst s)) (el_InputHashName K) = h0 \<Longrightarrow>
      hz_finalizers (rs_inst s) = hz_finalizers h \<Longrightarrow>
      if h0 = Some hash
      then \<exists>v. reconcileNormal C K A (an_helper q) s = (Next (res0, None), v) \<and>
        rolled_out S K i (hz_finalizers h) h0 (an_endpoint q) v
      else \<exists>v. reconcileNormal C K A (an_helper q) s = (Return (res0, None), v) \<and>
        walk S K i (hz_finalizers h) (Some hash) e ServiceConfigReady v"
  shows "\<exists>k w'. Reconcile C K A nm ns w = (Patched (res0, None) k, w') \<and> S w' \<and> obj w' = Some k \<and>
    tended i k \<and> started q k \<and> settled_effect K q hash h k"
proof -
  let ?o = "opened C K (an_helper q) h"
  obtain w2 where w2: "N w2" "tended i ?o"
    and run: "\<And>r v. reconcileNormal C K A (an_helper q) (worked C K (an_helper q) h w2) \<in> {(Next r, v), (Return r, v)} \<Longrightarrow>
      Reconcile C K A nm ns w = deferred_patch C A (saved_of h) r v"
    using pass_opens[OF C IL F st hlp w h t] old by blast
  let ?u = "worked C K (an_helper q) h w2"
  have u: "fresh (rs_inst ?u)" "tended i (rs_inst ?u)" "N (rs_world ?u)" "st_endpoint (hz_status (rs_inst ?u)) = e"
      "hash_map (hz_status (rs_inst ?u)) (el_InputHashName K) = h0" "hz_finalizers (rs_inst ?u) = hz_finalizers h"
    using opened_fresh[OF C, of K "an_helper q" h] w2 old opened_started(3)[OF F, of h C] t[unfolded tended_def]
    by (simp_all add: worked_def with_hash_fields opened_fields e_def h0_def started_def)
  have fin: "hp_GetFinalizer (an_helper q) \<in> set (hz_finalizers h)" using old by (simp add: started_def)
  show ?thesis
  proof (cases "h0 = Some hash")
    case same: True
    then obtain v where v: "reconcileNormal C K A (an_helper q) ?u = (Next (res0, None), v)"
        "rolled_out S K i (hz_finalizers h) h0 (an_endpoint q) v"
      using normal[OF u] by auto
    let ?k = "patch_object C (saved_of h) (rs_inst v)"
    obtain w' where p: "deferred_patch C A (saved_of h) (res0, None) v = (Patched (res0, None) ?k, w')" "obj w' = Some ?k" "S w'"
      using stored_by_patch[OF st', of v C "saved_of h" "(res0, None)"] v(2) by (auto simp: rolled_out_def)
    have "all_true (conds_of (hz_status ?k))"
      using v(2) patched_status(1,2)[OF C, where h = "rs_inst v" and sv = "saved_of h"]
      unfolding rolled_out_def all_true_def conds_def by (metis insertI1 insertI2)
    moreover have "tidy (conds_of (hz_status ?k))"
      using v(2) by (simp add: tidy_patched[OF C]) (simp add: rolled_out_def all_true_def tidy_def conds_def)
    ultimately have "all_true (conds_of (hz_status ?k))" "tended i ?k" "started q ?k"
      using v(2) fin by (simp_all add: tended_def started_def rolled_out_def)
    moreover have "Reconcile C K A nm ns w = (Patched (res0, None) ?k, w')" using run v(1) p(1) by simp
    ultimately show ?thesis
      using v(2) p(2,3) same old by (intro exI[of _ ?k] exI[of _ w']) (simp add: rolled_out_def settled_effect_def Let_def h0_def e_def)
  next
    case new: False
    then obtain v where v: "reconcileNormal C K A (an_helper q) ?u = (Return (res0, None), v)"
        "walk S K i (hz_finalizers h) (Some hash) e ServiceConfigReady v"
      using normal[OF u] by auto
    let ?k = "patch_object C (saved_of h) (rs_inst v)"
    obtain w' where p: "deferred_patch C A (saved_of h) (res0, None) v = (Patched (res0, None) ?k, w')" "obj w' = Some ?k" "S w'"
      using stored_by_patch[OF st', of v C "saved_of h" "(res0, None)"] v(2) by (auto simp: walk_def)
    have at: "status_of (conds_of (hz_status (rs_inst v))) DeploymentReady = Some CUnknown"
        "status_of (conds_of (hz_status (rs_inst v))) Ready = Some CUnknown"
      using walkD(2)[OF v(2)] by (simp_all add: at_stage_def pipeline_def conds_def)
    then have "status_of (conds_of (hz_status ?k)) Ready \<noteq> Some CTrue" by (rule unready_patched[OF C])
    moreover have "tidy (conds_of (hz_status ?k))"
      using walkD(3)[OF v(2)] by (simp add: tidy_patched[OF C]) (simp add: side_def tidy_def conds_def)
    ultimately have "status_of (conds_of (hz_status ?k)) Ready \<noteq> Some CTrue" "tended i ?k" "started q ?k"
      using v(2) fin by (simp_all add: tended_def started_def walk_def)
    moreover have "Reconcile C K A nm ns w = (Patched (res0, None) ?k, w')" using run v(1) p(1) by simp
    ultimately show ?thesis
      using v(2) p(2,3) new old by (intro exI[of _ ?k] exI[of _ w']) (simp add: walk_def settled_effect_def Let_def h0_def e_def)
  qed
qed

lemma settled_pass:
  assumes C: "cond_laws C" and IL: "init_law C" and K: "set_hash_law K" and S: "settled_cluster S K A q i"
    and st: "store_works S obj A nm ns" and w: "S w" and h: "obj w = Some h" and t: "tended i h"
    and R: "renders S K A q i (st_endpoint (hz_status h))"
  shows "\<exists>k w'. Reconcile C K A nm ns w = (Patched (res0, None) k, w') \<and> S w' \<and> obj w' = Some k \<and>
    tended i k \<and> started q k \<and> settled_effect K q (input_hash K q i (st_endpoint (hz_status h))) h k"
proof -
  have I: "\<And>h. like i h \<Longrightarrow> settled_inputs S K A q h" and O: "\<And>h. like i h \<Longrightarrow> settled_rollout S K A q h"
    and rb: "rbac_true (an_rbac q)" and F: "finalizer_law K (hp_GetFinalizer (an_helper q))"
    using S by (simp_all add: settled_cluster_def)
  have hlp: "says S (ap_NewHelper A h) (Inr (an_helper q))" using I[of h] t by (simp add: tended_def settled_inputs_def)
  have conf: "\<And>k. like i k \<Longrightarrow> st_endpoint (hz_status k) = st_endpoint (hz_status h) \<Longrightarrow> settled_config S K A q k"
    using R by (simp add: renders_def)
  have "like i (upd_status (\<lambda>st. st\<lparr>st_endpoint := st_endpoint (hz_status h)\<rparr>) k)" if "like i k" for k using that by simp
  have key: "\<exists>w. ensureHorizonSecret K A s = (Next None, s\<lparr>rs_world := w, rs_vars := id (rs_vars s)\<rparr>) \<and> S w"
    if "like i (rs_inst s)" "S (rs_world s)" for s :: "'a rstate"
  proof -
    let ?h = "upd_status (\<lambda>st. st\<lparr>st_endpoint := st_endpoint (hz_status h)\<rparr>) (rs_inst s)"
    obtain sc hash where q: "an_key q = (sc, hash)" by fastforce
    have "says S (ap_GetSecret A ServiceName (hz_namespace (rs_inst s))) (Inr (sc, hash))" and "validateHorizonSecret sc"
      using conf[of ?h] that(1) by (simp_all add: settled_config_def q)
    then show ?thesis using that(2) by (rule key_kept_run)
  qed
  show ?thesis
  proof (cases "started q h")
    case False
    then show ?thesis by (rule starting_pass[OF C IL F st hlp w h t])
  next
    case True
    show ?thesis
    proof (rule working_pass[OF C IL F st st hlp w h t True])
      fix s :: "'a rstate"
      assume s: "fresh (rs_inst s)" "tended i (rs_inst s)" "S (rs_world s)" "st_endpoint (hz_status (rs_inst s)) = st_endpoint (hz_status h)"
        "hash_map (hz_status (rs_inst s)) (el_InputHashName K) = hash_map (hz_status h) (el_InputHashName K)"
        "hz_finalizers (rs_inst s) = hz_finalizers h"
      have hash: "el_ObjectHash K (pl_MergeEnvs (el_pod K) (id (an_config q (st_endpoint (hz_status (rs_inst s))) (input_vars K q i)))) =
          Inr (input_hash K q i (st_endpoint (hz_status h)))"
        using renders_hash[OF R] by (simp add: s(4))
      have render: "settled_render S K A q k" if "like i k" "st_endpoint (hz_status k) = st_endpoint (hz_status (rs_inst s))" for k
        using conf[of k] that by (simp add: s(4) settled_config_def)
      have "if hash_map (hz_status (rs_inst s)) (el_InputHashName K) = Some (input_hash K q i (st_endpoint (hz_status h)))
        then \<exists>v. reconcileNormal C K A (an_helper q) s = (Next (res0, None), v) \<and>
          rolled_out S K i (hz_finalizers (rs_inst s)) (hash_map (hz_status (rs_inst s)) (el_InputHashName K)) (an_endpoint q) v
        else \<exists>v. reconcileNormal C K A (an_helper q) s = (Return (res0, None), v) \<and>
          walk S K i (hz_finalizers (rs_inst s)) (Some (input_hash K q i (st_endpoint (hz_status h))))
            (st_endpoint (hz_status (rs_inst s))) ServiceConfigReady v"
        by (rule normal_run[OF C K I O rb render key hash s(1-3)])
      then show "if hash_map (hz_status h) (el_InputHashName K) = Some (input_hash K q i (st_endpoint (hz_status h)))
        then \<exists>v. reconcileNormal C K A (an_helper q) s = (Next (res0, None), v) \<and>
          rolled_out S K i (hz_finalizers h) (hash_map (hz_status h) (el_InputHashName K)) (an_endpoint q) v
        else \<exists>v. reconcileNormal C K A (an_helper q) s = (Return (res0, None), v) \<and>
          walk S K i (hz_finalizers h) (Some (input_hash K q i (st_endpoint (hz_status h)))) (st_endpoint (hz_status h)) ServiceConfigReady v"
        by (simp only: s)
    qed
  qed
qed

section \<open>The abstract machine\<close>

text \<open>
  Of the stored object: whether it has its conditions and its finalizer, the recorded hash, and
  the endpoint. \<open>H\<close> is the hash that belongs to an endpoint, \<open>E\<close> the endpoint of the service.
\<close>

type_synonym progress = "bool \<times> string option \<times> string"

fun advance :: "(string \<Rightarrow> string) \<Rightarrow> string \<Rightarrow> progress \<Rightarrow> progress" where
  "advance H E (False, h, e) = (True, h, e)"
| "advance H E (True, h, e) = (if h = Some (H e) then (True, h, E) else (True, Some (H e), e))"

fun reports_ready :: "(string \<Rightarrow> string) \<Rightarrow> progress \<Rightarrow> bool" where
  "reports_ready H (b, h, e) \<longleftrightarrow> b \<and> h = Some (H e)"

definition progress_of :: "env_lib \<Rightarrow> answers \<Rightarrow> horizon \<Rightarrow> progress" where
  "progress_of K q h = (started q h, hash_map (hz_status h) (el_InputHashName K), st_endpoint (hz_status h))"

lemma advance_fixed: "advance H E (True, Some (H E), E) = (True, Some (H E), E)"
  by simp

lemma advance_four: "(advance H E ^^ 4) p = (True, Some (H E), E)"
  by (cases p; cases "fst p") (auto simp: numeral_eq_Suc)

text \<open>Passes one after the other.\<close>

fun passes :: "cond_lib \<Rightarrow> env_lib \<Rightarrow> 'w api \<Rightarrow> string \<Rightarrow> string \<Rightarrow> nat \<Rightarrow> 'w \<Rightarrow> 'w" where
  "passes C K A nm ns 0 w = w"
| "passes C K A nm ns (Suc n) w = snd (Reconcile C K A nm ns (passes C K A nm ns n w))"

lemma settled_effect_progress:
  assumes "settled_effect K q (H (st_endpoint (hz_status h))) h k" and "started q k"
  shows "progress_of K q k = advance H (an_endpoint q) (progress_of K q h)"
    and "status_of (conds_of (hz_status k)) Ready = Some CTrue \<longleftrightarrow> reports_ready H (progress_of K q h)"
  using assms by (auto simp: settled_effect_def Let_def progress_of_def all_true_def split: if_splits)

lemma settled_step:
  assumes "cond_laws C" and "init_law C" and "set_hash_law K" and "settled_cluster S K A q i"
    and "store_works S obj A nm ns" and "S w" and "obj w = Some h" and "tended i h"
    and "renders S K A q i (st_endpoint (hz_status h))" and "renders S K A q i (an_endpoint q)"
  shows "\<exists>e w' k. Reconcile C K A nm ns w = (e, w') \<and> S w' \<and> obj w' = Some k \<and> tended i k \<and>
    renders S K A q i (st_endpoint (hz_status k)) \<and>
    progress_of K q k = advance (input_hash K q i) (an_endpoint q) (progress_of K q h) \<and>
    (status_of (conds_of (hz_status k)) Ready = Some CTrue \<longleftrightarrow> reports_ready (input_hash K q i) (progress_of K q h))"
proof -
  obtain k w' where run: "Reconcile C K A nm ns w = (Patched (res0, None) k, w')" "S w'" "obj w' = Some k" "tended i k" "started q k"
    and eff: "settled_effect K q (input_hash K q i (st_endpoint (hz_status h))) h k"
    using settled_pass[OF assms(1-9)] by blast
  note effect = settled_effect_progress[where H = "input_hash K q i", OF eff run(5)]
  moreover have "renders S K A q i (st_endpoint (hz_status k))"
    using eff assms(9,10) by (auto simp: settled_effect_def Let_def split: if_splits)
  ultimately show ?thesis using run(1-4) by blast
qed

text \<open>A pass over an object at the fixed point finds everything in place.\<close>

lemma settled_end:
  assumes "cond_laws C" and "init_law C" and "set_hash_law K" and "settled_cluster S K A q i"
    and "store_works S obj A nm ns" and "S w" and "obj w = Some h" and "tended i h"
    and "renders S K A q i (st_endpoint (hz_status h))"
    and "progress_of K q h = (True, Some (input_hash K q i (an_endpoint q)), an_endpoint q)"
  shows "\<exists>e w' k. Reconcile C K A nm ns w = (e, w') \<and> S w' \<and> obj w' = Some k \<and> all_true (conds_of (hz_status k)) \<and>
    st_endpoint (hz_status k) = an_endpoint q \<and>
    hash_map (hz_status k) (el_InputHashName K) = Some (input_hash K q i (an_endpoint q))"
proof -
  have at: "started q h" "hash_map (hz_status h) (el_InputHashName K) = Some (input_hash K q i (st_endpoint (hz_status h)))"
      "st_endpoint (hz_status h) = an_endpoint q"
    using assms(10) by (simp_all add: progress_of_def)
  obtain k w' where "Reconcile C K A nm ns w = (Patched (res0, None) k, w')" "S w'" "obj w' = Some k"
    and "hash_map (hz_status k) (el_InputHashName K) = hash_map (hz_status h) (el_InputHashName K)"
      "st_endpoint (hz_status k) = an_endpoint q" "all_true (conds_of (hz_status k))"
    using settled_pass[OF assms(1-9)] at by (auto simp: settled_effect_def Let_def)
  then show ?thesis using at by auto
qed

lemma advance_end: "(advance H E ^^ (m + 4)) p = (True, Some (H E), E)"
proof -
  have "(advance H E ^^ m) (True, Some (H E), E) = (True, Some (H E), E)"
    by (induction m) (simp_all only: funpow.simps comp_apply id_apply advance_fixed)
  then show ?thesis unfolding funpow_add comp_apply advance_four .
qed

lemma passes_progress:
  assumes "cond_laws C" and "init_law C" and "set_hash_law K" and "settled_cluster S K A q i"
    and "store_works S obj A nm ns" and "S w" and "obj w = Some h" and "tended i h"
    and "renders S K A q i (st_endpoint (hz_status h))" and "renders S K A q i (an_endpoint q)"
  shows "\<exists>k. S (passes C K A nm ns n w) \<and> obj (passes C K A nm ns n w) = Some k \<and> tended i k \<and>
    renders S K A q i (st_endpoint (hz_status k)) \<and>
    progress_of K q k = (advance (input_hash K q i) (an_endpoint q) ^^ n) (progress_of K q h)"
proof (induction n)
  case 0
  then show ?case using assms(6-9) by simp
next
  case (Suc n)
  then obtain k where k: "S (passes C K A nm ns n w)" "obj (passes C K A nm ns n w) = Some k" "tended i k" "renders S K A q i (st_endpoint (hz_status k))"
    and p: "progress_of K q k = (advance (input_hash K q i) (an_endpoint q) ^^ n) (progress_of K q h)"
    by blast
  from settled_step[OF assms(1-5) k assms(10)] show ?case by (auto simp: p)
qed

section \<open>The sample cluster is settled\<close>

definition sample_answers :: answers where
  "sample_answers =
     \<lparr>an_helper = \<lparr>hp_GetFinalizer = ''fin'', hp_before_namespace = ''openstack''\<rparr>,
      an_rbac = rbac_conditions,
      an_secret = (\<lparr>sec_name = ''osp-secret'', sec_data = Map.empty(''horizon-secret'' \<mapsto> ''key'')\<rparr>, ''sh''),
      an_memcached = sample_memcached, an_ca = ''cah'', an_cert = ''certh'', an_authURL = ''http://keystone'',
      an_key = (\<lparr>sec_name = ServiceName, sec_data = Map.empty(''horizon-secret'' \<mapsto> ''key'')\<rparr>, ''sh''),
      an_config = (\<lambda>e v. v(''cm'' \<mapsto> ''x'')),
      an_service = \<lparr>svc_details = service_request sample_env new_horizon (service_labels sample_env new_horizon),
        svc_type = ClusterIP, svc_hostname = ''horizon.openstack.svc'', svc_annotations = []\<rparr>,
      an_endpoint = ''https://horizon.openstack.svc'', an_live = sample_live, an_networks = None\<rparr>"

lemma list_init_law: "init_law list_cond_lib"
proof -
  have step: "status_of (list_set ds c) t = (if t = c_type c then Some (c_status c) else status_of ds t)" for ds c t
    by (simp add: status_of_def list_set_view fst_view_of)
  have "status_of (fold (\<lambda>c ds. list_set ds c) is cs) t = status_of cs t" if "t \<notin> c_type ` set is" for "is" cs t
    using that by (induction "is" arbitrary: cs) (simp_all add: step)
  then show ?thesis by (auto simp: init_law_def list_cond_lib_def list_init_def step)
qed

lemma sample_like:
  assumes "like new_horizon h"
  shows "hz_kind h = ''Horizon''" and "hz_name h = ''horizon''" and "hz_namespace h = ''openstack''"
    and "hz_spec h = sample_spec"
  using assms by (auto simp: like_def new_horizon_def sample_horizon_def touch_spec_def sample_spec_def)

lemma sample_inputs:
  assumes "like new_horizon h"
  shows "settled_inputs (\<lambda>_. True) sample_env stored_api sample_answers h"
  unfolding settled_inputs_def says_def
  by (simp add: sample_like[OF assms] stored_api_def answer_def sample_api_def sample_answers_def
      sample_memcached_def sample_spec_def)

lemma sample_rollout:
  assumes "like new_horizon h"
  shows "settled_rollout (\<lambda>_. True) sample_env stored_api sample_answers h"
proof -
  have "well_formed sample_env sample_horizon" by code_simp
  then have "well_formed sample_env h"
    using sample_like(4)[OF assms] by (simp add: well_formed_def sample_horizon_def)
  moreover have "service_labels sample_env h = service_labels sample_env new_horizon"
    and "service_request sample_env h l = service_request sample_env new_horizon l" for l
    using sample_like[OF assms]
    by (simp_all add: service_labels_def service_request_def servicePort_def tls_enabled_def new_horizon_def
        sample_horizon_def)
  ultimately show ?thesis
    using sample_like[OF assms]
    by (simp add: settled_rollout_def says_def stored_api_def answer_def sample_api_def sample_answers_def
        sample_env_def sample_live_def svcOverride_def sample_spec_def empty_override_def with_metadata_def
        endpoint_scheme_def tls_enabled_def sample_pod_def sample_tls_def)
qed

lemma sample_settled: "settled_cluster (\<lambda>_. True) sample_env stored_api sample_answers new_horizon"
proof -
  have "rbac_true rbac_conditions" by (auto simp: rbac_true_def rbac_conditions_def list_cond_def rbac_types_def)
  moreover have "finalizer_law sample_env ''fin''" by (simp add: finalizer_law_def sample_env_def)
  ultimately show ?thesis
    using sample_inputs sample_rollout by (simp add: settled_cluster_def sample_answers_def)
qed

lemma stored_works: "store_works (\<lambda>_. True) id stored_api nm ns"
  by (simp add: store_works_def stored_api_def)

lemma sample_endpoint: "an_endpoint sample_answers = ''https://horizon.openstack.svc''"
  by (simp add: sample_answers_def)

lemma sample_tended: "tended new_horizon new_horizon"
  by (simp add: tended_def tidy_def new_horizon_def sample_horizon_def conds_of_def status_of_def)

lemma sample_renders:
  "renders (\<lambda>_. True) sample_env stored_api sample_answers new_horizon (st_endpoint (hz_status new_horizon))"
  "renders (\<lambda>_. True) sample_env stored_api sample_answers new_horizon (an_endpoint sample_answers)"
proof -
  have "\<not> isl (url_Parse (el_ip_literal sample_env) '''')"
    and "\<not> isl (url_Parse (el_ip_literal sample_env) ''https://horizon.openstack.svc'')"
    by code_simp+
  then have "\<exists>url. url_Parse (el_ip_literal sample_env) '''' = Inr url"
    and "\<exists>url. url_Parse (el_ip_literal sample_env) ''https://horizon.openstack.svc'' = Inr url"
    by (auto simp: isl_def sum.collapse(2) intro: sum.exhaust_sel)
  moreover have "validateHorizonSecret (fst (an_key sample_answers))" by code_simp
  moreover have "el_ObjectHash sample_env l = Inr ''h1''" for l by (simp add: sample_env_def)
  moreover have "st_endpoint (hz_status new_horizon) = ''''" by (simp add: new_horizon_def sample_status_def)
  ultimately show
    "renders (\<lambda>_. True) sample_env stored_api sample_answers new_horizon (st_endpoint (hz_status new_horizon))"
    "renders (\<lambda>_. True) sample_env stored_api sample_answers new_horizon (an_endpoint sample_answers)"
    unfolding renders_def settled_config_def settled_render_def says_def
    by (auto simp: stored_api_def answer_def sample_api_def sample_answers_def)
qed

lemma sample_progress: "progress_of sample_env sample_answers new_horizon = (False, None, '''')"
  by (simp add: progress_of_def started_def new_horizon_def sample_status_def hash_map_def)

section \<open>The properties\<close>

text \<open>
  C3. One pass in a settled cluster refines one step of the machine, on every stored object that
  is tended and whose configuration can be rendered: the pass succeeds without error or requeue,
  the object stays tended, and it reports Ready exactly when the step found the recorded hash to
  be that of the stored endpoint.
\<close>

lemma settled_pass_refines:
  assumes "cond_laws C" and "init_law C" and "set_hash_law K" and "settled_cluster S K A q i"
    and "store_works S obj A nm ns" and "S w" and "obj w = Some h" and "tended i h"
    and "renders S K A q i (st_endpoint (hz_status h))"
  shows "\<exists>k w'. Reconcile C K A nm ns w = (Patched (res0, None) k, w') \<and> S w' \<and> obj w' = Some k \<and> tended i k \<and>
    progress_of K q k = advance (input_hash K q i) (an_endpoint q) (progress_of K q h) \<and>
    (status_of (conds_of (hz_status k)) Ready = Some CTrue \<longleftrightarrow> reports_ready (input_hash K q i) (progress_of K q h))"
proof -
  obtain k w' where run: "Reconcile C K A nm ns w = (Patched (res0, None) k, w')" "obj w' = Some k" "tended i k" "started q k" "S w'"
    and eff: "settled_effect K q (input_hash K q i (st_endpoint (hz_status h))) h k"
    using settled_pass[OF assms] by blast
  note effect = settled_effect_progress[where H = "input_hash K q i", OF eff run(4)]
  then show ?thesis using run by blast
qed

lemma settled_pass_refines_witness:
  "\<exists>k w'. Reconcile list_cond_lib sample_env stored_api ''horizon'' ''openstack'' (Some new_horizon) =
       (Patched (res0, None) k, w') \<and> w' = Some k \<and> progress_of sample_env sample_answers k = (True, None, '''')"
proof -
  have "id (Some new_horizon) = Some new_horizon" by simp
  from settled_pass_refines[OF list_cond_laws list_init_law sample_set_hash_law sample_settled
      stored_works[of "''horizon''" "''openstack''"] TrueI this sample_tended sample_renders(1)]
  show ?thesis by (auto simp: sample_progress)
qed

text \<open>
  The rollout ends: from any stored object that is not being deleted and has no failed
  condition outside the ones a pass decides, five passes over a settled cluster suffice for Ready,
  and it stays Ready from then on, with every condition True, the endpoint of its service, and the
  hash of the configuration rendered with that endpoint.
\<close>

lemma passes_converge:
  assumes "cond_laws C" and "init_law C" and "set_hash_law K" and "settled_cluster S K A q i"
    and "store_works S obj A nm ns" and "S w" and "obj w = Some h" and "tended i h"
    and "renders S K A q i (st_endpoint (hz_status h))" and "renders S K A q i (an_endpoint q)"
    and "5 \<le> n"
  shows "\<exists>k. obj (passes C K A nm ns n w) = Some k \<and> all_true (conds_of (hz_status k)) \<and>
    st_endpoint (hz_status k) = an_endpoint q \<and>
    hash_map (hz_status k) (el_InputHashName K) = Some (input_hash K q i (an_endpoint q))"
proof -
  define m where "m = n - 5"
  then have n: "n = Suc (m + 4)" using assms(11) by simp
  obtain k where k: "S (passes C K A nm ns (m + 4) w)" "obj (passes C K A nm ns (m + 4) w) = Some k" "tended i k" "renders S K A q i (st_endpoint (hz_status k))"
    and p: "progress_of K q k = (True, Some (input_hash K q i (an_endpoint q)), an_endpoint q)"
    using passes_progress[OF assms(1-10), where n = "m + 4", unfolded advance_end] by blast
  from settled_end[OF assms(1-5) k p] show ?thesis unfolding n passes.simps(2) by auto
qed

lemma passes_converge_witness:
  "\<exists>k. passes list_cond_lib sample_env stored_api ''horizon'' ''openstack'' 5 (Some new_horizon) = Some k \<and>
     status_of (conds_of (hz_status k)) Ready = Some CTrue \<and>
     st_endpoint (hz_status k) = ''https://horizon.openstack.svc''"
proof -
  have "id (Some new_horizon) = Some new_horizon" by simp
  from passes_converge[OF list_cond_laws list_init_law sample_set_hash_law sample_settled
      stored_works[of "''horizon''" "''openstack''"] TrueI this sample_tended sample_renders order_refl]
  obtain k where "passes list_cond_lib sample_env stored_api ''horizon'' ''openstack'' 5 (Some new_horizon) = Some k"
    and "all_true (conds_of (hz_status k))" and "st_endpoint (hz_status k) = an_endpoint sample_answers"
    unfolding id_apply by blast
  then show ?thesis unfolding sample_endpoint all_true_def by blast
qed

end
