(* ===== verification/First_Rollout.thy ===== *)
theory First_Rollout
  imports Convergence
begin

text \<open>
  The passes of a first rollout, one by one: in which of them a new object is reported Ready. The
  configuration is rendered before the service is created, so the first complete rollout runs with
  the configuration of an object that has no endpoint yet.
\<close>

section \<open>Readiness after each pass\<close>




section \<open>The property\<close>


section \<open>A cluster in which the endpoint matters\<close>








end
