(* ===== verification/Key_Bootstrap.thy ===== *)
theory Key_Bootstrap
  imports First_Rollout
begin

text \<open>
  The first rollout in a namespace that has no SECRET_KEY yet. The operator itself brings the
  cluster from the clusters without a key (\<open>N\<close>) to those with one (\<open>S\<close>), so what a settled cluster
  assumes of the key is established by a pass. The call that writes the key adds a variable to the
  ones that are hashed, in this pass only: the recorded hash is that of no later pass.
\<close>

section \<open>A cluster without a key\<close>











section \<open>The property\<close>


section \<open>The profile of a first rollout without a key\<close>


section \<open>A cluster that stores its key\<close>

text \<open>
  The world is the stored object and whether the key is there. Looking it up and writing it are the
  calls that depend on the flag; the hash is over the key's variable and the rendered endpoint.
\<close>

definition beside :: "(horizon option \<Rightarrow> 'a \<times> horizon option) \<Rightarrow> horizon option \<times> bool \<Rightarrow> 'a \<times> (horizon option \<times> bool)" where
  "beside f W = (case f (fst W) of (x, w) \<Rightarrow> (x, (w, snd W)))"



lemma says_beside [simp]:
  "says snd (beside f) x \<longleftrightarrow> says (\<lambda>_. True) f x"
  "says (\<lambda>W. \<not> snd W) (beside f) x \<longleftrightarrow> says (\<lambda>_. True) f x"
  by (auto simp: says_def beside_def split_beta)

lemma says_unless [simp]:
  "says snd (\<lambda>W. if c \<and> \<not> snd W then g W else f W) x \<longleftrightarrow> says snd f x"
  "says snd (\<lambda>W. if \<not> snd W then g W else f W) x \<longleftrightarrow> says snd f x"
  by (auto simp: says_def)












end
