(* ===== verification/Pass_Calls.thy ===== *)
theory Pass_Calls
  imports Pass_Properties
begin

text \<open>
  How much a pass asks of the cluster. \<open>counted A\<close> is the cluster \<open>A\<close> with a counter that every
  call that reaches it advances (building the helper and generating a password stay in the
  process). \<open>costs k n m\<close> says that a procedure advances the counter by at most \<open>n\<close> on an object with
  at most \<open>k\<close> network attachments; the costs of a sequence add up.
\<close>

section \<open>The counter\<close>

definition counting :: "('w \<Rightarrow> 'a \<times> 'w) \<Rightarrow> 'w \<times> nat \<Rightarrow> 'a \<times> ('w \<times> nat)" where
  "counting f = (\<lambda>(w, n). case f w of (x, w') \<Rightarrow> (x, (w', Suc n)))"

definition in_process :: "('w \<Rightarrow> 'a \<times> 'w) \<Rightarrow> 'w \<times> nat \<Rightarrow> 'a \<times> ('w \<times> nat)" where
  "in_process f = (\<lambda>(w, n). case f w of (x, w') \<Rightarrow> (x, (w', n)))"

definition counted :: "'w api \<Rightarrow> ('w \<times> nat) api" where
  "counted A =
     \<lparr>ap_Get = (\<lambda>nm ns. counting (ap_Get A nm ns)),
      ap_NewHelper = (\<lambda>h. in_process (ap_NewHelper A h)),
      ap_PatchInstance = (\<lambda>h. counting (ap_PatchInstance A h)),
      ap_EnsureDeletedTopologyRef = (\<lambda>r nm. counting (ap_EnsureDeletedTopologyRef A r nm)),
      ap_ReconcileRbac = (\<lambda>ns nm rules. counting (ap_ReconcileRbac A ns nm rules)),
      ap_GetSecret = (\<lambda>nm ns. counting (ap_GetSecret A nm ns)),
      ap_GetMemcachedByName = (\<lambda>nm ns. counting (ap_GetMemcachedByName A nm ns)),
      ap_ValidateCACertSecret = (\<lambda>nm ns. counting (ap_ValidateCACertSecret A nm ns)),
      ap_ValidateCertSecret = (\<lambda>t ns. counting (ap_ValidateCertSecret A t ns)),
      ap_GetKeystoneAPI = (\<lambda>ns. counting (ap_GetKeystoneAPI A ns)),
      ap_GetKeystoneServiceWithName = (\<lambda>nm ns. counting (ap_GetKeystoneServiceWithName A nm ns)),
      ap_EnsureConfigMaps = (\<lambda>ts v. counting (ap_EnsureConfigMaps A ts v)),
      ap_EnsureSecrets = (\<lambda>ts v. counting (ap_EnsureSecrets A ts v)),
      ap_GeneratePassword = (\<lambda>n. in_process (ap_GeneratePassword A n)),
      ap_ServiceCreateOrPatch = (\<lambda>s. counting (ap_ServiceCreateOrPatch A s)),
      ap_GetNADWithName = (\<lambda>nm ns. counting (ap_GetNADWithName A nm ns)),
      ap_EnsureServiceTopology = (\<lambda>r lat nm sel. counting (ap_EnsureServiceTopology A r lat nm sel)),
      ap_DeploymentCreateOrPatch = (\<lambda>d n. counting (ap_DeploymentCreateOrPatch A d n)),
      ap_VerifyNetworkStatus = (\<lambda>na l n. counting (ap_VerifyNetworkStatus A na l n))\<rparr>"

lemma counted_calls [simp]:
  "ap_Get (counted A) nm ns = counting (ap_Get A nm ns)"
  "ap_NewHelper (counted A) h = in_process (ap_NewHelper A h)"
  "ap_PatchInstance (counted A) h = counting (ap_PatchInstance A h)"
  "ap_EnsureDeletedTopologyRef (counted A) r nm = counting (ap_EnsureDeletedTopologyRef A r nm)"
  "ap_ReconcileRbac (counted A) ns nm rules = counting (ap_ReconcileRbac A ns nm rules)"
  "ap_GetSecret (counted A) nm ns = counting (ap_GetSecret A nm ns)"
  "ap_GetMemcachedByName (counted A) nm ns = counting (ap_GetMemcachedByName A nm ns)"
  "ap_ValidateCACertSecret (counted A) nm ns = counting (ap_ValidateCACertSecret A nm ns)"
  "ap_ValidateCertSecret (counted A) t ns = counting (ap_ValidateCertSecret A t ns)"
  "ap_GetKeystoneAPI (counted A) ns = counting (ap_GetKeystoneAPI A ns)"
  "ap_GetKeystoneServiceWithName (counted A) nm ns = counting (ap_GetKeystoneServiceWithName A nm ns)"
  "ap_EnsureConfigMaps (counted A) ts v = counting (ap_EnsureConfigMaps A ts v)"
  "ap_EnsureSecrets (counted A) ts v = counting (ap_EnsureSecrets A ts v)"
  "ap_GeneratePassword (counted A) n = in_process (ap_GeneratePassword A n)"
  "ap_ServiceCreateOrPatch (counted A) s = counting (ap_ServiceCreateOrPatch A s)"
  "ap_GetNADWithName (counted A) nm ns = counting (ap_GetNADWithName A nm ns)"
  "ap_EnsureServiceTopology (counted A) r lat nm sel = counting (ap_EnsureServiceTopology A r lat nm sel)"
  "ap_DeploymentCreateOrPatch (counted A) d n = counting (ap_DeploymentCreateOrPatch A d n)"
  "ap_VerifyNetworkStatus (counted A) na l n = counting (ap_VerifyNetworkStatus A na l n)"
  by (simp_all add: counted_def)

section \<open>The cost of a procedure\<close>

definition attachments :: "horizon \<Rightarrow> nat" where
  "attachments h = length (sp_networkAttachments (hz_spec h))"

definition costs :: "nat \<Rightarrow> nat \<Rightarrow> (('w \<times> nat) rstate, 'a, 'r) proc \<Rightarrow> bool" where
  "costs k n m \<longleftrightarrow> (\<forall>s. attachments (rs_inst s) \<le> k \<longrightarrow> attachments (rs_inst (snd (m s))) \<le> k \<and>
     snd (rs_world (snd (m s))) \<le> snd (rs_world s) + n)"

lemma costsD:
  assumes "costs k n m" and "m s = (x, t)" and "attachments (rs_inst s) \<le> k"
  shows "attachments (rs_inst t) \<le> k" and "snd (rs_world t) \<le> snd (rs_world s) + n"
  using assms unfolding costs_def by (metis snd_conv)+

lemma costsI:
  assumes "\<And>s x t. m s = (x, t) \<Longrightarrow> attachments (rs_inst s) \<le> k \<Longrightarrow>
    attachments (rs_inst t) \<le> k \<and> snd (rs_world t) \<le> snd (rs_world s) + n"
  shows "costs k n m"
  using assms unfolding costs_def by (metis prod.collapse)

lemma costs_mono: "costs k n m \<Longrightarrow> n \<le> n' \<Longrightarrow> costs k n' m"
  unfolding costs_def by (meson add_left_mono order_trans)

named_theorems cost_rules \<open>what the procedures cost\<close>

lemma costs_and_then [cost_rules]:
  assumes m: "costs k a m" and f: "\<And>x. costs k b (f x)"
  shows "costs k (a + b) (and_then m f)"
proof (rule costsI)
  fix s x t
  assume run: "and_then m f s = (x, t)" and k: "attachments (rs_inst s) \<le> k"
  obtain y u where y: "m s = (y, u)" by fastforce
  note u = costsD[OF m y k]
  show "attachments (rs_inst t) \<le> k \<and> snd (rs_world t) \<le> snd (rs_world s) + (a + b)"
  proof (cases y)
    case (Next v)
    with run y have "f v u = (x, t)" by (simp add: and_then_apply)
    from costsD[OF f this u(1)] u(2) show ?thesis by simp
  qed (use run y u in \<open>auto simp: and_then_apply\<close>)
qed

lemma costs_given:
  assumes "\<And>i. attachments i \<le> k \<Longrightarrow> costs k n (f i)"
  shows "costs k n (and_then the_inst f)"
  using assms unfolding costs_def by (simp add: flow_simps)

lemma costs_call [cost_rules]: "costs k n m \<Longrightarrow> costs k n (call_proc m)"
proof (rule costsI)
  fix s x t
  assume m: "costs k n m" and run: "call_proc m s = (x, t)" and k: "attachments (rs_inst s) \<le> k"
  from run obtain y where "m s = (y, t)" by (auto simp: call_proc_apply split: prod.splits flow.splits)
  from costsD[OF m this k] show "attachments (rs_inst t) \<le> k \<and> snd (rs_world t) \<le> snd (rs_world s) + n" by blast
qed

lemma costs_cluster [cost_rules]:
  "costs k 1 (cluster (counting f))" "costs k 0 (cluster (in_process f))"
  "costs k 1 (cluster_vars (\<lambda>v. counting (g v)))"
  by (simp_all add: costs_def flow_simps counting_def in_process_def split_beta)

lemma costs_inst [cost_rules]: "costs k 0 the_inst"
  by (simp add: costs_def flow_simps)

lemma costs_local [cost_rules]:
  "costs k 0 (next_with x)" "costs k 0 (return_with r)" "costs k 0 (panic_with p)"
  "costs k 0 (set_var v y)" "costs k 0 (modify (\<lambda>s. s\<lparr>rs_vars := m\<rparr>))"
  by (simp_all add: costs_def flow_simps)

lemma costs_mod_inst: "(\<And>h. attachments (f h) = attachments h) \<Longrightarrow> costs k 0 (mod_inst f)"
  by (simp add: costs_def flow_simps)

lemma costs_upd [cost_rules]:
  "costs k 0 (mod_inst (upd_status g))" "costs k 0 (mod_inst (status_cond c))" "costs k 0 (mod_inst touch_override)"
  "costs k 0 (mod_inst (\<lambda>h. h\<lparr>hz_finalizers := fs h\<rparr>))" "costs k 0 (mod_inst (\<lambda>h. upd_status (u h) h))"
  by (rule costs_mod_inst, simp add: attachments_def touch_override_spec)+

lemma costs_conds [cost_rules]:
  "costs k 0 (set_cond C c)" "costs k 0 (mark_true C t m)" "costs k 0 (mark_false C t r v msg)"
  "costs k 0 (fail_with C t r v msg ret)"
  by (simp_all add: costs_def step_defs flow_simps attachments_def)

lemma costs_max: "costs k a m \<Longrightarrow> costs k (max a b) m" "costs k b m \<Longrightarrow> costs k (max a b) m"
  by (auto intro: costs_mono)

lemma costs_if [cost_rules]: "costs k a m \<Longrightarrow> costs k b n \<Longrightarrow> costs k (max a b) (if c then m else n)"
  by (auto intro: costs_mono)

lemma costs_sum [cost_rules]:
  "(\<And>e. costs k a (f e)) \<Longrightarrow> (\<And>x. costs k b (g x)) \<Longrightarrow>
     costs k (max a b) (case y of Inl e \<Rightarrow> f e | Inr x \<Rightarrow> g x)"
  by (cases y) (simp_all add: costs_max)

lemma costs_option [cost_rules]:
  "costs k a f \<Longrightarrow> (\<And>x. costs k b (g x)) \<Longrightarrow> costs k (max a b) (case y of None \<Rightarrow> f | Some x \<Rightarrow> g x)"
  by (cases y) (simp_all add: costs_max)

lemma costs_prod [cost_rules]: "(\<And>x y. costs k a (f x y)) \<Longrightarrow> costs k a (case p of (x, y) \<Rightarrow> f x y)"
  by (cases p) simp

lemma costs_prod_fun [cost_rules]:
  "(\<And>x y. costs k a (f x y z)) \<Longrightarrow> costs k a ((case p of (x, y) \<Rightarrow> f x y) z)"
  by (cases p) simp

lemma costs_outcome [cost_rules]:
  "(\<And>d. costs k a (f d)) \<Longrightarrow> (\<And>e. costs k b (g e)) \<Longrightarrow> (\<And>m. costs k c (h m)) \<Longrightarrow>
     costs k (max a (max b c)) (case x of Value d \<Rightarrow> f d | Error e \<Rightarrow> g e | Crash m \<Rightarrow> h m)"
  by (cases x) (simp_all add: costs_max)

section \<open>The stages\<close>

lemma costs_rbac [cost_rules]: "costs k 1 (rbac_step C (counted A))"
proof -
  have "attachments (fold (\<lambda>c h. RbacConditionsSet C h c) cs h) = attachments h" for cs h
    using core_rbac_fold[of h C cs] by (auto simp: core_rel_def object_rel_def attachments_def touch_spec_def split: option.splits)
  note fold = costs_mod_inst[OF this]
  show ?thesis
    unfolding rbac_step_def configureHorizonRbac_def counted_calls
    by (rule costs_mono, (rule cost_rules fold)+, simp)
qed

lemma costs_secret [cost_rules]: "costs k 1 (check_secret C (counted A))"
  unfolding check_secret_def counted_calls by (rule costs_mono, (rule cost_rules)+, simp)

lemma costs_memcached [cost_rules]: "costs k 1 (check_memcached C (counted A))"
  unfolding check_memcached_def counted_calls by (rule costs_mono, (rule cost_rules)+, simp)

lemma costs_tls [cost_rules]: "costs k 2 (check_tls C K (counted A))"
  unfolding check_tls_def check_ca_def check_cert_def Let_def counted_calls
  by (rule costs_mono, (rule cost_rules)+, simp)

lemma costs_hash [cost_rules]: "costs k 0 (createHashOfInputHashes K)"
  by (auto simp: costs_def createHashOfInputHashes_def attachments_def split: sum.splits prod.splits)

lemma costs_config [cost_rules]: "costs k 4 (config_step C K (counted A) mc)"
  unfolding config_step_def generateServiceConfigMaps_def ensureHorizonSecret_def config_failed_def counted_calls
  by (rule costs_mono, (rule cost_rules)+, simp)

lemma costs_keystone: "costs k (length svs) (keystone_loop (counted A) ns svs en)"
proof (induction svs arbitrary: en)
  case (Cons sv svs)
  show ?case
    unfolding keystone_loop.simps counted_calls by (rule costs_mono, (rule cost_rules Cons.IH)+, simp)
qed (simp add: cost_rules)

lemma costs_enabled [cost_rules]: "costs k 2 (enabled_services (counted A))"
  unfolding enabled_services_def
  by (rule costs_mono, (rule cost_rules costs_keystone)+, simp add: keystoneServicesWatch_def)

lemma costs_service [cost_rules]: "costs k 1 (service_step C K (counted A) lbl)"
  unfolding service_step_def reconcileInit_def Let_def counted_calls
  by (rule costs_mono, (rule cost_rules)+, simp)

lemma costs_nad_loop: "costs k (length ats) (nad_loop C (counted A) ns ats l)"
proof (induction ats arbitrary: l)
  case (Cons at ats)
  show ?case
    unfolding nad_loop.simps counted_calls by (rule costs_mono, (rule cost_rules Cons.IH)+, simp)
qed (simp add: cost_rules)

lemma costs_nad [cost_rules]: "costs k k (nad_step C K (counted A) hp)"
  unfolding nad_step_def
proof (rule costs_given)
  fix i :: horizon
  assume i: "attachments i \<le> k"
  have "costs k (length ats) (ensureNAD C K (counted A) hp ats)" for ats
    unfolding ensureNAD_def by (rule costs_mono, (rule cost_rules costs_nad_loop)+, simp)
  note ensure = this
  show "costs k k (and_then (call_proc (ensureNAD C K (counted A) hp (sp_networkAttachments (hz_spec i))))
      (\<lambda>(serviceAnnotations, ctrlResult, err). case err of
         Some e \<Rightarrow> and_then (mark_false C NetworkAttachmentsReady ErrorReason SeverityWarning
           (Msg ''NetworkAttachmentsReadyErrorMessage'' [MErr e])) (\<lambda>_. return_with (ctrlResult, Some e))
       | None \<Rightarrow> and_then (mark_true C NetworkAttachmentsReady ''NetworkAttachmentsReadyMessage'') (\<lambda>_.
           next_with serviceAnnotations)))"
    by (rule costs_mono, (rule cost_rules ensure)+, use i in \<open>simp add: attachments_def\<close>)
qed

lemma costs_update [cost_rules]: "costs k 0 update_steps"
  unfolding update_steps_def reconcileUpdate_def reconcileUpgrade_def
  by (rule costs_mono, (rule cost_rules)+, simp)

lemma costs_topology [cost_rules]: "costs k 1 (topology_step C K (counted A) lbl)"
  unfolding topology_step_def Let_def counted_calls by (rule costs_mono, (rule cost_rules)+, simp)

lemma costs_deployment [cost_rules]: "costs k 1 (deployment_step C K (counted A) hash lbl ann en tp mc)"
  unfolding deployment_step_def depl_failed_def counted_calls by (rule costs_mono, (rule cost_rules)+, simp)

lemma costs_verify [cost_rules]: "costs k 1 (verify_network C (counted A) lbl)"
  unfolding verify_network_def Let_def counted_calls by (rule costs_mono, (rule cost_rules)+, simp)

lemma costs_finish [cost_rules]: "costs k 0 (finish_step C K deploy)"
  unfolding finish_step_def by (rule costs_mono, (rule cost_rules)+, simp)

lemma costs_rollout [cost_rules]: "costs k (k + 4) (rollout C K (counted A) hp mc hash en)"
  unfolding rollout_def Let_def by (rule costs_mono, (rule cost_rules)+, simp)

lemma costs_normal [cost_rules]: "costs k (k + 15) (reconcileNormal C K (counted A) hp)"
  unfolding reconcileNormal_def by (rule costs_mono, (rule cost_rules)+, simp)

lemma costs_delete [cost_rules]: "costs k 1 (reconcileDelete K (counted A) hp)"
  unfolding reconcileDelete_def counted_calls by (rule costs_mono, (rule cost_rules)+, simp)

lemma costs_body: "costs k (k + 15) (reconcile_body C K (counted A) hp new)"
  unfolding reconcile_body_def init_status_def add_finalizer_def init_hash_def Let_def
  by (rule costs_mono, (rule cost_rules)+, simp)

section \<open>The bound\<close>

text \<open>
  C12. A pass comes to an end after a bounded number of calls of the cluster: over every cluster,
  whatever it answers, a pass makes at most 17 calls and one for each network attachment that
  the object names.
\<close>

lemma Reconcile_call_bound:
  assumes run: "Reconcile C K (counted A) nm ns (w, 0) = (e, (w', n))"
    and few: "\<And>inst w1. ap_Get A nm ns w = (Inr inst, w1) \<Longrightarrow> length (sp_networkAttachments (hz_spec inst)) \<le> k"
  shows "n \<le> 17 + k"
proof -
  define Q where "Q = (\<lambda>(inst :: horizon) (s :: ('a \<times> nat) rstate). snd (rs_world s) \<le> k + 16)"
  have body: "triple (\<lambda>s. s = start_state inst w2) (reconcile_body C K (counted A) hp (is_new inst)) (\<lambda>_. Q inst) (Q inst)"
    if g: "ap_Get (counted A) nm ns (w, 0) = (Inr inst, w1)" and h: "ap_NewHelper (counted A) inst w1 = (Inr hp, w2)"
    for inst w1 hp w2
  proof -
    from g obtain v where v: "ap_Get A nm ns w = (Inr inst, v)" "w1 = (v, 1)"
      by (auto simp: counting_def split: prod.splits)
    then have one: "snd w2 = 1" using h by (auto simp: in_process_def split: prod.splits)
    have "attachments (rs_inst (start_state inst w2)) \<le> k"
      using few[OF v(1)] by (simp add: attachments_def start_object_def)
    with costs_body[of k C K A hp "is_new inst"]
    have "snd (rs_world (snd (reconcile_body C K (counted A) hp (is_new inst) (start_state inst w2)))) \<le> 1 + (k + 15)"
      using one unfolding costs_def by fastforce
    then show ?thesis by (auto simp: triple_def Q_def split: prod.splits flow.splits)
  qed
  from run show ?thesis
  proof (rule Reconcile_ends[where Q = Q, OF _ body])
    fix r inst w1 err
    assume "ap_Get (counted A) nm ns (w, 0) = (Inl err, (w', n)) \<or>
      ap_Get (counted A) nm ns (w, 0) = (Inr inst, w1) \<and> ap_NewHelper (counted A) inst w1 = (Inl err, (w', n))"
    then show ?thesis by (auto simp: counting_def in_process_def split: prod.splits)
  next
    fix p inst w1 and s :: "('a \<times> nat) rstate"
    assume "Q inst s" and "(w', n) = rs_world s"
    then show ?thesis unfolding Q_def by (cases "rs_world s") (simp)
  next
    fix inst w1 r err and s :: "('a \<times> nat) rstate"
    assume "Q inst s" and "ap_PatchInstance (counted A) (patch_object C (saved_of inst) (rs_inst s)) (rs_world s) = (err, (w', n))"
    then show ?thesis by (cases "rs_world s") (auto simp: Q_def counting_def split: prod.splits)
  qed simp_all
qed

text \<open>The bound is reached, by a pass that has to create the SECRET_KEY.\<close>

definition keyless_api :: "unit api" where
  "keyless_api = sample_api\<lparr>ap_GetSecret := (\<lambda>nm ns w.
     if nm = ServiceName then (Inl (NotFound nm), w) else ap_GetSecret sample_api nm ns w)\<rparr>"

lemma keyless_calls:
  "snd (snd (Reconcile list_cond_lib sample_env (counted keyless_api) ''horizon'' ''openstack'' ((), 0))) =
     17 + length (sp_networkAttachments sample_spec)"
  by code_simp

lemma Reconcile_call_bound_witness:
  "snd (snd (Reconcile list_cond_lib sample_env (counted keyless_api) ''horizon'' ''openstack'' ((), 0))) \<le>
     17 + length (sp_networkAttachments sample_spec)"
proof -
  obtain e w' n where run: "Reconcile list_cond_lib sample_env (counted keyless_api) ''horizon'' ''openstack'' ((), 0) = (e, (w', n))"
    by (metis prod.collapse)
  have "n \<le> 17 + length (sp_networkAttachments sample_spec)"
    using run by (rule Reconcile_call_bound) (simp add: keyless_api_def sample_api_def sample_horizon_def)
  then show ?thesis by (simp add: run)
qed

end
