(* ===== verification/Pass_Rotation.thy ===== *)
theory Pass_Rotation
  imports Pass_Properties
begin

text \<open>
  The SECRET_KEY and the input hash. The hash is over the inputs that the stages enter into
  configMapVars; ensureHorizonSecret enters the secret only in the pass that creates it. A cluster
  in which the key is replaced by another valid one is therefore indistinguishable to a pass.
\<close>

section \<open>A cluster with another key\<close>

definition with_key :: "(secret \<times> string \<Rightarrow> secret \<times> string) \<Rightarrow> 'w api \<Rightarrow> 'w api" where
  "with_key f A = A\<lparr>ap_GetSecret := (\<lambda>nm ns w. case ap_GetSecret A nm ns w of (got, w') \<Rightarrow>
     (if nm = ServiceName then map_sum id f got else got, w'))\<rparr>"

definition keeps_validity :: "(secret \<times> string \<Rightarrow> secret \<times> string) \<Rightarrow> bool" where
  "keeps_validity f \<longleftrightarrow> (\<forall>x. validateHorizonSecret (fst (f x)) = validateHorizonSecret (fst x))"

lemma with_key_fields [simp]:
  "ap_Get (with_key f A) = ap_Get A" "ap_NewHelper (with_key f A) = ap_NewHelper A"
  "ap_PatchInstance (with_key f A) = ap_PatchInstance A"
  "ap_EnsureDeletedTopologyRef (with_key f A) = ap_EnsureDeletedTopologyRef A"
  "ap_ReconcileRbac (with_key f A) = ap_ReconcileRbac A"
  "ap_GetMemcachedByName (with_key f A) = ap_GetMemcachedByName A"
  "ap_ValidateCACertSecret (with_key f A) = ap_ValidateCACertSecret A"
  "ap_ValidateCertSecret (with_key f A) = ap_ValidateCertSecret A"
  "ap_GetKeystoneAPI (with_key f A) = ap_GetKeystoneAPI A"
  "ap_GetKeystoneServiceWithName (with_key f A) = ap_GetKeystoneServiceWithName A"
  "ap_EnsureConfigMaps (with_key f A) = ap_EnsureConfigMaps A"
  "ap_EnsureSecrets (with_key f A) = ap_EnsureSecrets A"
  "ap_GeneratePassword (with_key f A) = ap_GeneratePassword A"
  "ap_ServiceCreateOrPatch (with_key f A) = ap_ServiceCreateOrPatch A"
  "ap_GetNADWithName (with_key f A) = ap_GetNADWithName A"
  "ap_EnsureServiceTopology (with_key f A) = ap_EnsureServiceTopology A"
  "ap_DeploymentCreateOrPatch (with_key f A) = ap_DeploymentCreateOrPatch A"
  "ap_VerifyNetworkStatus (with_key f A) = ap_VerifyNetworkStatus A"
  "nm \<noteq> ServiceName \<Longrightarrow> ap_GetSecret (with_key f A) nm = ap_GetSecret A nm"
  by (simp_all add: with_key_def fun_eq_iff)

lemma needs_secret_rotated:
  assumes "keeps_validity f"
  shows "needs_secret (map_sum id f got) = needs_secret got"
  proof (cases got)
  case (Inr x)
  then show ?thesis using assms by (cases x) (simp add: needs_secret_def keeps_validity_def split_beta)
qed (simp add: needs_secret_def)

lemma with_key_get: "ap_GetSecret (with_key f A) ServiceName ns w =
    (map_sum id f (fst (ap_GetSecret A ServiceName ns w)), snd (ap_GetSecret A ServiceName ns w))"
  by (simp add: with_key_def split_beta)

section \<open>Stage by stage\<close>

text \<open>The only stage that reads the key looks at nothing but its validity.\<close>

lemma ensure_secret_rotated:
  fixes A :: "'w api"
  assumes "keeps_validity f"
  shows "ensureHorizonSecret K (with_key f A) = ensureHorizonSecret K A"
proof
  fix s :: "'w rstate"
  obtain got w where g: "ap_GetSecret A ServiceName (hz_namespace (rs_inst s)) (rs_world s) = (got, w)"
    by fastforce
  have "needs_secret (Inr (f x)) = needs_secret (Inr x)" for x
    using needs_secret_rotated[OF assms, of "Inr x"] by simp
  then show "ensureHorizonSecret K (with_key f A) s = ensureHorizonSecret K A s"
    by (cases got) (simp_all add: ensureHorizonSecret_def flow_simps with_key_get g)
qed

lemma generate_rotated: "generateServiceConfigMaps K (with_key f A) mc = generateServiceConfigMaps K A mc"
  unfolding generateServiceConfigMaps_def with_key_fields ..

lemma config_rotated:
  assumes "keeps_validity f"
  shows "config_step C K (with_key f A) mc = config_step C K A mc"
  unfolding config_step_def ensure_secret_rotated[OF assms] generate_rotated ..

lemma stages_rotated:
  "rbac_step C (with_key f A) = rbac_step C A" "check_memcached C (with_key f A) = check_memcached C A"
  "check_tls C K (with_key f A) = check_tls C K A" "enabled_services (with_key f A) = enabled_services A"
  "reconcileDelete K (with_key f A) hp = reconcileDelete K A hp"
proof -
  have "keystone_loop (with_key f A) ns svs m = keystone_loop A ns svs m" for ns svs m
    by (induction svs arbitrary: m) (simp_all cong: if_cong)
  then show "enabled_services (with_key f A) = enabled_services A" by (simp add: enabled_services_def)
qed (simp_all only: rbac_step_def configureHorizonRbac_def check_memcached_def check_tls_def check_ca_def
    check_cert_def reconcileDelete_def with_key_fields refl)

lemma rollout_rotated: "rollout C K (with_key f A) hp mc hash en = rollout C K A hp mc hash en"
proof -
  have "nad_loop C (with_key f A) ns nms l = nad_loop C A ns nms l" for ns nms l
    by (induction nms arbitrary: l) (simp_all cong: if_cong sum.case_cong option.case_cong)
  then show ?thesis
    unfolding rollout_def service_step_def reconcileInit_def nad_step_def ensureNAD_def topology_step_def
      deployment_step_def verify_network_def with_key_fields by simp
qed

lemma normal_rotated:
  assumes "keeps_validity f" and "sp_secret (hz_spec (rs_inst s)) \<noteq> ServiceName"
  shows "reconcileNormal C K (with_key f A) hp s = reconcileNormal C K A hp s"
proof -
  have secret: "check_secret C (with_key f A) s' = check_secret C A s'"
    if "rbac_step C A s = (x, s')" for x s'
  proof -
    have "same_core s s'" using keeps_rbac[of C A] that unfolding keeps_def by (metis snd_conv)
    then have "sp_secret (hz_spec (rs_inst s')) = sp_secret (hz_spec (rs_inst s))"
      by (auto simp: same_core_def core_rel_def object_rel_def touch_spec_def split: option.splits)
    with assms(2) show ?thesis by (simp add: check_secret_def flow_simps)
  qed
  show ?thesis
    by (cases "rbac_step C A s")
      (simp add: reconcileNormal_def and_then_apply stages_rotated config_rotated[OF assms(1)] rollout_rotated
        secret split: flow.splits)
qed

section \<open>The property\<close>

text \<open>
  C19. Replacing the SECRET_KEY is not noticed: on every object whose OpenStack secret is another
  secret, a pass over the cluster in which the key (and the hash that is reported for it) is any
  other one of the same validity does exactly what it does over the original cluster, so the input
  hash stays the same and no new Deployment is rolled out.
\<close>

lemma key_rotation_unnoticed:
  assumes "keeps_validity f"
    and "\<And>inst w1. ap_Get A nm ns w = (Inr inst, w1) \<Longrightarrow> sp_secret (hz_spec inst) \<noteq> ''horizon''"
  shows "Reconcile C K (with_key f A) nm ns w = Reconcile C K A nm ns w"
proof (cases "ap_Get A nm ns w")
  case (Pair got w1)
  show ?thesis
  proof (cases got)
    case (Inr inst)
    have ne: "sp_secret (hz_spec inst) \<noteq> ServiceName" using assms(2) Pair Inr by (simp add: ServiceName_def)
    have "pass_rest C K (with_key f A) hp d ((start_state inst w2)\<lparr>rs_inst := opened C K hp inst\<rparr>) =
        pass_rest C K A hp d ((start_state inst w2)\<lparr>rs_inst := opened C K hp inst\<rparr>)" for hp d w2
      using ne by (simp add: pass_rest_def init_hash_def flow_simps stages_rotated normal_rotated[OF assms(1)]
          opened_def Let_def start_object_def)
    then have "reconcile_body C K (with_key f A) hp (is_new inst) (start_state inst w2) =
        reconcile_body C K A hp (is_new inst) (start_state inst w2)" for hp w2
      by (simp add: body_opened)
    moreover have "deferred_patch C (with_key f A) = deferred_patch C A" by (simp add: deferred_patch_def fun_eq_iff)
    ultimately show ?thesis
      using Pair Inr
      by (cases "ap_NewHelper A inst w1")
        (simp add: Reconcile_def Let_def start_state_def is_new_def split: sum.splits flow.splits prod.splits)
  qed (simp add: Reconcile_def Pair)
qed

text \<open>A key of sixteen letters in place of the sample one.\<close>

definition rotate :: "secret \<times> string \<Rightarrow> secret \<times> string" where
  "rotate x = (if validateHorizonSecret (fst x)
     then ((fst x)\<lparr>sec_data := Map.empty(''horizon-secret'' \<mapsto> ''abcdefghijklmnop'')\<rparr>, ''h2'') else x)"

lemma key_rotation_unnoticed_witness:
  "fst (ap_GetSecret (with_key rotate sample_api) ''horizon'' ''openstack'' ()) \<noteq>
     fst (ap_GetSecret sample_api ''horizon'' ''openstack'' ()) \<and>
   Reconcile list_cond_lib sample_env (with_key rotate sample_api) ''horizon'' ''openstack'' () =
     Reconcile list_cond_lib sample_env sample_api ''horizon'' ''openstack'' ()"
proof
  show "fst (ap_GetSecret (with_key rotate sample_api) ''horizon'' ''openstack'' ()) \<noteq>
     fst (ap_GetSecret sample_api ''horizon'' ''openstack'' ())"
    by (simp add: with_key_def ServiceName_def sample_api_def rotate_def validateHorizonSecret_def map_get_def)
  have "keeps_validity rotate" by (simp add: keeps_validity_def rotate_def validateHorizonSecret_def map_get_def)
  then show "Reconcile list_cond_lib sample_env (with_key rotate sample_api) ''horizon'' ''openstack'' () =
     Reconcile list_cond_lib sample_env sample_api ''horizon'' ''openstack'' ()"
    by (rule key_rotation_unnoticed) (simp add: sample_api_def sample_horizon_def sample_spec_def)
qed

end
