(* ===== verification/Pod_Validity.thy ===== *)
theory Pod_Validity
  imports Pod_Properties "HOL-Library.Multiset"
begin

text \<open>
  When the API server accepts the pod of a Deployment: names of containers and volumes, and the
  mount paths within a container, have to be unique. What the operator always brings meets that by
  itself; the criterion is on what the configuration adds.
\<close>

definition valid_pod :: "pod_template \<Rightarrow> bool" where
  "valid_pod pt \<longleftrightarrow> distinct (map ct_name (pt_containers pt)) \<and> distinct (map vol_name (pt_volumes pt)) \<and>
     list_all (\<lambda>c. distinct (map vm_mountPath (ct_volumeMounts c))) (pt_containers pt)"

section \<open>What the configuration adds\<close>

definition fixed_volumes :: "string list" where
  "fixed_volumes = [''config-data'', ''horizon-secret-key'', ''scripts'', ''logs'']"

definition fixed_paths :: "string list" where
  "fixed_paths =
     [''/var/lib/config-data/default/'', ''/var/lib/kolla/config_files/config.json'',
      ''/run/openstack-dashboard/.secrets'', ''/usr/local/bin/container-scripts'',
      ''/usr/local/bin/kolla_theme_setup'', ''/var/log/horizon'']"

definition tls_additions :: "pod_lib \<Rightarrow> horizon \<Rightarrow> volume list \<times> volume_mount list" where
  "tls_additions L h = (let tls = sp_tls (hz_spec h) in
     if \<not> pl_tlsEnabled L tls then ([], [])
     else (case pl_tlsToService L tls of
         Inl _ \<Rightarrow> ([], [])
       | Inr svc \<Rightarrow>
           ((if tls_caBundleSecretName tls \<noteq> '''' then [pl_caCreateVolume L tls] else [])
              @ [ts_CreateVolume svc ServiceName],
            (if tls_caBundleSecretName tls \<noteq> '''' then pl_caCreateVolumeMounts L tls else [])
              @ ts_CreateVolumeMounts svc ServiceName)))"

definition added_volumes :: "pod_lib \<Rightarrow> horizon \<Rightarrow> memcached \<Rightarrow> string list" where
  "added_volumes L h mc =
     map sv_name (extra_volumes (propagated (pl_Propagate L) (sp_extraMounts (hz_spec h)) HorizonPropagation))
     @ map vol_name (fst (tls_additions L h))
     @ (if mc_MTLSSecret mc \<noteq> '''' then [vol_name (mc_MTLSVolume mc)] else [])"

definition added_paths :: "pod_lib \<Rightarrow> horizon \<Rightarrow> memcached \<Rightarrow> string list" where
  "added_paths L h mc = map vm_mountPath
     (concat (map vs_mounts (propagated (pl_Propagate L) (sp_extraMounts (hz_spec h)) HorizonPropagation))
      @ snd (tls_additions L h)
      @ (if mc_MTLSSecret mc \<noteq> '''' then mc_MTLSVolumeMounts mc else []))"

lemma tls_options_added:
  assumes "(if pl_tlsEnabled L (sp_tls (hz_spec h)) then formatTLSOptions L t h else Inr t) = Inr t'"
  shows "to_volumes (add_mtls mc t') = to_volumes t @ fst (tls_additions L h)
      @ (if mc_MTLSSecret mc \<noteq> '''' then [mc_MTLSVolume mc] else [])"
    and "to_volumeMounts (add_mtls mc t') = to_volumeMounts t @ snd (tls_additions L h)
      @ (if mc_MTLSSecret mc \<noteq> '''' then mc_MTLSVolumeMounts mc else [])"
  using assms
  by (auto simp: add_mtls_def tls_additions_def Let_def split: if_splits elim!: formatTLSOptions_volumes)

lemma plain_options_added:
  assumes "plain_options L h = Some t"
  shows "mset (map vol_name (to_volumes t)) = mset (fixed_volumes @ map sv_name
      (extra_volumes (propagated (pl_Propagate L) (sp_extraMounts (hz_spec h)) HorizonPropagation)))"
    and "mset (map vm_mountPath (to_volumeMounts t)) = mset (fixed_paths @ map vm_mountPath
      (concat (map vs_mounts (propagated (pl_Propagate L) (sp_extraMounts (hz_spec h)) HorizonPropagation))))"
  using assms
  by (auto simp: plain_options_def getVolumes_spec getVolumeMounts_spec fixed_volumes_def fixed_paths_def
      base_volumes_def base_mounts_def getScriptVolume_def getScriptVolumeMount_def GetLogVolume_def
      GetLogVolumeMount_def logVolume_def comp_def image_mset.compositionality split: option.splits if_splits)

lemma container_names: "n @ ''-log'' \<noteq> ''horizon''"
proof
  assume "n @ ''-log'' = ''horizon''"
  then have "last (n @ ''-log'') = last ''horizon''" by (rule arg_cong)
  then show False by simp
qed

section \<open>The property\<close>

text \<open>
  C27. A Deployment the operator builds has a valid pod exactly when the names of the volumes, and the
  mount paths, that extra mounts, TLS, CA bundle and Memcached certificate add are pairwise distinct
  and clash with none of the four volumes and six paths of the operator.
\<close>

lemma Deployment_valid_iff:
  assumes "Deployment L h hash lbl ann en tp mc = Value d" and "placement_only tp"
  shows "valid_pod (dp_template d) \<longleftrightarrow>
    distinct (fixed_volumes @ added_volumes L h mc) \<and> distinct (fixed_paths @ added_paths L h mc)"
proof -
  from assms(1) obtain t t' where t: "plain_options L h = Some t"
    and t': "(if pl_tlsEnabled L (sp_tls (hz_spec h)) then formatTLSOptions L t h else Inr t) = Inr t'"
    and d: "d = build_deployment L h lbl ann (getEnvVars hash en) tp (add_mtls mc t')"
    by (rule Deployment_Value)
  have "mset (map vol_name (to_volumes (add_mtls mc t'))) = mset (fixed_volumes @ added_volumes L h mc)"
    by (simp add: tls_options_added(1)[OF t'] added_volumes_def plain_options_added(1)[OF t] del: mset_map)
  then have "distinct (map vol_name (to_volumes (add_mtls mc t'))) \<longleftrightarrow> distinct (fixed_volumes @ added_volumes L h mc)"
    by (rule mset_eq_imp_distinct_iff)
  moreover have "mset (map vm_mountPath (to_volumeMounts (add_mtls mc t'))) = mset (fixed_paths @ added_paths L h mc)"
    by (simp add: tls_options_added(2)[OF t'] added_paths_def plain_options_added(2)[OF t] del: mset_map)
  then have "distinct (map vm_mountPath (to_volumeMounts (add_mtls mc t'))) \<longleftrightarrow> distinct (fixed_paths @ added_paths L h mc)"
    by (rule mset_eq_imp_distinct_iff)
  ultimately show ?thesis
    by (simp add: valid_pod_def d build_deployment_pods[OF assms(2)] log_container_def horizon_container_def
        ServiceName_def container_names)
qed

lemma Deployment_valid_iff_witness:
  "valid_pod (dp_template sample_deployment)"
proof -
  have "distinct (fixed_volumes @ added_volumes sample_pod sample_horizon sample_memcached)"
    "distinct (fixed_paths @ added_paths sample_pod sample_horizon sample_memcached)"
    by code_simp+
  then show ?thesis using Deployment_valid_iff[OF sample_deployment_value no_topology_places] by blast
qed

end
