(* ===== verification/Spec2Isabelle.thy ===== *)
theory Spec2Isabelle
  imports Api_Registration Api_Properties Pass_Properties Start_Properties Copy_Properties Delivery First_Rollout Key_Bootstrap
    Pass_Calls Pass_Rotation Pod_Validity
begin

text \<open>
  The horizon-operator: a Kubernetes operator, written in Go, that runs the OpenStack
  dashboard from a Horizon custom resource. This development models its own code and proves
  what makes it correct; the libraries it is built on are parameters.

  \<^bold>\<open>The program.\<close> The API server admits a Horizon object through the webhooks
  (api/v1beta1/horizon_webhook.go, internal/webhook/v1beta1). Events on the object, on what it
  owns and on what it names start a reconcile pass (SetupWithManager and the mapping functions
  of internal/controller/horizon_controller.go). A pass (Reconcile) reads the object, resets its
  conditions, runs the stages of reconcileNormal or reconcileDelete, and finally patches the
  object with the status it reached. The stages check the inputs (secret, Memcached, TLS), render
  the configuration and hash it, look Keystone services up, create the Kubernetes service,
  collect network attachments and the topology, and write the Deployment built by
  internal/horizon. Other operators use the object through api/v1beta1/horizon.go. The process
  itself starts in cmd/main.go, which reads the command line, configures the servers and hands
  the reconciler to the manager.

  \<^bold>\<open>The theories.\<close>
  Go_Prelude: errors and results as values, strings and maps, and the control flow of a Go
  function body (go on, return, panic) as procedures over a state, with the locale
  \<open>frame_rel\<close> for relations every call of a body keeps.
  Conditions: condition values, the functions of the condition package as the record
  \<open>cond_lib\<close> with their laws \<open>cond_laws\<close>, and an implementation by lists that has them.
  Horizon_Types: api/v1beta1/horizon_types.go. Horizon_Client: api/v1beta1/horizon.go.
  Horizon_Webhook: both webhook packages, with the locale \<open>topology_guard\<close> interpreted on the
  two validating handlers. Api_Registration: what the packages of the API register, the group with
  the scheme and the handlers with the manager, and which requests such a manager admits.
  Horizon_Volumes, Horizon_Deployment: internal/horizon (const.go, funcs.go, volumes.go,
  deployment.go). Go_Url: url.Parse of the standard library as far as the operator uses it.
  Reconcile_Env: the state of a pass (cluster, object, hash inputs), the calls that reach the
  cluster (\<open>api\<close>) and the functions of other packages (\<open>env_lib\<close>).
  Reconcile_Inputs, Reconcile_Config, Reconcile_Service, Reconcile_Network, Reconcile_Normal:
  the stages of reconcileNormal in their order, one definition per stage, and the locale
  \<open>pipeline_stage\<close>, the contract of a stage that decides a condition, interpreted on the
  secret, Memcached, TLS, configuration and service stages.
  Reconcile_Loop: Reconcile, its deferred function and reconcileDelete; \<open>Reconcile_ends\<close> turns
  a contract of the body into a fact about the pass.
  Watches: indexes, watches and event mapping, with the locale \<open>event_source\<close>.
  Operator_Start: cmd/main.go, from init and the flags to the running manager; slices of TLS
  options live in an explicit store, since two servers append to the same one.
  Deep_Copy, Generated_Copies: api/v1beta1/zz_generated.deepcopy.go over a store of cells. The
  contract of a deep copy is the locale \<open>deep_copy\<close>; it is closed under pointers, slices, maps
  and structs, and every generated function keeps it.

  Pass_Frame (what a pass keeps of the object), Pass_Trace (a pass over a cluster that logs
  its writes, and the order of the writes), Pass_Deploys (the hash of a Deployment that is
  written), Pass_Safety (no panic), Pass_Ready (who reports readiness) and Pass_Open (the first
  steps of a pass) are the invariants carried through all stages. Sample_Cluster instantiates
  every parameter.

  Cluster_Frame and Cluster_Machine put the passes together: \<open>reachable\<close> is the inductive
  relation of clusters that passes of the operator and steps of other actors lead to, \<open>stores\<close>
  the laws of a cluster that holds the object between passes, and \<open>sound\<close> the invariant that
  ties what the stored status claims to the log of all writes. Settled_Pass follows one pass
  through all stages when every call succeeds, as triples (\<open>sure\<close>) that say that a stage falls
  through and with what effect. Convergence abstracts the object to finalizer and conditions,
  recorded hash and endpoint, shows that a pass over a settled cluster is one step (\<open>advance\<close>)
  of that machine, and concludes that passes converge. A settled cluster (\<open>settled_cluster\<close>) is one
  whose answers to every object that differs in its status only are fixed, in all clusters with a
  property that every call keeps (what is stored stays stored), and five passes are
  enough: one adds the finalizer, one records the hash of the configuration rendered with
  the stored endpoint, one creates the service and stores its endpoint, one records the hash of the
  configuration rendered with it, and one finds everything in place.

  Delivery runs the passes over the logged cluster and joins convergence with the invariant of the
  reachable states: what is delivered is the configuration of the settled inputs. First_Rollout
  evaluates the machine from a new object, which shows that five passes are needed. Key_Bootstrap starts
  without a SECRET_KEY: the pass that creates it leads from the clusters without to those with a
  key, and six passes are enough and needed; its sample cluster stores the key. Pass_Calls
  counts the calls of a pass (\<open>costs\<close>, additive along a body), Pass_Rotation compares a pass over
  two clusters that differ in the SECRET_KEY, Pod_Validity gives the criterion for a pod that the
  API server accepts.

  Pod_Properties, Api_Properties, Stage_Properties, Rollout_Properties,
  Pass_Properties, Start_Properties and Copy_Properties hold the properties, each with its application to the sample.

  \<^bold>\<open>Modelling choices.\<close> A pass runs over one in-memory object, which all functions share
  through a pointer: it is a field of the state. A cluster call takes the cluster and returns a
  result and a new cluster; nothing is assumed about other actors between two calls. An object
  of another package is represented by the results of the methods the operator calls on it.
  A nil pointer is None, a dereference without a check a panic. Loops are recursions over the
  list they range over, so every definition is total and no fuel is needed.

  \<^bold>\<open>Not modelled.\<close> Logging; Kubernetes API markers; the rendering of templates, hashing and
  password generation (other packages); constants no code refers to.
\<close>

end
